(* ===== verification/AisPrelude.thy ===== *)
theory AisPrelude
  imports Complex_Main "HOL-Library.Sublist" "HOL-Library.Word"
begin

text \<open>
  Shared vocabulary of the development: the machine types, the result type for code that
  may throw, the C-string and \<open>std::string\<close> operations the sources use, and the lemmas on
  lists and strings that several components need.

  \<^item> A \<open>std::string\<close> is a list of 8-bit characters. A \<open>wxString\<close> is taken as the
    characters of its UTF-8 form; the functions of wxWidgets that look inside one are
    parameters (record \<open>wx_api\<close>).
  \<^item> A \<open>double\<close> is a real number: rounding, infinities and NaN are not modelled.
  \<^item> A function that may throw returns \<open>Inl\<close> the exception or \<open>Inr\<close> its value.
\<close>

section \<open>Types\<close>

type_synonym byte = "8 word"
type_synonym uint16 = "16 word"
type_synonym uint32 = "32 word"
type_synonym uint64 = "64 word"
type_synonym ('e, 'a) result = "'e + 'a"

named_theorems ais_split \<open>case splits for the sums and options the components return\<close>

declare sum.splits [ais_split] option.splits [ais_split] if_splits [ais_split]

lemma unat_byte_less [simp]: "unat (b :: byte) < 256"
  using unsigned_less [of b, where ?'a = nat] by simp

section \<open>Results\<close>

definition rbind :: "('e, 'a) result \<Rightarrow> ('a \<Rightarrow> ('e, 'b) result) \<Rightarrow> ('e, 'b) result" where
  "rbind r f = (case r of Inl e \<Rightarrow> Inl e | Inr x \<Rightarrow> f x)"

lemma rbind_simps [simp]: "rbind (Inl e) f = Inl e" "rbind (Inr x) f = f x"
  by (simp_all add: rbind_def)

section \<open>Characters and strings\<close>

definition crlf :: string where
  "crlf = [CHR 0x0D, CHR 0x0A]"

text \<open>\<open>std::string::c_str()\<close> read as a C string: the characters before the first NUL.\<close>

definition c_str :: "string \<Rightarrow> string" where
  "c_str s = takeWhile (\<lambda>c. c \<noteq> CHR 0x00) s"

lemma c_str_no_nul [simp]: "CHR 0x00 \<notin> set (c_str s)"
  by (auto simp: c_str_def dest: set_takeWhileD)

lemma c_str_id: "CHR 0x00 \<notin> set s \<Longrightarrow> c_str s = s"
  unfolding c_str_def by (rule takeWhile_eq_all_conv [THEN iffD2]) blast

text \<open>The character classes of \<open><cctype>\<close> in the C locale.\<close>

definition charCode :: "char \<Rightarrow> nat" where
  "charCode c = of_char c"

definition isdigit :: "char \<Rightarrow> bool" where
  "isdigit c \<longleftrightarrow> 48 \<le> charCode c \<and> charCode c \<le> 57"

definition isspace :: "char \<Rightarrow> bool" where
  "isspace c \<longleftrightarrow> charCode c = 32 \<or> (9 \<le> charCode c \<and> charCode c \<le> 13)"

text \<open>
  \<open>strtol\<close> in base 10, with a \<open>long\<close> of 64 bits: leading white space, an optional sign and
  decimal digits; a value out of range is the nearest bound. \<open>atoi\<close> is its conversion to
  \<open>int\<close>, as in glibc and musl (C leaves it undefined when the value is no \<open>int\<close>): the low 32
  bits, read as a signed number.
\<close>

definition decimalValue :: "string \<Rightarrow> nat" where
  "decimalValue s = foldl (\<lambda>n c. 10 * n + (charCode c - 48)) 0 s"

definition strtol :: "string \<Rightarrow> int" where
  "strtol s =
     (let s = dropWhile isspace s;
          negative = (s \<noteq> [] \<and> hd s = CHR ''-'');
          digits = takeWhile isdigit (if s \<noteq> [] \<and> (hd s = CHR ''-'' \<or> hd s = CHR ''+'') then tl s else s);
          n = int (decimalValue digits)
      in if negative then max (- (2 ^ 63)) (- n) else min (2 ^ 63 - 1) n)"

definition atoi :: "string \<Rightarrow> int" where
  "atoi s = sint (of_int (strtol s) :: 32 word)"

lemma sint_int32: "- (2 ^ 31) \<le> n \<Longrightarrow> n < 2 ^ 31 \<Longrightarrow> sint (of_int n :: 32 word) = n"
  by (simp add: signed_of_int signed_take_bit_int_eq_self)

lemma strtol_digits:
  assumes "list_all isdigit s"
  shows "strtol s = min (2 ^ 63 - 1) (int (decimalValue s))"
proof -
  have first: "\<not> isspace c \<and> c \<noteq> CHR ''-'' \<and> c \<noteq> CHR ''+''" if "isdigit c" for c
    using that by (auto simp: isdigit_def isspace_def charCode_def of_char_def)
  have "dropWhile isspace s = s" and "\<not> (s \<noteq> [] \<and> (hd s = CHR ''-'' \<or> hd s = CHR ''+''))"
    using assms first by (cases s; auto)+
  moreover have all: "takeWhile isdigit s = s" using assms by (simp add: list_all_iff takeWhile_eq_all_conv)
  ultimately show ?thesis by (cases s) (simp_all add: strtol_def all)
qed

lemma atoi_digits:
  assumes "list_all isdigit s" and "decimalValue s < 2 ^ 31"
  shows "atoi s = int (decimalValue s)"
proof -
  have "strtol s = int (decimalValue s)" using strtol_digits [OF assms(1)] assms(2) by simp
  with assms(2) sint_int32 [of "int (decimalValue s)"] show ?thesis by (simp add: atoi_def)
qed

text \<open>
  \<open>s.find(c, pos)\<close> and \<open>s.find_first_of(set, pos)\<close>: the first index at or after \<open>pos\<close>
  whose character satisfies a test, \<open>None\<close> for \<open>npos\<close>.
\<close>

fun find_idx :: "('a \<Rightarrow> bool) \<Rightarrow> 'a list \<Rightarrow> nat option" where
  "find_idx p [] = None"
| "find_idx p (x # xs) = (if p x then Some 0 else map_option Suc (find_idx p xs))"

definition find_from :: "('a \<Rightarrow> bool) \<Rightarrow> 'a list \<Rightarrow> nat \<Rightarrow> nat option" where
  "find_from p xs pos = map_option ((+) pos) (find_idx p (drop pos xs))"

text \<open>\<open>s.substr(pos, n)\<close> for a \<open>pos\<close> inside the string.\<close>

definition substr :: "'a list \<Rightarrow> nat \<Rightarrow> nat \<Rightarrow> 'a list" where
  "substr s pos n = take n (drop pos s)"

lemma find_idx_Some:
  "find_idx p xs = Some i \<Longrightarrow> i < length xs \<and> p (xs ! i) \<and> (\<forall>j < i. \<not> p (xs ! j))"
proof (induction xs arbitrary: i)
  case (Cons x xs)
  then show ?case
    by (cases i) (auto simp: less_Suc_eq_0_disj split: if_splits)
qed simp

lemma find_idx_None: "find_idx p xs = None \<longleftrightarrow> (\<forall>x \<in> set xs. \<not> p x)"
  by (induction xs) auto

lemma find_idx_append:
  "\<forall>x \<in> set xs. \<not> p x \<Longrightarrow> find_idx p (xs @ ys) = map_option ((+) (length xs)) (find_idx p ys)"
  by (cases "find_idx p ys"; induction xs) auto

lemma find_from_Some:
  assumes "find_from p xs pos = Some i"
  shows "pos \<le> i \<and> i < length xs \<and> p (xs ! i)"
proof -
  from assms obtain k where k: "find_idx p (drop pos xs) = Some k" and i: "i = pos + k"
    by (auto simp: find_from_def)
  from find_idx_Some [OF k] have "k < length xs - pos" and "p (drop pos xs ! k)" by auto
  with i show ?thesis by (simp add: less_diff_conv add.commute)
qed

text \<open>Splitting at a character, as \<open>std::getline(stream, token, sep)\<close> in a loop does.\<close>

fun split_on :: "'a \<Rightarrow> 'a list \<Rightarrow> 'a list list" where
  "split_on sep [] = [[]]"
| "split_on sep (x # xs) =
     (if x = sep then [] # split_on sep xs
      else (case split_on sep xs of [] \<Rightarrow> [[x]] | t # ts \<Rightarrow> (x # t) # ts))"

fun join_with :: "'a list \<Rightarrow> 'a list list \<Rightarrow> 'a list" where
  "join_with sep [] = []"
| "join_with sep [x] = x"
| "join_with sep (x # y # ys) = x @ sep @ join_with sep (y # ys)"

lemma split_on_nonempty [simp]: "split_on sep xs \<noteq> []"
  by (induction xs) (auto split: list.split)

lemma split_on_free: "sep \<notin> set xs \<Longrightarrow> split_on sep xs = [xs]"
  by (induction xs) auto

lemma split_on_append:
  "sep \<notin> set xs \<Longrightarrow> split_on sep (xs @ sep # ys) = xs # split_on sep ys"
  by (induction xs) auto

lemma split_on_join:
  assumes "xs \<noteq> []" and "\<forall>x \<in> set xs. sep \<notin> set x"
  shows "split_on sep (join_with [sep] xs) = xs"
  using assms
  by (induction "[sep]" xs rule: join_with.induct) (auto simp: split_on_free split_on_append)

lemma join_with_Nil_iff:
  "join_with [sep] xs = [] \<longleftrightarrow> xs = [] \<or> xs = [[]]"
  by (induction "[sep]" xs rule: join_with.induct) auto

text \<open>Prefix and suffix tests, kept as rewrite rules for evaluation.\<close>

lemma suffix_append_self [simp]: "suffix ys (xs @ ys)"
  by (simp add: suffixI)

section \<open>Lists updated in place\<close>

text \<open>\<open>v.erase(v.begin() + i)\<close>.\<close>

definition erase_at :: "nat \<Rightarrow> 'a list \<Rightarrow> 'a list" where
  "erase_at i xs = take i xs @ drop (Suc i) xs"

lemma length_erase_at [simp]:
  "i < length xs \<Longrightarrow> length (erase_at i xs) = length xs - 1"
  by (simp add: erase_at_def)

lemma set_erase_at: "set (erase_at i xs) \<subseteq> set xs"
  by (auto simp: erase_at_def dest: in_set_takeD in_set_dropD)

lemma distinct_erase_at: "distinct xs \<Longrightarrow> distinct (erase_at i xs)"
  unfolding erase_at_def
  by (auto simp: set_take_disj_set_drop_if_distinct)

lemma erase_at_map: "map f (erase_at i xs) = erase_at i (map f xs)"
  by (simp add: erase_at_def take_map drop_map)

lemma nth_erase_at:
  "j < length xs - 1 \<Longrightarrow> erase_at i xs ! j = (if j < i then xs ! j else xs ! Suc j)"
  by (auto simp: erase_at_def nth_append min_def)

section \<open>Functions of wxWidgets\<close>

text \<open>
  The plugin calls these functions of wxWidgets, whose code is not in the repository. They
  are one record of parameters:
  \<^item> \<open>wx_FromUTF8\<close>: \<open>wxString::FromUTF8\<close> of a C string;
  \<^item> \<open>wx_ToULong\<close>: \<open>wxString::ToULong\<close>, \<open>None\<close> where it returns \<open>false\<close>;
  \<^item> \<open>wx_Tokenize\<close>: \<open>wxStringTokenize(s, ",", wxTOKEN_RET_EMPTY_ALL)\<close>;
  \<^item> \<open>wx_TrimRight\<close>, \<open>wx_TrimLeft\<close>: \<open>Trim(true)\<close> and \<open>Trim(false)\<close>;
  \<^item> \<open>wx_fmt6f\<close>, \<open>wx_fmt0f\<close>: \<open>wxString::Format("%.6f", x)\<close> and \<open>("%.0f", x)\<close>;
  \<^item> \<open>wx_fmtu\<close>, \<open>wx_fmt09u\<close>: \<open>wxString::Format("%u", n)\<close> and \<open>("%09u", n)\<close>;
  \<^item> \<open>wx_tr\<close>: the translation macro \<open>_()\<close>.
\<close>

record wx_api =
  wx_FromUTF8 :: "string \<Rightarrow> string"
  wx_ToULong :: "string \<Rightarrow> nat option"
  wx_Tokenize :: "string \<Rightarrow> string list"
  wx_TrimRight :: "string \<Rightarrow> string"
  wx_TrimLeft :: "string \<Rightarrow> string"
  wx_fmt6f :: "real \<Rightarrow> string"
  wx_fmt0f :: "real \<Rightarrow> string"
  wx_fmtu :: "uint32 \<Rightarrow> string"
  wx_fmt09u :: "uint32 \<Rightarrow> string"
  wx_tr :: "string \<Rightarrow> string"

end
