(* ===== verification/AisMessages.thy ===== *)
theory AisMessages
  imports AisPrelude
begin

text \<open>
  The data of the AIS stream client and its messages (\<open>src/src/ais-stream\<close>): the reported
  states, the client's fields, the subscribe request it builds (\<open>BuildSubscribeMessage\<close>)
  and the treatment of a frame it receives (\<open>ProcessAisEvent\<close>, \<open>HandleMessage\<close>).
\<close>

section \<open>The JSON library\<close>

text \<open>
  jsoncpp is not in the repository; the calls the client makes are parameters.
  \<open>js_isMember\<close>, \<open>js_get\<close> (\<open>operator[]\<close>) and \<open>js_asString\<close> throw \<open>Json::LogicError\<close> when
  the value has the wrong type; \<open>js_elems\<close> is what a range-based \<open>for\<close> visits.
\<close>

datatype json_exn = JsonLogicError

record 'j json_api =
  js_parse :: "string \<Rightarrow> 'j option"
  js_isMember :: "'j \<Rightarrow> string \<Rightarrow> (json_exn, bool) result"
  js_get :: "'j \<Rightarrow> string \<Rightarrow> (json_exn, 'j) result"
  js_asString :: "'j \<Rightarrow> (json_exn, string) result"
  js_isString :: "'j \<Rightarrow> bool"
  js_isArray :: "'j \<Rightarrow> bool"
  js_elems :: "'j \<Rightarrow> 'j list"
  js_null :: 'j
  js_arrayValue :: 'j
  js_append :: "'j \<Rightarrow> 'j \<Rightarrow> 'j"
  js_set :: "'j \<Rightarrow> string \<Rightarrow> 'j \<Rightarrow> 'j"
  js_ofDouble :: "real \<Rightarrow> 'j"
  js_ofUInt :: "uint32 \<Rightarrow> 'j"
  js_ofString :: "string \<Rightarrow> 'j"
  js_ofBool :: "bool \<Rightarrow> 'j"
  js_write :: "'j \<Rightarrow> string"

section \<open>The client's data\<close>

datatype State = Stopped | Connecting | Running | Error

text \<open>
  The fields of \<open>AisStreamClient\<close> that its own methods read; the two callbacks are
  represented by whether one is set. \<open>m_socket\<close> and \<open>m_thread\<close> belong to the threads of
  \<open>AisSupervisor\<close>.
\<close>

record ais_client =
  m_streaming :: bool
  m_useToken :: bool
  m_token :: string
  m_onSentence :: bool
  m_onStateChanged :: bool

definition ais_client_init :: ais_client where
  "ais_client_init =
     \<lparr>m_streaming = False, m_useToken = False, m_token = [], m_onSentence = False,
      m_onStateChanged = False\<rparr>"

text \<open>What the client does to its owner: it calls one of the two callbacks.\<close>

datatype ais_effect = StateReport State string | SentenceOut string

fun is_state_report :: "ais_effect \<Rightarrow> bool" where
  "is_state_report (StateReport _ _) = True"
| "is_state_report (SentenceOut _) = False"

definition SetStateCallback :: "bool \<Rightarrow> ais_client \<Rightarrow> ais_client" where
  "SetStateCallback cb cl = cl\<lparr>m_onStateChanged := cb\<rparr>"

definition SetState :: "ais_client \<Rightarrow> State \<Rightarrow> string \<Rightarrow> ais_effect list" where
  "SetState cl st detail = (if m_onStateChanged cl then [StateReport st detail] else [])"

definition SetTokenEnabled :: "bool \<Rightarrow> ais_client \<Rightarrow> ais_client" where
  "SetTokenEnabled enabled cl = cl\<lparr>m_useToken := enabled\<rparr>"

definition SetToken :: "string \<Rightarrow> ais_client \<Rightarrow> ais_client" where
  "SetToken token cl = cl\<lparr>m_token := token\<rparr>"

definition IsStreaming :: "ais_client \<Rightarrow> bool" where
  "IsStreaming cl = m_streaming cl"

section \<open>The subscribe request\<close>

definition kStandardMaxBoxSizeDegrees :: real where
  "kStandardMaxBoxSizeDegrees = 10"

definition kTokenMaxBoxSizeDegrees :: real where
  "kTokenMaxBoxSizeDegrees = 20"

definition clampedBoxSize :: "ais_client \<Rightarrow> real \<Rightarrow> real" where
  "clampedBoxSize cl boxSizeDegrees =
     (let maxBoxSizeDegrees =
        (if m_useToken cl then kTokenMaxBoxSizeDegrees else kStandardMaxBoxSizeDegrees)
      in min boxSizeDegrees maxBoxSizeDegrees)"

definition searchBox :: "real \<Rightarrow> real \<Rightarrow> real \<Rightarrow> real list" where
  "searchBox latitude longitude boxSizeDegrees =
     [latitude - boxSizeDegrees / 2, longitude - boxSizeDegrees / 2,
      latitude + boxSizeDegrees / 2, longitude + boxSizeDegrees / 2]"

definition jsonArray :: "'j json_api \<Rightarrow> 'j list \<Rightarrow> 'j" where
  "jsonArray js vs = foldl (js_append js) (js_arrayValue js) vs"

definition subscribeDocument ::
  "'j json_api \<Rightarrow> ais_client \<Rightarrow> real \<Rightarrow> real \<Rightarrow> real \<Rightarrow> bool \<Rightarrow> uint32 list \<Rightarrow> bool \<Rightarrow> 'j" where
  "subscribeDocument js cl latitude longitude boxSizeDegrees activateVesselsFollowing mmsiList snapshot =
     (let box = jsonArray js
            (map (js_ofDouble js) (searchBox latitude longitude (clampedBoxSize cl boxSizeDegrees)));
          bbox = jsonArray js [box];
          mmsiArray = jsonArray js (map (js_ofUInt js) mmsiList);
          sub_msg = js_set js (js_null js) ''type'' (js_ofString js ''subscribe'');
          sub_msg = js_set js sub_msg ''bbox'' bbox;
          sub_msg = (if mmsiList \<noteq> [] \<and> activateVesselsFollowing
                     then js_set js sub_msg ''mmsi'' mmsiArray else sub_msg)
      in js_set js sub_msg ''snapshot'' (js_ofBool js snapshot))"

definition dropTrailingNewline :: "string \<Rightarrow> string" where
  "dropTrailingNewline s = (if s \<noteq> [] \<and> last s = CHR 0x0A then butlast s else s)"

definition BuildSubscribeMessage ::
  "'j json_api \<Rightarrow> ais_client \<Rightarrow> real \<Rightarrow> real \<Rightarrow> real \<Rightarrow> bool \<Rightarrow> uint32 list \<Rightarrow> bool \<Rightarrow> string" where
  "BuildSubscribeMessage js cl latitude longitude boxSizeDegrees activateVesselsFollowing mmsiList snapshot =
     dropTrailingNewline (js_write js
       (subscribeDocument js cl latitude longitude boxSizeDegrees activateVesselsFollowing mmsiList snapshot))"

section \<open>Received frames\<close>

definition nmeaOf :: "wx_api \<Rightarrow> string \<Rightarrow> string option" where
  "nmeaOf wx text =
     (let nmea = wx_FromUTF8 wx (c_str text) in
      if \<not> prefix ''!AIVDM'' nmea then None
      else if \<not> suffix crlf nmea then Some (nmea @ crlf) else Some nmea)"

text \<open>The loop over \<open>ev["nmea"]\<close>: what was sent, and the exception that ended it, if any.\<close>

fun sendSentences ::
  "wx_api \<Rightarrow> 'j json_api \<Rightarrow> 'j list \<Rightarrow> string list \<times> json_exn option" where
  "sendSentences wx js [] = ([], None)"
| "sendSentences wx js (sentence # rest) =
     (if \<not> js_isString js sentence then sendSentences wx js rest
      else case js_asString js sentence of
        Inl e \<Rightarrow> ([], Some e)
      | Inr text \<Rightarrow>
          (case nmeaOf wx text of
             None \<Rightarrow> sendSentences wx js rest
           | Some nmea \<Rightarrow>
               (let (sent, exn) = sendSentences wx js rest in (nmea # sent, exn))))"

definition hasType :: "'j json_api \<Rightarrow> 'j \<Rightarrow> string \<Rightarrow> (json_exn, bool) result" where
  "hasType js ev t =
     rbind (js_isMember js ev ''type'') (\<lambda>m.
       if \<not> m then Inr False
       else rbind (js_get js ev ''type'') (\<lambda>v.
         rbind (js_asString js v) (\<lambda>s. Inr (s = t))))"

definition nmeaArray :: "'j json_api \<Rightarrow> 'j \<Rightarrow> (json_exn, 'j option) result" where
  "nmeaArray js ev =
     rbind (js_isMember js ev ''nmea'') (\<lambda>m.
       if \<not> m then Inr None
       else rbind (js_get js ev ''nmea'') (\<lambda>v. Inr (if js_isArray js v then Some v else None)))"

definition ProcessAisEvent ::
  "wx_api \<Rightarrow> 'j json_api \<Rightarrow> 'j \<Rightarrow> string list \<times> json_exn option" where
  "ProcessAisEvent wx js ev =
     (case hasType js ev ''event'' of
        Inl e \<Rightarrow> ([], Some e)
      | Inr False \<Rightarrow> ([], None)
      | Inr True \<Rightarrow>
          (case nmeaArray js ev of
             Inl e \<Rightarrow> ([], Some e)
           | Inr None \<Rightarrow> ([], None)
           | Inr (Some arr) \<Rightarrow> sendSentences wx js (js_elems js arr)))"

definition errorReason :: "wx_api \<Rightarrow> 'j json_api \<Rightarrow> 'j \<Rightarrow> (json_exn, string) result" where
  "errorReason wx js ev =
     rbind (js_get js ev ''error'') (\<lambda>v.
       if js_isString js v then rbind (js_asString js v) (\<lambda>s. Inr (wx_FromUTF8 wx (c_str s)))
       else Inr ''server error'')"

text \<open>
  The callbacks made, and either the exception that leaves the method or its result: whether
  the payload was a \<open>type:"error"\<close> frame.
\<close>

definition HandleMessage ::
  "wx_api \<Rightarrow> 'j json_api \<Rightarrow> ais_client \<Rightarrow> string \<Rightarrow> ais_effect list \<times> (json_exn, bool) result" where
  "HandleMessage wx js cl payload =
     (case js_parse js payload of
        None \<Rightarrow> ([], Inr False)
      | Some ev \<Rightarrow>
          (case hasType js ev ''error'' of
             Inl e \<Rightarrow> ([], Inl e)
           | Inr True \<Rightarrow>
               (case errorReason wx js ev of
                  Inl e \<Rightarrow> ([], Inl e)
                | Inr reason \<Rightarrow> (SetState cl Error reason, Inr True))
           | Inr False \<Rightarrow>
               if m_onSentence cl then
                 (let (sent, exn) = ProcessAisEvent wx js ev in
                  (map SentenceOut sent, case exn of None \<Rightarrow> Inr False | Some e \<Rightarrow> Inl e))
               else ([], Inr False)))"

section \<open>What is forwarded\<close>

definition vdm_line :: "string \<Rightarrow> bool" where
  "vdm_line s \<longleftrightarrow> prefix ''!AIVDM'' s \<and> suffix crlf s"

lemma nmeaOf_vdm: "nmeaOf wx text = Some nmea \<Longrightarrow> vdm_line nmea"
  by (auto simp: nmeaOf_def vdm_line_def Let_def split: if_splits)

lemma nmeaOf_content:
  "nmeaOf wx text = Some nmea \<Longrightarrow>
     nmea = wx_FromUTF8 wx (c_str text) \<or> nmea = wx_FromUTF8 wx (c_str text) @ crlf"
  by (auto simp: nmeaOf_def Let_def split: if_splits)

lemma sendSentences_vdm: "\<forall>s \<in> set (fst (sendSentences wx js vs)). vdm_line s"
  by (induction wx js vs rule: sendSentences.induct)
     (auto simp: nmeaOf_vdm Let_def split: sum.splits option.splits prod.splits)

text \<open>A reference definition of the loop, for a library that can read every string value.\<close>

definition sentencesOf :: "wx_api \<Rightarrow> 'j json_api \<Rightarrow> 'j list \<Rightarrow> string list" where
  "sentencesOf wx js vs =
     List.map_filter (nmeaOf wx)
       (map (\<lambda>v. projr (js_asString js v)) (filter (js_isString js) vs))"

lemma sendSentences_reference:
  assumes "\<And>v. js_isString js v \<Longrightarrow> \<exists>s. js_asString js v = Inr s"
  shows "sendSentences wx js vs = (sentencesOf wx js vs, None)"
proof (induction vs)
  case Nil
  show ?case by (simp add: sentencesOf_def map_filter_simps)
next
  case (Cons v vs)
  then show ?case using assms [of v]
    by (auto simp: sentencesOf_def map_filter_simps split: option.splits)
qed

lemma ProcessAisEvent_vdm: "\<forall>s \<in> set (fst (ProcessAisEvent wx js ev)). vdm_line s"
  using sendSentences_vdm by (auto simp: ProcessAisEvent_def split: ais_split bool.splits)

lemma SetState_simps [simp]:
  "SetState (m_onSentence_update f cl) st d = SetState cl st d"
  "SetState (m_streaming_update g cl) st d = SetState cl st d"
  by (simp_all add: SetState_def)

text \<open>
  A frame leads to sentences, each an AIVDM line, or to one error report, never to both; and
  the report is made exactly when the method returns \<open>true\<close>.
\<close>

lemma HandleMessage_effects:
  assumes "HandleMessage wx js cl payload = (effs, r)"
  shows "(\<exists>sent. effs = map SentenceOut sent \<and> (\<forall>s \<in> set sent. vdm_line s) \<and> r \<noteq> Inr True)
       \<or> (\<exists>reason. effs = SetState cl Error reason \<and> r = Inr True)"
proof -
  have none: "\<exists>sent. ([] :: ais_effect list) = map SentenceOut sent \<and> (\<forall>s \<in> set sent. vdm_line s)"
    by (rule exI [of _ "[]"]) simp
  have proc: "\<exists>sent'. map SentenceOut sent = map SentenceOut sent' \<and> (\<forall>s \<in> set sent'. vdm_line s)"
    if "ProcessAisEvent wx js ev = (sent, exn)" for ev sent exn
    using ProcessAisEvent_vdm [of wx js ev] that by (intro exI [of _ sent]) simp
  show ?thesis
    using assms none
    by (auto simp: HandleMessage_def Let_def dest!: proc split: ais_split bool.splits prod.splits)
qed

lemma HandleMessage_no_sentence_callback:
  "\<not> m_onSentence cl \<Longrightarrow> SentenceOut s \<notin> set (fst (HandleMessage wx js cl payload))"
  by (auto simp: HandleMessage_def SetState_def Let_def split: ais_split bool.splits prod.splits)

end
