(* ===== verification/AisInterfaces.thy ===== *)
theory AisInterfaces
  imports Main
begin

text \<open>
  The interface between the window and the stream client: the calls the window makes and what
  it relies on, with the consequences for the window's own operations. The client of
  \<open>AisSupervisor\<close> is shown there to provide it.
\<close>

text \<open>
  \<open>start\<close> and \<open>restart\<close> return the client, the error reported if any, and the thread started if
  any; \<open>args\<close> is what that thread is given; \<open>ready\<close> says that a start will not be refused.
\<close>

locale stream_client =
  fixes streaming :: "'c \<Rightarrow> bool"
    and ready :: "'c \<Rightarrow> bool"
    and args :: "'a \<Rightarrow> 'c \<Rightarrow> 't"
    and start :: "'a \<Rightarrow> 'c \<Rightarrow> 'c \<times> 'e option \<times> 't option"
    and restart :: "'a \<Rightarrow> 'c \<Rightarrow> 'c \<times> 'e option \<times> 't option"
    and stop :: "'c \<Rightarrow> 'c"
  assumes stop_idle: "\<not> streaming (stop c)"
    and stop_ready: "ready (stop c) = ready c"
    and start_idle: "streaming c \<Longrightarrow> start a c = (c, None, None)"
    and start_ready: "\<not> streaming c \<Longrightarrow> ready c \<Longrightarrow>
          \<exists>c'. start a c = (c', None, Some (args a c')) \<and> streaming c' \<and> ready c'"
    and restart_idle: "\<not> streaming c \<Longrightarrow> restart a c = (c, None, None)"
    and restart_streaming: "streaming c \<Longrightarrow> restart a c = start a (stop c)"
begin

text \<open>A restart never loses a running stream, and hands the new arguments to a new thread.\<close>

lemma restart_fresh:
  assumes "streaming c" and "ready c"
  shows "\<exists>c'. restart a c = (c', None, Some (args a c')) \<and> streaming c' \<and> ready c'"
  using start_ready [OF stop_idle, of c a] assms by (simp add: restart_streaming stop_ready)

lemma restart_keeps_streaming:
  "ready c \<Longrightarrow> streaming (fst (restart a c)) = streaming c"
  using restart_fresh [of c a] by (cases "streaming c") (auto simp: restart_idle)

lemma restart_keeps_ready: "ready c \<Longrightarrow> ready (fst (restart a c))"
  using restart_fresh [of c a] by (cases "streaming c") (auto simp: restart_idle)

text \<open>However often the stream is restarted, it runs if it ran before.\<close>

lemma restarts_keep_streaming:
  "ready c \<Longrightarrow> streaming (foldl (\<lambda>c a. fst (restart a c)) c as) = streaming c"
proof (induction "as" arbitrary: c)
  case (Cons a as)
  then show ?case
    using Cons.IH [OF restart_keeps_ready [OF Cons.prems, of a]] restart_keeps_streaming [OF Cons.prems, of a]
    by simp
qed simp

end

end
