(* ===== verification/AisSupervisor.thy ===== *)
theory AisSupervisor
  imports AisMessages AisInterfaces
begin

text \<open>
  The public operations of \<open>AisStreamClient\<close> and its supervisor thread
  (\<open>src/src/ais-stream/ais_stream_client.cpp\<close>). \<open>clientStart\<close>, \<open>clientStop\<close> and
  \<open>clientRestart\<close> are the operations as their caller sees them; \<open>ais_step\<close> is the
  interleaving of the calling thread with the supervisor, one step per atomic access to the
  shared state (an atomic flag, or a section under \<open>m_socketMutex\<close>).
\<close>

section \<open>The operations as the caller sees them\<close>

record start_args =
  sa_latitude :: real
  sa_longitude :: real
  sa_boxSizeDegrees :: real
  sa_activateVesselsFollowing :: bool
  sa_mmsiList :: "uint32 list"
  sa_snapshot :: bool
  sa_onSentence :: bool

text \<open>What \<open>Start\<close> hands to the thread it creates: the subscribe message and the token.\<close>

type_synonym thread_args = "string \<times> string"

definition threadArgs :: "'j json_api \<Rightarrow> start_args \<Rightarrow> ais_client \<Rightarrow> thread_args" where
  "threadArgs js a cl =
     (BuildSubscribeMessage js cl (sa_latitude a) (sa_longitude a) (sa_boxSizeDegrees a)
        (sa_activateVesselsFollowing a) (sa_mmsiList a) (sa_snapshot a),
      if m_useToken cl then m_token cl else [])"

definition missingTokenMessage :: string where
  "missingTokenMessage = ''Token is missing''"

text \<open>The new client, the error report if there is one, and the thread started, if any.\<close>

definition clientStart ::
  "'j json_api \<Rightarrow> start_args \<Rightarrow> ais_client \<Rightarrow>
     ais_client \<times> (State \<times> string) option \<times> thread_args option" where
  "clientStart js a cl =
     (if m_streaming cl then (cl, None, None)
      else if m_useToken cl \<and> m_token cl = [] then (cl, Some (Error, missingTokenMessage), None)
      else (cl\<lparr>m_onSentence := sa_onSentence a, m_streaming := True\<rparr>, None,
            Some (threadArgs js a cl)))"

definition clientStop :: "ais_client \<Rightarrow> ais_client" where
  "clientStop cl = cl\<lparr>m_streaming := False\<rparr>"

definition clientRestart ::
  "'j json_api \<Rightarrow> start_args \<Rightarrow> ais_client \<Rightarrow>
     ais_client \<times> (State \<times> string) option \<times> thread_args option" where
  "clientRestart js a cl =
     (if \<not> m_streaming cl then (cl, None, None) else clientStart js a (clientStop cl))"

text \<open>A client whose start will not be refused for a missing token, and the interface it provides.\<close>

definition tokenReady :: "ais_client \<Rightarrow> bool" where
  "tokenReady cl = (m_useToken cl \<longrightarrow> m_token cl \<noteq> [])"

lemma threadArgs_update [simp]:
  "threadArgs js a (m_onSentence_update f cl) = threadArgs js a cl"
  "threadArgs js a (m_streaming_update g cl) = threadArgs js a cl"
  "threadArgs js a (m_onStateChanged_update h cl) = threadArgs js a cl"
  by (simp_all add: threadArgs_def BuildSubscribeMessage_def subscribeDocument_def clampedBoxSize_def)

interpretation ais: stream_client IsStreaming tokenReady "threadArgs js" "clientStart js"
  "clientRestart js" clientStop for js
  by unfold_locales
     (auto simp: IsStreaming_def tokenReady_def clientStop_def clientStart_def clientRestart_def)

section \<open>Reconnect pacing\<close>

definition kInitialBackoffSeconds :: int where
  "kInitialBackoffSeconds = 2"

definition kMaxBackoffSeconds :: int where
  "kMaxBackoffSeconds = 30"

definition chooseBackoff :: "bool \<Rightarrow> bool \<Rightarrow> int \<Rightarrow> int" where
  "chooseBackoff rejected reached b =
     (if rejected then kMaxBackoffSeconds
      else if reached then kInitialBackoffSeconds else b)"

definition nextBackoff :: "int \<Rightarrow> int" where
  "nextBackoff b = min (b * 2) kMaxBackoffSeconds"

section \<open>The state of the two threads\<close>

text \<open>The \<open>ix::WebSocket\<close> of a session, as this code configures and uses it.\<close>

record ws_handle =
  ws_url :: string
  ws_headers :: "(string \<times> string) list"
  ws_reconnect :: bool
  ws_closed :: bool
  ws_sent :: "string list"

text \<open>
  Where the supervisor thread is: at the test of the loop, with its socket made but not yet
  published, inside \<open>run()\<close>, back from it, at the test after the tear-down, after \<open>i\<close> chunks
  of the sleep, past the loop, returned (the thread is joinable), or not there.
\<close>

datatype sup_pc =
    SupNone | SupLoop | SupPublish | SupRun | SupTeardown | SupAfter | SupSleep nat
  | SupExit | SupDone

text \<open>
  Where the calling thread is: outside, in \<open>Stop\<close> before the locked section, or in \<open>Stop\<close>
  before the join; the argument is what \<open>Restart\<close> goes on to start.
\<close>

datatype caller_pc =
  CallerIdle | CallerStopLock "start_args option" | CallerJoin "start_args option"

record ais_sys =
  client :: ais_client
  m_socket :: "ws_handle option"
  sup :: sup_pc
  backoffSeconds :: int
  reachedRunning :: bool
  serverRejected :: bool
  errorReported :: bool
  subscribeMsg :: string
  authToken :: string
  caller :: caller_pc
  log :: "ais_effect list"
  reports :: "(State \<times> string) list"
  terminated :: bool

text \<open>
  \<open>log\<close> is every callback made so far; \<open>reports\<close> every call of \<open>SetState\<close>, also those that
  found no callback set. \<open>terminated\<close> says that an exception left the thread function, which
  ends the process.
\<close>

definition ais_sys_init :: ais_sys where
  "ais_sys_init =
     \<lparr>client = ais_client_init, m_socket = None, sup = SupNone,
      backoffSeconds = kInitialBackoffSeconds, reachedRunning = False, serverRejected = False,
      errorReported = False, subscribeMsg = [], authToken = [], caller = CallerIdle,
      log = [], reports = [], terminated = False\<rparr>"

definition report :: "State \<Rightarrow> string \<Rightarrow> ais_sys \<Rightarrow> ais_sys" where
  "report st detail s =
     s\<lparr>log := log s @ SetState (client s) st detail, reports := reports s @ [(st, detail)]\<rparr>"

section \<open>The calling thread\<close>

text \<open>\<open>Start\<close>; \<open>None\<close> while it waits to reap an earlier thread.\<close>

definition Start :: "'j json_api \<Rightarrow> start_args \<Rightarrow> ais_sys \<Rightarrow> ais_sys option" where
  "Start js a s =
     (case clientStart js a (client s) of
        (cl, None, None) \<Rightarrow> Some s
      | (cl, Some (st, detail), _) \<Rightarrow> Some (report st detail s)
      | (cl, None, Some (msg, auth)) \<Rightarrow>
          (if sup s = SupNone \<or> sup s = SupDone
           then Some (s\<lparr>client := cl, sup := SupLoop, backoffSeconds := kInitialBackoffSeconds,
                        subscribeMsg := msg, authToken := auth\<rparr>)
           else None))"

definition StopFlag :: "start_args option \<Rightarrow> ais_sys \<Rightarrow> ais_sys" where
  "StopFlag next s = s\<lparr>client := clientStop (client s), caller := CallerStopLock next\<rparr>"

definition StopClose :: "start_args option \<Rightarrow> ais_sys \<Rightarrow> ais_sys" where
  "StopClose next s =
     s\<lparr>m_socket := map_option (\<lambda>h. h\<lparr>ws_closed := True\<rparr>) (m_socket s),
       caller := CallerJoin next\<rparr>"

definition StopJoin :: "'j json_api \<Rightarrow> start_args option \<Rightarrow> ais_sys \<Rightarrow> ais_sys option" where
  "StopJoin js next s =
     (if sup s = SupNone \<or> sup s = SupDone
      then (let s' = s\<lparr>sup := SupNone, caller := CallerIdle\<rparr> in
            case next of None \<Rightarrow> Some s' | Some a \<Rightarrow> Start js a s')
      else None)"

definition Restart :: "start_args \<Rightarrow> ais_sys \<Rightarrow> ais_sys" where
  "Restart a s = (if \<not> m_streaming (client s) then s else StopFlag (Some a) s)"

section \<open>The supervisor thread\<close>

definition kAisUrl :: string where
  "kAisUrl = ''wss://ais.openwaters.io/v1/stream''"

definition makeSocket :: "string \<Rightarrow> ws_handle" where
  "makeSocket auth =
     \<lparr>ws_url = kAisUrl,
      ws_headers = (if auth \<noteq> [] then [(''Authorization'', ''Bearer '' @ auth)] else []),
      ws_reconnect = False, ws_closed = False, ws_sent = []\<rparr>"

definition supLoop :: "ais_sys \<Rightarrow> ais_sys" where
  "supLoop s =
     (if m_streaming (client s)
      then (report Connecting [] s)
             \<lparr>sup := SupPublish, reachedRunning := False, serverRejected := False,
              errorReported := False\<rparr>
      else s\<lparr>sup := SupExit\<rparr>)"

definition supPublish :: "ais_sys \<Rightarrow> ais_sys" where
  "supPublish s =
     (if \<not> m_streaming (client s) then s\<lparr>sup := SupExit\<rparr>
      else s\<lparr>m_socket := Some (makeSocket (authToken s)), sup := SupRun\<rparr>)"

definition supTeardown :: "ais_sys \<Rightarrow> ais_sys" where
  "supTeardown s = s\<lparr>m_socket := None, sup := SupAfter\<rparr>"

definition supAfter :: "ais_sys \<Rightarrow> ais_sys" where
  "supAfter s =
     (if \<not> m_streaming (client s) then s\<lparr>sup := SupExit\<rparr>
      else s\<lparr>backoffSeconds := chooseBackoff (serverRejected s) (reachedRunning s) (backoffSeconds s),
             sup := SupSleep 0\<rparr>)"

definition supSleep :: "nat \<Rightarrow> ais_sys \<Rightarrow> ais_sys" where
  "supSleep i s =
     (if int i < backoffSeconds s * 10 \<and> m_streaming (client s)
      then s\<lparr>sup := SupSleep (Suc i)\<rparr>
      else s\<lparr>backoffSeconds := nextBackoff (backoffSeconds s), sup := SupLoop\<rparr>)"

definition supExit :: "ais_sys \<Rightarrow> ais_sys" where
  "supExit s = (report Stopped [] s)\<lparr>sup := SupDone\<rparr>"

fun supStep :: "ais_sys \<Rightarrow> sup_pc \<Rightarrow> ais_sys option" where
  "supStep s SupLoop = Some (supLoop s)"
| "supStep s SupPublish = Some (supPublish s)"
| "supStep s SupTeardown = Some (supTeardown s)"
| "supStep s SupAfter = Some (supAfter s)"
| "supStep s (SupSleep i) = Some (supSleep i s)"
| "supStep s SupExit = Some (supExit s)"
| "supStep s _ = None"

section \<open>The message callback of a session\<close>

text \<open>
  \<open>IxOpen failed\<close> is the opening of the connection; \<open>failed\<close> says that the send inside it found the
  connection broken. The library then closes it and calls back, within that send.
\<close>

datatype ix_event = IxOpen bool | IxMessage string | IxError string | IxClose | IxOther

definition connectionLost :: string where
  "connectionLost = ''connection lost''"

definition onClose :: "ais_sys \<Rightarrow> ais_sys" where
  "onClose s =
     (if m_streaming (client s) \<and> \<not> errorReported s then report Error connectionLost s else s)"

definition onOpen :: "bool \<Rightarrow> ais_sys \<Rightarrow> ais_sys" where
  "onOpen failed s =
     (let s = (case m_socket s of
                 None \<Rightarrow> s
               | Some h \<Rightarrow>
                   (let s = s\<lparr>m_socket := Some (h\<lparr>ws_sent := ws_sent h @ [subscribeMsg s]\<rparr>)\<rparr>
                    in if failed then onClose s else s))
      in report Running [] (s\<lparr>reachedRunning := True\<rparr>))"

fun reportsOf :: "ais_effect list \<Rightarrow> (State \<times> string) list" where
  "reportsOf [] = []"
| "reportsOf (StateReport st d # effs) = (st, d) # reportsOf effs"
| "reportsOf (SentenceOut _ # effs) = reportsOf effs"

definition onMessage :: "wx_api \<Rightarrow> 'j json_api \<Rightarrow> string \<Rightarrow> ais_sys \<Rightarrow> ais_sys" where
  "onMessage wx js payload s =
     (let (effs, r) = HandleMessage wx js (client s) payload;
          all = fst (HandleMessage wx js (SetStateCallback True (client s)) payload);
          s' = s\<lparr>log := log s @ effs, reports := reports s @ reportsOf all\<rparr>
      in case r of
           Inl e \<Rightarrow> s'\<lparr>terminated := True\<rparr>
         | Inr True \<Rightarrow> s'\<lparr>serverRejected := True, errorReported := True\<rparr>
         | Inr False \<Rightarrow> s')"

definition onError :: "wx_api \<Rightarrow> string \<Rightarrow> ais_sys \<Rightarrow> ais_sys" where
  "onError wx reason s =
     report Error (wx_FromUTF8 wx (c_str reason)) (s\<lparr>errorReported := True\<rparr>)"

fun onMessageCallback :: "wx_api \<Rightarrow> 'j json_api \<Rightarrow> ix_event \<Rightarrow> ais_sys \<Rightarrow> ais_sys" where
  "onMessageCallback wx js (IxOpen failed) s = onOpen failed s"
| "onMessageCallback wx js (IxMessage payload) s = onMessage wx js payload s"
| "onMessageCallback wx js (IxError reason) s = onError wx reason s"
| "onMessageCallback wx js IxClose s = onClose s"
| "onMessageCallback wx js IxOther s = s"

section \<open>The interleaving\<close>

datatype ais_event =
    CallStart start_args | CallStop | CallRestart start_args
  | CallSetToken string | CallSetTokenEnabled bool | CallSetStateCallback bool
  | CallerStep | SupStep | SessionEvent ix_event | SessionReturn

fun callerStep :: "'j json_api \<Rightarrow> ais_sys \<Rightarrow> caller_pc \<Rightarrow> ais_sys option" where
  "callerStep js s CallerIdle = None"
| "callerStep js s (CallerStopLock next) = Some (StopClose next s)"
| "callerStep js s (CallerJoin next) = StopJoin js next s"

text \<open>
  One step. The library runs the callback on the supervisor thread inside \<open>run()\<close>; when a
  session event or the return happens is up to the network.
\<close>

fun ais_act :: "wx_api \<Rightarrow> 'j json_api \<Rightarrow> ais_sys \<Rightarrow> ais_event \<Rightarrow> ais_sys option" where
  "ais_act wx js s (CallStart a) = (if caller s = CallerIdle then Start js a s else None)"
| "ais_act wx js s CallStop = (if caller s = CallerIdle then Some (StopFlag None s) else None)"
| "ais_act wx js s (CallRestart a) = (if caller s = CallerIdle then Some (Restart a s) else None)"
| "ais_act wx js s (CallSetToken t) =
     (if caller s = CallerIdle then Some (s\<lparr>client := SetToken t (client s)\<rparr>) else None)"
| "ais_act wx js s (CallSetTokenEnabled b) =
     (if caller s = CallerIdle then Some (s\<lparr>client := SetTokenEnabled b (client s)\<rparr>) else None)"
| "ais_act wx js s (CallSetStateCallback b) =
     (if caller s = CallerIdle then Some (s\<lparr>client := SetStateCallback b (client s)\<rparr>) else None)"
| "ais_act wx js s CallerStep = callerStep js s (caller s)"
| "ais_act wx js s SupStep = supStep s (sup s)"
| "ais_act wx js s (SessionEvent e) =
     (if sup s = SupRun then Some (onMessageCallback wx js e s) else None)"
| "ais_act wx js s SessionReturn =
     (if sup s = SupRun then Some (s\<lparr>sup := SupTeardown\<rparr>) else None)"

definition ais_step :: "wx_api \<Rightarrow> 'j json_api \<Rightarrow> ais_sys \<Rightarrow> ais_event \<Rightarrow> ais_sys option" where
  "ais_step wx js s e = (if terminated s then None else ais_act wx js s e)"

fun ais_run :: "wx_api \<Rightarrow> 'j json_api \<Rightarrow> ais_sys \<Rightarrow> ais_event list \<Rightarrow> ais_sys option" where
  "ais_run wx js s [] = Some s"
| "ais_run wx js s (e # es) =
     (case ais_step wx js s e of None \<Rightarrow> None | Some s' \<Rightarrow> ais_run wx js s' es)"

inductive ais_reachable :: "wx_api \<Rightarrow> 'j json_api \<Rightarrow> ais_sys \<Rightarrow> bool"
  for wx :: wx_api and js :: "'j json_api" where
  ais_start: "ais_reachable wx js ais_sys_init"
| ais_next: "ais_reachable wx js s \<Longrightarrow> ais_step wx js s e = Some s' \<Longrightarrow> ais_reachable wx js s'"

end
