(* ===== verification/AisSettings.thy ===== *)
theory AisSettings
  imports AisPrelude
begin

text \<open>
  The global settings (\<open>src/src/settings/global_settings.cpp\<close>), how the plugin saves them to
  and loads them from OpenCPN's configuration object (\<open>Plugin::SaveSettings\<close>,
  \<open>Plugin::LoadSettings\<close>), and the preferences dialog (\<open>settings_ui_derived.cpp\<close>).
\<close>

section \<open>The globals\<close>

record settings =
  g_restoreWindowSize :: bool
  g_restoreWindowPos :: bool
  g_windowWidth :: int
  g_windowHeight :: int
  g_windowPosX :: int
  g_windowPosY :: int
  g_keepWindowActive :: bool
  g_lastSearchBoxSize :: real
  g_openWatersToken :: string
  g_mmsiList :: "uint32 list"
  g_mmsiListNames :: "string list"
  g_activateVesselsFollowing :: bool

definition settings_init :: settings where
  "settings_init =
     \<lparr>g_restoreWindowSize = True, g_restoreWindowPos = True, g_windowWidth = 0,
      g_windowHeight = 0, g_windowPosX = 0, g_windowPosY = 0, g_keepWindowActive = True,
      g_lastSearchBoxSize = 1, g_openWatersToken = [], g_mmsiList = [], g_mmsiListNames = [],
      g_activateVesselsFollowing = True\<rparr>"

section \<open>The configuration object\<close>

text \<open>
  \<open>wxFileConfig\<close> is not in the repository. \<open>Write\<close> and \<open>Read\<close> are overloaded on the type of
  the value; the constructor of a \<open>cfg_value\<close> says which overload is called, and for \<open>Read\<close>
  the value given is the default.
\<close>

datatype cfg_value = CfgBool bool | CfgInt int | CfgDouble real | CfgString string

record 'c config_api =
  cfg_SetPath :: "string \<Rightarrow> 'c \<Rightarrow> 'c"
  cfg_GetPath :: "'c \<Rightarrow> string"
  cfg_Write :: "string \<Rightarrow> cfg_value \<Rightarrow> 'c \<Rightarrow> 'c"
  cfg_Read :: "'c \<Rightarrow> string \<Rightarrow> cfg_value \<Rightarrow> cfg_value"

definition readBool :: "'c config_api \<Rightarrow> 'c \<Rightarrow> string \<Rightarrow> bool \<Rightarrow> bool" where
  "readBool api c key d = (case cfg_Read api c key (CfgBool d) of CfgBool b \<Rightarrow> b | _ \<Rightarrow> d)"

definition readInt :: "'c config_api \<Rightarrow> 'c \<Rightarrow> string \<Rightarrow> int \<Rightarrow> int" where
  "readInt api c key d = (case cfg_Read api c key (CfgInt d) of CfgInt n \<Rightarrow> n | _ \<Rightarrow> d)"

definition readDouble :: "'c config_api \<Rightarrow> 'c \<Rightarrow> string \<Rightarrow> real \<Rightarrow> real" where
  "readDouble api c key d = (case cfg_Read api c key (CfgDouble d) of CfgDouble x \<Rightarrow> x | _ \<Rightarrow> d)"

definition readString :: "'c config_api \<Rightarrow> 'c \<Rightarrow> string \<Rightarrow> string \<Rightarrow> string" where
  "readString api c key d = (case cfg_Read api c key (CfgString d) of CfgString s \<Rightarrow> s | _ \<Rightarrow> d)"

definition configPath :: string where
  "configPath = ''/PlugIns/AisLivePlugin''"

section \<open>Saving\<close>

text \<open>What \<open>SaveSettings\<close> asks of the main window when there is one.\<close>

record window_info =
  wi_width :: int
  wi_height :: int
  wi_x :: int
  wi_y :: int
  wi_searchBoxSize :: real

definition captureWindow :: "window_info option \<Rightarrow> settings \<Rightarrow> settings" where
  "captureWindow gui g =
     (case gui of
        None \<Rightarrow> g
      | Some i \<Rightarrow>
          g\<lparr>g_windowWidth := wi_width i, g_windowHeight := wi_height i, g_windowPosX := wi_x i,
            g_windowPosY := wi_y i, g_lastSearchBoxSize := wi_searchBoxSize i\<rparr>)"

text \<open>The two loops that build the strings of the vessel list.\<close>

fun mmsiStringLoop :: "wx_api \<Rightarrow> string \<Rightarrow> uint32 list \<Rightarrow> string" where
  "mmsiStringLoop wx mmsiString [] = mmsiString"
| "mmsiStringLoop wx mmsiString (mmsi # rest) =
     mmsiStringLoop wx ((if mmsiString \<noteq> [] then mmsiString @ '','' else mmsiString) @ wx_fmtu wx mmsi) rest"

definition namesStringLoop :: "string list \<Rightarrow> nat \<Rightarrow> string" where
  "namesStringLoop names n =
     foldl (\<lambda>namesString i.
        (if i > 0 then namesString @ '','' else namesString) @
        (if i < length names then names ! i else [])) [] [0..<n]"

definition writeAll :: "wx_api \<Rightarrow> settings \<Rightarrow> (string \<times> cfg_value) list" where
  "writeAll wx g =
     [(''RestoreWindowSize'', CfgBool (g_restoreWindowSize g)),
      (''WindowWidth'', CfgInt (g_windowWidth g)),
      (''WindowHeight'', CfgInt (g_windowHeight g)),
      (''RestoreWindowPos'', CfgBool (g_restoreWindowPos g)),
      (''WindowPosX'', CfgInt (g_windowPosX g)),
      (''WindowPosY'', CfgInt (g_windowPosY g)),
      (''KeepWindowActive'', CfgBool (g_keepWindowActive g)),
      (''LastSearchBoxSize'', CfgDouble (g_lastSearchBoxSize g)),
      (''OpenWatersToken'', CfgString (g_openWatersToken g)),
      (''ActivateVesselsFollowing'', CfgBool (g_activateVesselsFollowing g)),
      (''MMSI_List'', CfgString (mmsiStringLoop wx [] (g_mmsiList g))),
      (''MMSI_ListNames'', CfgString (namesStringLoop (g_mmsiListNames g) (length (g_mmsiList g))))]"

definition SaveSettings ::
  "wx_api \<Rightarrow> 'c config_api \<Rightarrow> window_info option \<Rightarrow> settings \<times> 'c option \<Rightarrow> settings \<times> 'c option" where
  "SaveSettings wx api gui gc =
     (case gc of (g, configSettings) \<Rightarrow>
        let g' = captureWindow gui g in
        (g', map_option (\<lambda>c. fold (\<lambda>(key, v) c. cfg_Write api key v c) (writeAll wx g')
                                (cfg_SetPath api configPath c)) configSettings))"

section \<open>Loading\<close>

definition validMmsi :: "nat \<Rightarrow> bool" where
  "validMmsi value \<longleftrightarrow> \<not> (value < 100000000 \<or> value > 999999999)"

text \<open>One turn of the loop over the tokens; \<open>i\<close> indexes both token arrays.\<close>

definition loadEntry ::
  "wx_api \<Rightarrow> string list \<Rightarrow> string list \<Rightarrow> uint32 list \<times> string list \<Rightarrow> nat \<Rightarrow> uint32 list \<times> string list" where
  "loadEntry wx mmsiTokens nameTokens acc i =
     (case wx_ToULong wx (mmsiTokens ! i) of
        None \<Rightarrow> acc
      | Some value \<Rightarrow>
          if \<not> validMmsi value then acc
          else (fst acc @ [of_nat value],
                snd acc @ [if i < length nameTokens then nameTokens ! i else []]))"

definition loadEntries :: "wx_api \<Rightarrow> string list \<Rightarrow> string list \<Rightarrow> uint32 list \<times> string list" where
  "loadEntries wx mmsiTokens nameTokens =
     foldl (loadEntry wx mmsiTokens nameTokens) ([], []) [0..<length mmsiTokens]"

definition readAll :: "wx_api \<Rightarrow> 'c config_api \<Rightarrow> 'c \<Rightarrow> settings" where
  "readAll wx api c =
     (let entries = loadEntries wx (wx_Tokenize wx (readString api c ''MMSI_List'' []))
                      (wx_Tokenize wx (readString api c ''MMSI_ListNames'' []))
      in \<lparr>g_restoreWindowSize = readBool api c ''RestoreWindowSize'' True,
          g_restoreWindowPos = readBool api c ''RestoreWindowPos'' True,
          g_windowWidth = readInt api c ''WindowWidth'' 380,
          g_windowHeight = readInt api c ''WindowHeight'' 290,
          g_windowPosX = readInt api c ''WindowPosX'' 0,
          g_windowPosY = readInt api c ''WindowPosY'' 0,
          g_keepWindowActive = readBool api c ''KeepWindowActive'' True,
          g_lastSearchBoxSize = readDouble api c ''LastSearchBoxSize'' 1,
          g_openWatersToken = readString api c ''OpenWatersToken'' [],
          g_mmsiList = fst entries, g_mmsiListNames = snd entries,
          g_activateVesselsFollowing = readBool api c ''ActivateVesselsFollowing'' True\<rparr>)"

definition LoadSettings ::
  "wx_api \<Rightarrow> 'c config_api \<Rightarrow> settings \<times> 'c option \<Rightarrow> settings \<times> 'c option" where
  "LoadSettings wx api gc =
     (case gc of
        (g, None) \<Rightarrow> (g, None)
      | (g, Some c) \<Rightarrow>
          (let c' = cfg_SetPath api configPath c in (readAll wx api c', Some c')))"

section \<open>The preferences dialog\<close>

record settings_dialog =
  checkBox_restoreWindowPos :: bool
  checkBox_restoreWindowSize :: bool
  checkBox_keepWindowActive :: bool
  textCtrl_token :: string

definition settings_dialog_init :: settings_dialog where
  "settings_dialog_init =
     \<lparr>checkBox_restoreWindowPos = True, checkBox_restoreWindowSize = True,
      checkBox_keepWindowActive = True, textCtrl_token = []\<rparr>"

definition OnInit :: "settings \<Rightarrow> settings_dialog \<Rightarrow> settings_dialog" where
  "OnInit g d =
     d\<lparr>checkBox_restoreWindowPos := g_restoreWindowPos g,
       checkBox_restoreWindowSize := g_restoreWindowSize g,
       checkBox_keepWindowActive := g_keepWindowActive g,
       textCtrl_token := g_openWatersToken g\<rparr>"

definition updateSettings :: "settings_dialog \<Rightarrow> settings \<Rightarrow> settings" where
  "updateSettings d g =
     g\<lparr>g_restoreWindowPos := checkBox_restoreWindowPos d,
       g_restoreWindowSize := checkBox_restoreWindowSize d,
       g_keepWindowActive := checkBox_keepWindowActive d,
       g_openWatersToken := textCtrl_token d\<rparr>"

text \<open>
  What the user does in the dialog: change a widget, press Apply, press OK (which ends the
  modal loop with \<open>wxID_OK\<close>), or dismiss the dialog.
\<close>

datatype dialog_action =
    EditDialog settings_dialog | PressApply | PressOK | Dismiss

fun runDialog :: "dialog_action list \<Rightarrow> settings_dialog \<Rightarrow> settings \<Rightarrow> settings \<times> bool" where
  "runDialog [] d g = (g, False)"
| "runDialog (EditDialog d' # as) d g = runDialog as d' g"
| "runDialog (PressApply # as) d g = runDialog as d (updateSettings d g)"
| "runDialog (PressOK # as) d g = (updateSettings d g, True)"
| "runDialog (Dismiss # as) d g = (g, False)"

definition ShowModalSettings :: "dialog_action list \<Rightarrow> settings \<Rightarrow> settings \<times> bool" where
  "ShowModalSettings as g = runDialog as (OnInit g settings_dialog_init) g"

section \<open>Lemmas\<close>

text \<open>The dialog only touches the four settings it shows.\<close>

lemma runDialog_keeps:
  assumes "runDialog as d g = (g', ok)"
  shows "g_mmsiList g' = g_mmsiList g \<and> g_mmsiListNames g' = g_mmsiListNames g \<and>
         g_lastSearchBoxSize g' = g_lastSearchBoxSize g \<and>
         g_activateVesselsFollowing g' = g_activateVesselsFollowing g \<and>
         g_windowWidth g' = g_windowWidth g \<and> g_windowHeight g' = g_windowHeight g \<and>
         g_windowPosX g' = g_windowPosX g \<and> g_windowPosY g' = g_windowPosY g"
  using assms
  by (induction as d g rule: runDialog.induct) (auto simp: updateSettings_def)

lemma updateSettings_OnInit [simp]: "updateSettings (OnInit g d) g = g"
  by (simp add: updateSettings_def OnInit_def)

text \<open>The loops that write the vessel list join its parts with commas.\<close>

lemma join_with_snoc:
  "join_with sep (xs @ [x]) = (if xs = [] then x else join_with sep xs @ sep @ x)"
  by (induction sep xs rule: join_with.induct) auto

lemma join_with_prefix: "join_with sep ((x @ y) # ys) = x @ join_with sep (y # ys)"
  by (cases ys) auto

lemma mmsiStringLoop_acc:
  "acc \<noteq> [] \<Longrightarrow> mmsiStringLoop wx acc ms = join_with '','' (acc # map (wx_fmtu wx) ms)"
proof (induction ms arbitrary: acc)
  case (Cons m ms)
  then have "mmsiStringLoop wx acc (m # ms) =
      join_with '','' (((acc @ '','') @ wx_fmtu wx m) # map (wx_fmtu wx) ms)" by simp
  then show ?case by (simp only: join_with_prefix) simp
qed simp

lemma mmsiStringLoop_join:
  "wx_fmtu wx (hd ms) \<noteq> [] \<Longrightarrow> mmsiStringLoop wx [] ms = join_with '','' (map (wx_fmtu wx) ms)"
  by (cases ms) (simp_all add: mmsiStringLoop_acc)

lemma namesStringLoop_join:
  "namesStringLoop names n = join_with '','' (map (\<lambda>i. if i < length names then names ! i else []) [0..<n])"
  unfolding namesStringLoop_def
  by (induction n) (auto simp: join_with_snoc)

lemma namesStringLoop_full: "namesStringLoop names (length names) = join_with '','' names"
proof -
  have "map (\<lambda>i. if i < length names then names ! i else []) [0..<length names] = names"
    by (rule nth_equalityI) auto
  then show ?thesis by (simp add: namesStringLoop_join)
qed

text \<open>What the loading loop produces: every entry is a valid MMSI with its own name.\<close>

lemma loadEntries_filter:
  "loadEntries wx toks names =
     (let good = filter (\<lambda>i. case wx_ToULong wx (toks ! i) of None \<Rightarrow> False | Some v \<Rightarrow> validMmsi v)
                   [0..<length toks] in
      (map (\<lambda>i. of_nat (the (wx_ToULong wx (toks ! i)))) good,
       map (\<lambda>i. if i < length names then names ! i else []) good))"
proof -
  have "foldl (loadEntry wx toks names) acc is =
     (let good = filter (\<lambda>i. case wx_ToULong wx (toks ! i) of None \<Rightarrow> False | Some v \<Rightarrow> validMmsi v) is in
      (fst acc @ map (\<lambda>i. of_nat (the (wx_ToULong wx (toks ! i)))) good,
       snd acc @ map (\<lambda>i. if i < length names then names ! i else []) good))" for acc "is"
    by (induction "is" arbitrary: acc) (auto simp: loadEntry_def Let_def split: option.splits)
  from this [of "([], [])"] show ?thesis by (simp add: loadEntries_def)
qed

lemma unat_of_nat_mmsi: "validMmsi v \<Longrightarrow> unat (of_nat v :: uint32) = v"
  by (simp add: validMmsi_def unat_of_nat take_bit_nat_eq_self_iff)

lemma loadEntries_valid:
  assumes "loadEntries wx toks names = (ms, ns)"
  shows "length ms = length ns" and "\<forall>m \<in> set ms. validMmsi (unat m)"
  using assms
  by (auto simp: loadEntries_filter Let_def unat_of_nat_mmsi split: option.splits)

section \<open>Saving and loading again\<close>

text \<open>
  What is relied on of the library. A configuration object returns what was written last under
  a key, through the overload of the same type, with two exceptions: a double is stored as text
  with six significant digits, so only those that this text determines are claimed; and \<open>Read\<close>
  replaces environment variables (\<open>$name\<close>, \<open>${name}\<close>, \<open>$(name)\<close>, on Windows \<open>%name%\<close>) in the
  strings it returns, as the plugin leaves that default of \<open>wxConfigBase\<close> on, so only strings
  without these characters are claimed. Keys are only those that the plugin writes: they differ
  in more than case and are no paths.
\<close>

definition plainText :: "string \<Rightarrow> bool" where
  "plainText s \<longleftrightarrow> CHR ''$'' \<notin> set s \<and> CHR ''%'' \<notin> set s"

fun same_kind :: "cfg_value \<Rightarrow> cfg_value \<Rightarrow> bool" where
  "same_kind (CfgBool _) (CfgBool _) = True"
| "same_kind (CfgInt _) (CfgInt _) = True"
| "same_kind (CfgDouble _) (CfgDouble _) = True"
| "same_kind (CfgString _) (CfgString _) = True"
| "same_kind _ _ = False"

fun kept_exactly :: "cfg_value \<Rightarrow> bool" where
  "kept_exactly (CfgDouble x) \<longleftrightarrow> x = of_int \<lfloor>x\<rfloor> \<and> \<bar>x\<bar> < 100000"
| "kept_exactly (CfgString s) \<longleftrightarrow> plainText s"
| "kept_exactly _ \<longleftrightarrow> True"

definition configKeys :: "string list" where
  "configKeys =
     [''RestoreWindowSize'', ''WindowWidth'', ''WindowHeight'', ''RestoreWindowPos'', ''WindowPosX'',
      ''WindowPosY'', ''KeepWindowActive'', ''LastSearchBoxSize'', ''OpenWatersToken'',
      ''ActivateVesselsFollowing'', ''MMSI_List'', ''MMSI_ListNames'']"

lemma writeAll_keys: "map fst (writeAll wx g) = configKeys"
  by (simp add: writeAll_def configKeys_def)

definition config_laws :: "'c config_api \<Rightarrow> bool" where
  "config_laws api \<longleftrightarrow>
     (\<forall>c. cfg_GetPath api (cfg_SetPath api configPath c) = configPath) \<and>
     (\<forall>c. cfg_SetPath api (cfg_GetPath api c) c = c) \<and>
     (\<forall>k \<in> set configKeys. \<forall>v c. cfg_GetPath api (cfg_Write api k v c) = cfg_GetPath api c) \<and>
     (\<forall>k \<in> set configKeys. \<forall>v c d. kept_exactly v \<longrightarrow> same_kind v d \<longrightarrow>
        cfg_Read api (cfg_Write api k v c) k d = v) \<and>
     (\<forall>k \<in> set configKeys. \<forall>k' \<in> set configKeys. \<forall>v c d. k' \<noteq> k \<longrightarrow>
        cfg_Read api (cfg_Write api k v c) k' d = cfg_Read api c k' d)"

definition text_laws :: "wx_api \<Rightarrow> bool" where
  "text_laws wx \<longleftrightarrow>
     (\<forall>s. s \<noteq> [] \<longrightarrow> wx_Tokenize wx s = split_on (CHR '','') s) \<and>
     set (wx_Tokenize wx []) \<subseteq> {[]} \<and> wx_ToULong wx [] = None \<and>
     (\<forall>m. validMmsi (unat m) \<longrightarrow> wx_fmtu wx m \<noteq> [] \<and> list_all isdigit (wx_fmtu wx m) \<and>
        wx_ToULong wx (wx_fmtu wx m) = Some (unat m))"

lemma digits_plain:
  assumes "list_all isdigit s"
  shows "CHR '','' \<notin> set s" and "plainText s"
  using assms by (auto simp: plainText_def list_all_iff isdigit_def charCode_def of_char_def)

lemma plainText_join: "\<forall>s \<in> set ss. plainText s \<Longrightarrow> plainText (join_with '','' ss)"
  by (induction "'',''" ss rule: join_with.induct) (auto simp: plainText_def)

text \<open>Reading after a run of writes.\<close>

lemma read_after_writes:
  assumes "config_laws api" and "set (map fst kvs) \<subseteq> set configKeys"
    and "(k, v) \<in> set kvs" and "distinct (map fst kvs)" and "kept_exactly v" and "same_kind v d"
  shows "cfg_Read api (fold (\<lambda>(key, v) c. cfg_Write api key v c) kvs c) k d = v"
  using assms(2-4)
proof (induction kvs rule: rev_induct)
  case (snoc kv kvs)
  obtain k1 v1 where kv: "kv = (k1, v1)" by (cases kv)
  show ?case
  proof (cases "k1 = k")
    case True
    then have "v1 = v" using snoc.prems kv by force
    with True kv assms(1,5,6) snoc.prems(1) show ?thesis by (simp add: config_laws_def)
  next
    case False
    then have kvs: "(k, v) \<in> set kvs" "distinct (map fst kvs)" "set (map fst kvs) \<subseteq> set configKeys"
      using snoc.prems kv by auto
    then have "k \<in> set configKeys" "k1 \<in> set configKeys" using snoc.prems(1) kv by force+
    with snoc.IH [OF kvs(3,1,2)] kv False assms(1) show ?thesis by (simp add: config_laws_def)
  qed
qed simp

lemma writes_keep_path:
  "config_laws api \<Longrightarrow> set (map fst kvs) \<subseteq> set configKeys \<Longrightarrow>
     cfg_GetPath api (fold (\<lambda>(key, v) c. cfg_Write api key v c) kvs c) = cfg_GetPath api c"
  by (induction kvs arbitrary: c) (auto simp: config_laws_def)

text \<open>The loading loop inverts the two strings.\<close>

lemma tokens_of_names:
  assumes "text_laws wx" and "\<forall>n \<in> set names. CHR '','' \<notin> set n" and "i < length names"
  shows "(let toks = wx_Tokenize wx (join_with '','' names) in if i < length toks then toks ! i else []) =
           names ! i"
proof (cases "join_with '','' names = []")
  case True
  with assms(3) have "names = [[]]" using join_with_Nil_iff [of "CHR '',''" names] by auto
  moreover have "wx_Tokenize wx [] ! i = []" if "i < length (wx_Tokenize wx [])"
    using assms(1) nth_mem [OF that] by (auto simp: text_laws_def)
  ultimately show ?thesis using assms(3) by (simp add: Let_def)
next
  case False
  with assms(1) have "wx_Tokenize wx (join_with '','' names) = split_on (CHR '','') (join_with '','' names)"
    by (simp add: text_laws_def)
  also have "\<dots> = names" using assms(2,3) by (intro split_on_join) auto
  finally show ?thesis using assms(3) by (simp add: Let_def)
qed

lemma tokens_of_mmsis:
  assumes "text_laws wx" and "\<forall>m \<in> set ms. validMmsi (unat m)" and "ms \<noteq> []"
  shows "wx_Tokenize wx (mmsiStringLoop wx [] ms) = map (wx_fmtu wx) ms"
proof -
  have parts: "wx_fmtu wx m \<noteq> [] \<and> CHR '','' \<notin> set (wx_fmtu wx m)" if "m \<in> set ms" for m
    using assms(1,2) that digits_plain(1) by (simp add: text_laws_def)
  then have "mmsiStringLoop wx [] ms = join_with '','' (map (wx_fmtu wx) ms)"
    using assms(3) by (intro mmsiStringLoop_join) (cases ms, auto)
  moreover have "join_with '','' (map (wx_fmtu wx) ms) \<noteq> []"
    using join_with_Nil_iff [of "CHR '',''" "map (wx_fmtu wx) ms"] assms(3) parts by (cases ms) auto
  ultimately have "wx_Tokenize wx (mmsiStringLoop wx [] ms) =
      split_on (CHR '','') (join_with '','' (map (wx_fmtu wx) ms))"
    using assms(1) by (simp add: text_laws_def)
  then show ?thesis using parts assms(3) by (simp add: split_on_join)
qed

lemma loadEntries_all:
  assumes "\<forall>i < length toks. \<exists>v. wx_ToULong wx (toks ! i) = Some v \<and> validMmsi v"
  shows "loadEntries wx toks names =
           (map (\<lambda>i. of_nat (the (wx_ToULong wx (toks ! i)))) [0..<length toks],
            map (\<lambda>i. if i < length names then names ! i else []) [0..<length toks])"
proof -
  have "filter (\<lambda>i. case wx_ToULong wx (toks ! i) of None \<Rightarrow> False | Some v \<Rightarrow> validMmsi v) [0..<length toks] =
        [0..<length toks]"
    using assms by (auto simp: filter_id_conv)
  then show ?thesis by (simp add: loadEntries_filter Let_def)
qed

lemma entries_roundtrip:
  assumes "text_laws wx" and "\<forall>m \<in> set ms. validMmsi (unat m)" and "length names = length ms"
    and "\<forall>n \<in> set names. CHR '','' \<notin> set n"
  shows "loadEntries wx (wx_Tokenize wx (mmsiStringLoop wx [] ms))
           (wx_Tokenize wx (namesStringLoop names (length ms))) = (ms, names)"
proof (cases "ms = []")
  case True
  have "wx_ToULong wx t = None" if "t \<in> set (wx_Tokenize wx [])" for t
    using assms(1) that by (auto simp: text_laws_def)
  then have "filter (\<lambda>i. case wx_ToULong wx (wx_Tokenize wx [] ! i) of None \<Rightarrow> False | Some v \<Rightarrow> validMmsi v)
      [0..<length (wx_Tokenize wx [])] = []"
    by (simp add: filter_empty_conv)
  with True assms(3) show ?thesis by (simp add: loadEntries_filter Let_def namesStringLoop_def)
next
  case False
  have number: "wx_ToULong wx (wx_fmtu wx m) = Some (unat m)" if "m \<in> set ms" for m
    using assms(1,2) that by (simp add: text_laws_def)
  have toks: "wx_Tokenize wx (mmsiStringLoop wx [] ms) = map (wx_fmtu wx) ms"
    by (rule tokens_of_mmsis [OF assms(1,2) False])
  have names: "(let toks = wx_Tokenize wx (namesStringLoop names (length ms)) in
      if i < length toks then toks ! i else []) = names ! i" if "i < length ms" for i
    using tokens_of_names [OF assms(1,4), of i] that assms(3)
    by (simp add: namesStringLoop_full [of names, unfolded assms(3)])
  have "loadEntries wx (map (wx_fmtu wx) ms) nts =
      (map (\<lambda>i. of_nat (the (wx_ToULong wx (map (wx_fmtu wx) ms ! i)))) [0..<length ms],
       map (\<lambda>i. if i < length nts then nts ! i else []) [0..<length ms])" for nts
    using assms(2) by (subst loadEntries_all) (simp_all add: number)
  moreover have "map (\<lambda>i. of_nat (the (wx_ToULong wx (map (wx_fmtu wx) ms ! i)))) [0..<length ms] = ms"
    by (rule nth_equalityI) (simp_all add: number)
  moreover have "map (\<lambda>i. let toks = wx_Tokenize wx (namesStringLoop names (length ms)) in
      if i < length toks then toks ! i else []) [0..<length ms] = map (\<lambda>i. names ! i) [0..<length ms]"
    by (rule map_cong [OF refl]) (rule names, simp)
  moreover have "map (\<lambda>i. names ! i) [0..<length ms] = names"
    unfolding assms(3) [symmetric] by (rule map_nth)
  ultimately show ?thesis by (simp add: toks Let_def)
qed

text \<open>
  All settings come back. The window's size and position are among them, since \<open>SaveSettings\<close>
  first copies them into the globals.
\<close>

lemma writeAll_distinct: "distinct (map fst (writeAll wx g))"
  by (simp add: writeAll_def)

lemma readAll_after_save:
  assumes "config_laws api" and "text_laws wx" and "\<forall>m \<in> set (g_mmsiList g). validMmsi (unat m)"
    and "length (g_mmsiListNames g) = length (g_mmsiList g)"
    and "\<forall>n \<in> set (g_mmsiListNames g). CHR '','' \<notin> set n \<and> plainText n"
    and "plainText (g_openWatersToken g)"
    and "kept_exactly (CfgDouble (g_lastSearchBoxSize g))"
    and "c = fold (\<lambda>(key, v) c. cfg_Write api key v c) (writeAll wx g) c0"
  shows "readAll wx api c = g"
proof -
  have read: "cfg_Read api c k d = v" if "(k, v) \<in> set (writeAll wx g)" "kept_exactly v" "same_kind v d" for k v d
    unfolding assms(8) using that writeAll_keys [of wx g]
    by (intro read_after_writes [OF assms(1) _ _ writeAll_distinct]) simp_all
  have "plainText (mmsiStringLoop wx [] (g_mmsiList g))"
  proof -
    have "wx_fmtu wx m \<noteq> [] \<and> plainText (wx_fmtu wx m)" if "m \<in> set (g_mmsiList g)" for m
      using assms(2,3) that digits_plain(2) by (simp add: text_laws_def)
    then have "plainText (join_with '','' (map (wx_fmtu wx) (g_mmsiList g)))" by (intro plainText_join) simp
    moreover have "g_mmsiList g \<noteq> [] \<Longrightarrow>
        mmsiStringLoop wx [] (g_mmsiList g) = join_with '','' (map (wx_fmtu wx) (g_mmsiList g))"
      using assms(2,3) by (intro mmsiStringLoop_join) (cases "g_mmsiList g", simp_all add: text_laws_def)
    ultimately show ?thesis by (cases "g_mmsiList g") (simp_all add: plainText_def)
  qed
  moreover have "plainText (namesStringLoop (g_mmsiListNames g) (length (g_mmsiList g)))"
    using namesStringLoop_full [of "g_mmsiListNames g"] assms(4,5) plainText_join [of "g_mmsiListNames g"] by simp
  ultimately have lists: "readString api c ''MMSI_List'' [] = mmsiStringLoop wx [] (g_mmsiList g)"
    "readString api c ''MMSI_ListNames'' [] = namesStringLoop (g_mmsiListNames g) (length (g_mmsiList g))"
    by (simp_all add: readString_def) (subst read, (simp add: writeAll_def)+)+
  have "readDouble api c ''LastSearchBoxSize'' 1 = g_lastSearchBoxSize g"
    using assms(7) by (simp add: readDouble_def) (subst read, (simp add: writeAll_def)+)
  moreover have
    "readBool api c ''RestoreWindowSize'' True = g_restoreWindowSize g"
    "readBool api c ''RestoreWindowPos'' True = g_restoreWindowPos g"
    "readBool api c ''KeepWindowActive'' True = g_keepWindowActive g"
    "readBool api c ''ActivateVesselsFollowing'' True = g_activateVesselsFollowing g"
    by (simp_all add: readBool_def) (subst read, (simp add: writeAll_def)+)+
  moreover have
    "readInt api c ''WindowWidth'' 380 = g_windowWidth g"
    "readInt api c ''WindowHeight'' 290 = g_windowHeight g"
    "readInt api c ''WindowPosX'' 0 = g_windowPosX g"
    "readInt api c ''WindowPosY'' 0 = g_windowPosY g"
    by (simp_all add: readInt_def) (subst read, (simp add: writeAll_def)+)+
  moreover have "readString api c ''OpenWatersToken'' [] = g_openWatersToken g"
    using assms(6) by (simp add: readString_def) (subst read, (simp add: writeAll_def)+)
  ultimately show ?thesis
    by (simp add: readAll_def lists entries_roundtrip [OF assms(2,3,4)] assms(5))
qed

end
