(* ===== verification/AisGeo.thy ===== *)
theory AisGeo
  imports AisPrelude
begin

text \<open>
  Distances (\<open>src/src/utils/utils.cpp\<close>) and the threshold of the follow mode
  (\<open>ComputeFollowThresholdNm\<close> of \<open>main_ui_derived.cpp\<close>), over the reals.
\<close>

section \<open>Definitions\<close>

definition DegToRad :: "real \<Rightarrow> real" where
  "DegToRad deg = deg * pi / 180"

text \<open>\<open>std::atan2\<close> of the C library.\<close>

definition atan2 :: "real \<Rightarrow> real \<Rightarrow> real" where
  "atan2 y x =
     (if x > 0 then arctan (y / x)
      else if x < 0 then (if y \<ge> 0 then arctan (y / x) + pi else arctan (y / x) - pi)
      else if y > 0 then pi / 2 else if y < 0 then - (pi / 2) else 0)"

definition kEarthRadiusNm :: real where
  "kEarthRadiusNm = 3440.065"

definition haversine :: "real \<Rightarrow> real \<Rightarrow> real \<Rightarrow> real \<Rightarrow> real" where
  "haversine lat1 lon1 lat2 lon2 =
     (let dLat = DegToRad (lat2 - lat1); dLon = DegToRad (lon2 - lon1) in
      sin (dLat / 2) * sin (dLat / 2) +
      cos (DegToRad lat1) * cos (DegToRad lat2) * sin (dLon / 2) * sin (dLon / 2))"

definition GreatCircleDistanceNm :: "real \<Rightarrow> real \<Rightarrow> real \<Rightarrow> real \<Rightarrow> real" where
  "GreatCircleDistanceNm lat1 lon1 lat2 lon2 =
     (let a = haversine lat1 lon1 lat2 lon2;
          c = 2 * atan2 (sqrt a) (sqrt (1 - a))
      in kEarthRadiusNm * c)"

definition kNmPerDegreeLatitude :: real where
  "kNmPerDegreeLatitude = 60"

definition kFollowThresholdFraction :: real where
  "kFollowThresholdFraction = 0.3"

definition ComputeFollowThresholdNm :: "real \<Rightarrow> real \<Rightarrow> real" where
  "ComputeFollowThresholdNm searchBoxSizeDegrees latitude =
     (let halfSideLatNm = (searchBoxSizeDegrees * kNmPerDegreeLatitude) / 2;
          halfSideLonNm = halfSideLatNm * cos (DegToRad latitude);
          limitingHalfSideNm = min halfSideLatNm halfSideLonNm
      in limitingHalfSideNm * kFollowThresholdFraction)"

definition validLatitude :: "real \<Rightarrow> bool" where
  "validLatitude lat \<longleftrightarrow> - 90 \<le> lat \<and> lat \<le> 90"

section \<open>Lemmas\<close>

lemma cos_latitude_nonneg: "validLatitude lat \<Longrightarrow> 0 \<le> cos (DegToRad lat)"
  unfolding validLatitude_def DegToRad_def
  using mult_left_mono [of "- 90" lat pi] mult_left_mono [of lat 90 pi]
  by (intro cos_ge_zero) (simp_all add: field_simps)

lemma ComputeFollowThresholdNm_eq:
  assumes "validLatitude lat" and "0 \<le> sz"
  shows "ComputeFollowThresholdNm sz lat = 9 * sz * cos (DegToRad lat)"
proof -
  have "sz * 60 / 2 * cos (DegToRad lat) \<le> sz * 60 / 2"
    using assms by (simp add: mult_left_le)
  then show ?thesis
    by (simp add: ComputeFollowThresholdNm_def kNmPerDegreeLatitude_def
        kFollowThresholdFraction_def Let_def min_def)
qed

text \<open>The chord of two points is symmetric, in \<open>[0, 1]\<close>, and unchanged by a full turn.\<close>

lemma haversine_squares:
  "haversine lat1 lon1 lat2 lon2 =
     (sin (DegToRad (lat2 - lat1) / 2))\<^sup>2 +
     cos (DegToRad lat1) * cos (DegToRad lat2) * (sin (DegToRad (lon2 - lon1) / 2))\<^sup>2"
  by (simp add: haversine_def Let_def power2_eq_square)

lemma haversine_sym: "haversine lat1 lon1 lat2 lon2 = haversine lat2 lon2 lat1 lon1"
proof -
  have flip: "DegToRad (x - y) / 2 = - (DegToRad (y - x) / 2)" for x y
    by (simp add: DegToRad_def field_simps)
  show ?thesis
    unfolding haversine_def Let_def flip [of lat2 lat1] flip [of lon2 lon1] sin_minus
    by (simp add: algebra_simps)
qed

lemma haversine_turn: "haversine lat1 lon1 lat2 (lon2 + 360) = haversine lat1 lon1 lat2 lon2"
proof -
  have "DegToRad (lon2 + 360 - lon1) / 2 = DegToRad (lon2 - lon1) / 2 + pi"
    by (simp add: DegToRad_def field_simps)
  then show ?thesis unfolding haversine_squares by (simp only: sin_periodic_pi power2_minus)
qed

lemma haversine_ge_latitude:
  assumes "validLatitude lat1" and "validLatitude lat2"
  shows "(sin (DegToRad (lat2 - lat1) / 2))\<^sup>2 \<le> haversine lat1 lon1 lat2 lon2"
proof -
  have "0 \<le> cos (DegToRad lat1) * cos (DegToRad lat2) * (sin (DegToRad (lon2 - lon1) / 2))\<^sup>2"
    using assms by (simp add: cos_latitude_nonneg)
  then show ?thesis by (simp add: haversine_squares)
qed

lemma haversine_le_1:
  assumes "validLatitude lat1" and "validLatitude lat2"
  shows "haversine lat1 lon1 lat2 lon2 \<le> 1"
proof -
  define u v where "u = DegToRad lat1" and "v = DegToRad lat2"
  have half: "(sin (x / 2))\<^sup>2 = (1 - cos x) / 2" for x :: real
    using cos_double_sin [of "x / 2"] by simp
  have "cos u * cos v * (sin (DegToRad (lon2 - lon1) / 2))\<^sup>2 \<le> cos u * cos v * 1"
    using assms by (intro mult_left_mono) (simp_all add: u_def v_def cos_latitude_nonneg abs_square_le_1)
  moreover have "(sin ((v - u) / 2))\<^sup>2 + cos u * cos v = (1 + cos (v + u)) / 2"
    unfolding half by (simp add: cos_add cos_diff field_simps)
  moreover have "(1 + cos (v + u)) / 2 \<le> 1" by simp
  moreover have "DegToRad (lat2 - lat1) = v - u"
    by (simp add: u_def v_def DegToRad_def algebra_simps diff_divide_distrib)
  ultimately have "(sin (DegToRad (lat2 - lat1) / 2))\<^sup>2 + cos u * cos v * (sin (DegToRad (lon2 - lon1) / 2))\<^sup>2 \<le> 1"
    by (simp only: mult_1_right)
  then show ?thesis by (simp add: haversine_squares u_def v_def)
qed

lemma atan2_sqrt:
  assumes "0 \<le> a" and "a \<le> 1"
  shows "atan2 (sqrt a) (sqrt (1 - a)) = arcsin (sqrt a)"
proof (cases "a = 1")
  case False
  with assms have "0 < 1 - a" by simp
  have "arcsin (sqrt a) = arctan (sqrt a / sqrt (1 - (sqrt a)\<^sup>2))"
    using assms False by (intro arcsin_arctan) (auto simp: real_sqrt_lt_1_iff intro: order.strict_trans2 [of _ 0])
  with assms \<open>0 < 1 - a\<close> show ?thesis by (simp add: atan2_def)
qed (simp add: atan2_def)

lemma GreatCircleDistanceNm_arcsin:
  assumes "validLatitude lat1" and "validLatitude lat2"
  shows "GreatCircleDistanceNm lat1 lon1 lat2 lon2 =
           2 * kEarthRadiusNm * arcsin (sqrt (haversine lat1 lon1 lat2 lon2))"
proof -
  have "0 \<le> haversine lat1 lon1 lat2 lon2"
    using haversine_ge_latitude [OF assms] by (meson order_trans zero_le_power2)
  from atan2_sqrt [OF this haversine_le_1 [OF assms]] show ?thesis
    by (simp add: GreatCircleDistanceNm_def Let_def)
qed

text \<open>A point is at least as far as its difference in latitude along a meridian.\<close>

lemma distance_ge_latitude:
  assumes "validLatitude lat1" and "validLatitude lat2"
  shows "kEarthRadiusNm * DegToRad \<bar>lat2 - lat1\<bar> \<le> GreatCircleDistanceNm lat1 lon1 lat2 lon2"
proof -
  define d where "d = DegToRad \<bar>lat2 - lat1\<bar> / 2"
  have range: "0 \<le> d" "d \<le> pi / 2"
    using assms by (auto simp: d_def DegToRad_def validLatitude_def field_simps abs_le_iff)
  have "DegToRad (lat2 - lat1) / 2 = d \<or> DegToRad (lat2 - lat1) / 2 = - d"
    by (simp add: d_def DegToRad_def abs_if algebra_simps)
  then have "(sin (DegToRad (lat2 - lat1) / 2))\<^sup>2 = (sin d)\<^sup>2"
    by (elim disjE) (simp_all add: sin_minus)
  then have "sin d \<le> sqrt (haversine lat1 lon1 lat2 lon2)"
    using haversine_ge_latitude [OF assms] by (simp add: real_le_rsqrt)
  moreover have "sqrt (haversine lat1 lon1 lat2 lon2) \<le> 1"
    using haversine_le_1 [OF assms] by simp
  ultimately have "arcsin (sin d) \<le> arcsin (sqrt (haversine lat1 lon1 lat2 lon2))"
    by (intro arcsin_le_arcsin) (auto intro: order_trans [OF sin_ge_minus_one])
  then have "d \<le> arcsin (sqrt (haversine lat1 lon1 lat2 lon2))"
    using range by (simp add: arcsin_sin)
  then have "2 * kEarthRadiusNm * d \<le> 2 * kEarthRadiusNm * arcsin (sqrt (haversine lat1 lon1 lat2 lon2))"
    by (intro mult_left_mono) (simp_all add: kEarthRadiusNm_def)
  then show ?thesis
    unfolding GreatCircleDistanceNm_arcsin [OF assms] by (simp add: d_def algebra_simps)
qed

end
