(* ===== verification/AisMainGui.thy ===== *)
theory AisMainGui
  imports AisSupervisor AisSettings AisGeo
begin

text \<open>
  The main window (\<open>src/src/main-ui\<close>): the members and widgets of \<open>DialogMainGui\<close>, each of
  its methods, and the table that connects the widgets' events to them. The methods are
  functions on the global settings and the window; the calls to \<open>AisStreamClient\<close> are
  \<open>clientStart\<close>, \<open>clientStop\<close> and \<open>clientRestart\<close>. What the client's thread posts with
  \<open>CallAfter\<close> waits in \<open>w_pending\<close> until the event loop runs it.
\<close>

section \<open>The window's state\<close>

datatype pending = PendingState State string | PendingSentence string

record main_gui =
  m_aisStream :: ais_client
  m_initialBoatPositionSet :: bool
  m_followBoatMode :: bool
  m_boatLatitude :: real
  m_boatLongitude :: real
  m_searchLatitude :: real
  m_searchLongitude :: real
  m_searchBoxSize :: real
  m_getSnapshot :: bool
  w_followBoatMode :: bool
  w_activateVesselFollowing :: bool
  w_sliderRange :: "int \<times> int"
  w_sliderValue :: int
  w_spinMMSI :: int
  w_mmsiComment :: string
  w_rows :: "(string \<times> string) list"
  w_searchLatitude :: string
  w_searchLongitude :: string
  w_searchBoxSize :: string
  w_streamState :: string
  w_shown :: bool
  w_pending :: "pending list"
  w_sessions :: "thread_args list"

text \<open>
  \<open>w_sessions\<close> records the threads the client has started. The members start with the
  initialisers of \<open>main_ui_derived.h\<close>, the widgets with those of \<open>main_ui_base.cpp\<close>.
\<close>

definition degreeSymbol :: string where
  "degreeSymbol = [CHR 0xC2, CHR 0xB0]"

definition main_gui_base :: "wx_api \<Rightarrow> main_gui" where
  "main_gui_base wx =
     \<lparr>m_aisStream = ais_client_init, m_initialBoatPositionSet = False, m_followBoatMode = True,
      m_boatLatitude = 0, m_boatLongitude = 0, m_searchLatitude = 0, m_searchLongitude = 0,
      m_searchBoxSize = 1, m_getSnapshot = False,
      w_followBoatMode = True, w_activateVesselFollowing = True, w_sliderRange = (0, 10),
      w_sliderValue = 1, w_spinMMSI = 227000000, w_mmsiComment = [], w_rows = [],
      w_searchLatitude = wx_tr wx (''0'' @ degreeSymbol @ '' N''),
      w_searchLongitude = wx_tr wx (''0'' @ degreeSymbol @ '' E''),
      w_searchBoxSize = wx_tr wx (''1'' @ degreeSymbol @ '' x 1'' @ degreeSymbol),
      w_streamState = wx_tr wx ''Not running'', w_shown = False, w_pending = [],
      w_sessions = []\<rparr>"

section \<open>Streaming\<close>

definition HasToken :: "wx_api \<Rightarrow> settings \<Rightarrow> bool" where
  "HasToken wx g = (wx_TrimLeft wx (wx_TrimRight wx (g_openWatersToken g)) \<noteq> [])"

text \<open>The arguments both calls of the client pass.\<close>

definition streamArgs :: "settings \<Rightarrow> main_gui \<Rightarrow> start_args" where
  "streamArgs g w =
     \<lparr>sa_latitude = m_searchLatitude w, sa_longitude = m_searchLongitude w,
      sa_boxSizeDegrees = m_searchBoxSize w,
      sa_activateVesselsFollowing = g_activateVesselsFollowing g, sa_mmsiList = g_mmsiList g,
      sa_snapshot = m_getSnapshot w, sa_onSentence = True\<rparr>"

text \<open>
  The effect of a call that starts a stream: the client's new state, the report its state
  callback posts, and the thread.
\<close>

definition adoptClient ::
  "ais_client \<times> (State \<times> string) option \<times> thread_args option \<Rightarrow> main_gui \<Rightarrow> main_gui" where
  "adoptClient r w =
     (case r of (cl, err, thr) \<Rightarrow>
        w\<lparr>m_aisStream := cl,
          w_pending := w_pending w @
            (case err of Some (st, d) \<Rightarrow> if m_onStateChanged cl then [PendingState st d] else []
                       | None \<Rightarrow> []),
          w_sessions := w_sessions w @ (case thr of Some t \<Rightarrow> [t] | None \<Rightarrow> [])\<rparr>)"

definition pushToken :: "wx_api \<Rightarrow> settings \<Rightarrow> main_gui \<Rightarrow> main_gui" where
  "pushToken wx g w =
     w\<lparr>m_aisStream := SetTokenEnabled (HasToken wx g) (SetToken (g_openWatersToken g) (m_aisStream w))\<rparr>"

definition StartAisStream :: "wx_api \<Rightarrow> 'j json_api \<Rightarrow> settings \<Rightarrow> main_gui \<Rightarrow> main_gui" where
  "StartAisStream wx js g w =
     (if IsStreaming (m_aisStream w) then w
      else let w' = pushToken wx g w in
           adoptClient (clientStart js (streamArgs g w') (m_aisStream w')) w')"

definition getSearchBoxSize :: "main_gui \<Rightarrow> real" where
  [simp]: "getSearchBoxSize w = m_searchBoxSize w"

definition isStreamingData :: "main_gui \<Rightarrow> bool" where
  "isStreamingData w = IsStreaming (m_aisStream w)"

lemma isStreamingData_field [simp]: "isStreamingData w = m_streaming (m_aisStream w)"
  by (simp add: isStreamingData_def IsStreaming_def)

definition StopAisStream :: "main_gui \<Rightarrow> main_gui" where
  "StopAisStream w =
     (if \<not> IsStreaming (m_aisStream w) then w else w\<lparr>m_aisStream := clientStop (m_aisStream w)\<rparr>)"

definition RestartAisStream :: "'j json_api \<Rightarrow> settings \<Rightarrow> main_gui \<Rightarrow> main_gui" where
  "RestartAisStream js g w =
     (if \<not> IsStreaming (m_aisStream w) then w
      else adoptClient (clientRestart js (streamArgs g w) (m_aisStream w)) w)"

definition OnAisStreamStateChanged :: "wx_api \<Rightarrow> State \<Rightarrow> string \<Rightarrow> main_gui \<Rightarrow> main_gui" where
  "OnAisStreamStateChanged wx st detail w =
     w\<lparr>w_streamState :=
        (case st of
           Stopped \<Rightarrow> wx_tr wx ''Stopped''
         | Connecting \<Rightarrow> wx_tr wx ''Connecting...''
         | Running \<Rightarrow> wx_tr wx ''Running''
         | Error \<Rightarrow> if detail = [] then wx_tr wx ''Unknown error''
                   else wx_tr wx ''Error'' @ '' ('' @ detail @ '')'')\<rparr>"

section \<open>Search position and box\<close>

definition updateSearchPosition ::
  "wx_api \<Rightarrow> 'j json_api \<Rightarrow> settings \<Rightarrow> real \<Rightarrow> real \<Rightarrow> main_gui \<Rightarrow> main_gui" where
  "updateSearchPosition wx js g lat lon w =
     (let latDir = (if lat \<ge> 0 then ''N'' else ''S'');
          lonDir = (if lon \<ge> 0 then ''E'' else ''W'')
      in RestartAisStream js g
           (w\<lparr>m_searchLatitude := lat, m_searchLongitude := lon,
              w_searchLatitude := wx_fmt6f wx \<bar>lat\<bar> @ degreeSymbol @ '' '' @ latDir,
              w_searchLongitude := wx_fmt6f wx \<bar>lon\<bar> @ degreeSymbol @ '' '' @ lonDir\<rparr>))"

definition updateSearchZoneOnCoord ::
  "wx_api \<Rightarrow> 'j json_api \<Rightarrow> settings \<Rightarrow> real \<Rightarrow> real \<Rightarrow> main_gui \<Rightarrow> main_gui" where
  "updateSearchZoneOnCoord wx js g lat lon w =
     updateSearchPosition wx js g lat lon (w\<lparr>m_followBoatMode := False, w_followBoatMode := False\<rparr>)"

definition activateFollowBoatMode :: "wx_api \<Rightarrow> 'j json_api \<Rightarrow> settings \<Rightarrow> main_gui \<Rightarrow> main_gui" where
  "activateFollowBoatMode wx js g w =
     updateSearchPosition wx js g (m_boatLatitude w) (m_boatLongitude w)
       (w\<lparr>m_followBoatMode := True, w_followBoatMode := True\<rparr>)"

text \<open>\<open>static_cast<int>\<close> of a double, and \<open>std::clamp\<close>.\<close>

definition cast_int :: "real \<Rightarrow> int" where
  "cast_int x = (if 0 \<le> x then \<lfloor>x\<rfloor> else \<lceil>x\<rceil>)"

definition clamp :: "real \<Rightarrow> real \<Rightarrow> real \<Rightarrow> real" where
  "clamp x lo hi = (if x < lo then lo else if hi < x then hi else x)"

definition maxBoxSize :: "wx_api \<Rightarrow> settings \<Rightarrow> int" where
  "maxBoxSize wx g = (if HasToken wx g then 20 else 10)"

definition boxSizeLabel :: "wx_api \<Rightarrow> real \<Rightarrow> string" where
  "boxSizeLabel wx degrees =
     wx_fmt0f wx degrees @ degreeSymbol @ '' x '' @ wx_fmt0f wx degrees @ degreeSymbol"

definition updateSearchBoxSize ::
  "wx_api \<Rightarrow> 'j json_api \<Rightarrow> settings \<Rightarrow> real \<Rightarrow> main_gui \<Rightarrow> main_gui" where
  "updateSearchBoxSize wx js g degrees w =
     (let maxValue = maxBoxSize wx g; minValue = 0;
          degrees = clamp degrees (of_int minValue) (of_int maxValue)
      in RestartAisStream js g
           (w\<lparr>w_sliderRange := (minValue, maxValue), w_sliderValue := cast_int degrees,
              m_searchBoxSize := degrees, w_searchBoxSize := boxSizeLabel wx degrees\<rparr>))"

definition firstFix :: "wx_api \<Rightarrow> 'j json_api \<Rightarrow> settings \<Rightarrow> real \<Rightarrow> real \<Rightarrow> main_gui \<Rightarrow> main_gui" where
  "firstFix wx js g lat lon w =
     (if \<not> m_initialBoatPositionSet w
      then updateSearchPosition wx js g lat lon (w\<lparr>m_initialBoatPositionSet := True\<rparr>) else w)"

definition followBoat :: "wx_api \<Rightarrow> 'j json_api \<Rightarrow> settings \<Rightarrow> main_gui \<Rightarrow> main_gui" where
  "followBoat wx js g w =
     (if m_followBoatMode w then
        if m_searchBoxSize w = 0 then w
        else
          (let distanceNm = GreatCircleDistanceNm (m_searchLatitude w) (m_searchLongitude w)
                              (m_boatLatitude w) (m_boatLongitude w);
               thresholdNm = ComputeFollowThresholdNm (m_searchBoxSize w) (m_boatLatitude w)
           in if distanceNm \<ge> thresholdNm
              then updateSearchPosition wx js g (m_boatLatitude w) (m_boatLongitude w) w else w)
      else w)"

definition updateBoatPosition ::
  "wx_api \<Rightarrow> 'j json_api \<Rightarrow> settings \<Rightarrow> real \<Rightarrow> real \<Rightarrow> main_gui \<Rightarrow> main_gui" where
  "updateBoatPosition wx js g lat lon w =
     followBoat wx js g
       (firstFix wx js g lat lon (w\<lparr>m_boatLatitude := lat, m_boatLongitude := lon\<rparr>))"

definition refreshTokenState :: "wx_api \<Rightarrow> 'j json_api \<Rightarrow> settings \<Rightarrow> main_gui \<Rightarrow> main_gui" where
  "refreshTokenState wx js g w =
     updateSearchBoxSize wx js g (of_int (w_sliderValue w)) (pushToken wx g w)"

section \<open>Construction\<close>

definition vesselRow :: "wx_api \<Rightarrow> settings \<Rightarrow> nat \<Rightarrow> string \<times> string" where
  "vesselRow wx g i =
     (wx_fmt09u wx (g_mmsiList g ! i),
      if i < length (g_mmsiListNames g) then g_mmsiListNames g ! i else [])"

definition newMainGui :: "wx_api \<Rightarrow> 'j json_api \<Rightarrow> settings \<Rightarrow> main_gui" where
  "newMainGui wx js g =
     (let w = updateSearchBoxSize wx js g (g_lastSearchBoxSize g) (main_gui_base wx)
      in w\<lparr>w_activateVesselFollowing := g_activateVesselsFollowing g,
           w_rows := map (vesselRow wx g) [0..<length (g_mmsiList g)],
           m_aisStream := SetStateCallback True (m_aisStream w)\<rparr>)"

section \<open>The vessel list\<close>

text \<open>
  \<open>OutOfVector\<close> stands for an access outside a vector, which the C++ code does not check. A
  handler that its own change of a cell calls again need not end; then its result is \<open>None\<close>
  (the program's stack overflows).
\<close>

datatype vector_error = OutOfVector

type_synonym handled = "(vector_error, settings \<times> main_gui) result"

text \<open>The control stores a new text in a cell.\<close>

definition storeCell :: "nat \<Rightarrow> nat \<Rightarrow> string \<Rightarrow> main_gui \<Rightarrow> main_gui" where
  "storeCell row column text w =
     w\<lparr>w_rows := (w_rows w)[row := (if column = 0 then (text, snd (w_rows w ! row))
                                  else (fst (w_rows w ! row), text))]\<rparr>"

definition AddMmsiToList :: "wx_api \<Rightarrow> 'j json_api \<Rightarrow> settings \<Rightarrow> main_gui \<Rightarrow> settings \<times> main_gui" where
  "AddMmsiToList wx js g w =
     (let mmsi = of_int (w_spinMMSI w) :: uint32; comment = w_mmsiComment w in
      if mmsi \<in> set (g_mmsiList g) then (g, w)
      else
        (let g' = g\<lparr>g_mmsiList := g_mmsiList g @ [mmsi],
                    g_mmsiListNames := g_mmsiListNames g @ [comment]\<rparr>
         in (g', RestartAisStream js g'
                   (w\<lparr>w_rows := w_rows w @ [(wx_fmt09u wx mmsi, comment)], w_mmsiComment := []\<rparr>))))"

definition DeleteMmsiFromList ::
  "'j json_api \<Rightarrow> nat option \<Rightarrow> settings \<Rightarrow> main_gui \<Rightarrow> handled" where
  "DeleteMmsiFromList js selectedIndex g w =
     (case selectedIndex of
        None \<Rightarrow> Inr (g, w)
      | Some i \<Rightarrow>
          if i < length (g_mmsiList g) \<and> i < length (g_mmsiListNames g) then
            (let g' = g\<lparr>g_mmsiList := erase_at i (g_mmsiList g),
                        g_mmsiListNames := erase_at i (g_mmsiListNames g)\<rparr>
             in Inr (g', RestartAisStream js g' (w\<lparr>w_rows := erase_at i (w_rows w)\<rparr>)))
          else Inl OutOfVector)"

definition ClearMmsiList :: "'j json_api \<Rightarrow> settings \<Rightarrow> main_gui \<Rightarrow> settings \<times> main_gui" where
  "ClearMmsiList js g w =
     (let g' = g\<lparr>g_mmsiList := [], g_mmsiListNames := []\<rparr>
      in (g', RestartAisStream js g' (w\<lparr>w_rows := []\<rparr>)))"

text \<open>The number an edited cell gives, unless the handler goes on to restore the cell.\<close>

definition parseEditedMmsi :: "wx_api \<Rightarrow> nat \<Rightarrow> settings \<Rightarrow> string \<Rightarrow> nat option" where
  "parseEditedMmsi wx row g text =
     (case wx_ToULong wx text of
        None \<Rightarrow> None
      | Some parsedMmsi \<Rightarrow>
          if \<not> validMmsi parsedMmsi then None
          else if list_ex (\<lambda>i. i \<noteq> row \<and> unat (g_mmsiList g ! i) = parsedMmsi) [0..<length (g_mmsiList g)]
          then None else Some parsedMmsi)"

text \<open>
  The MMSI column. The restored text is written with \<open>wxDataViewListCtrl::SetValue\<close>, which
  announces the changed value as an edit by the user does: the handler is called again, from
  within that call, for the same cell.
\<close>

partial_function (option) editMmsi ::
  "wx_api \<Rightarrow> 'j json_api \<Rightarrow> nat \<Rightarrow> settings \<Rightarrow> main_gui \<Rightarrow> handled option" where
  "editMmsi wx js row g w =
     (case parseEditedMmsi wx row g (fst (w_rows w ! row)) of
        Some parsedMmsi \<Rightarrow>
          if row < length (g_mmsiList g) then
            (let g' = g\<lparr>g_mmsiList := (g_mmsiList g)[row := of_nat parsedMmsi]\<rparr>
             in Some (Inr (g', RestartAisStream js g' w)))
          else Some (Inl OutOfVector)
      | None \<Rightarrow>
          if row < length (g_mmsiList g)
          then editMmsi wx js row g (storeCell row 0 (wx_fmt09u wx (g_mmsiList g ! row)) w)
          else Some (Inl OutOfVector))"

definition editName :: "nat \<Rightarrow> settings \<Rightarrow> main_gui \<Rightarrow> handled" where
  "editName row g w =
     (let names = (if row \<ge> length (g_mmsiListNames g)
            then take (length (g_mmsiList g)) (g_mmsiListNames g) @
                 replicate (length (g_mmsiList g) - length (g_mmsiListNames g)) []
            else g_mmsiListNames g)
      in if row < length names
         then Inr (g\<lparr>g_mmsiListNames := names[row := snd (w_rows w ! row)]\<rparr>, w) else Inl OutOfVector)"

text \<open>The handler of an edited cell, after the control has stored the new text.\<close>

definition updateMmsiList ::
  "wx_api \<Rightarrow> 'j json_api \<Rightarrow> nat option \<Rightarrow> nat \<Rightarrow> settings \<Rightarrow> main_gui \<Rightarrow> handled option" where
  "updateMmsiList wx js row column g w =
     (case row of
        None \<Rightarrow> Some (Inr (g, w))
      | Some r \<Rightarrow>
          if column = 0 then editMmsi wx js r g w
          else if column = 1 then Some (editName r g w)
          else Some (Inr (g, w)))"

section \<open>Events\<close>

text \<open>
  The user's actions on the window. Each first changes the widget it is made on, within what
  the control accepts, and then runs the handler connected to it. A thumb release is connected
  to two handlers; wxWidgets runs the one connected last, which does not skip.
\<close>

datatype gui_event =
    ClickStart | ClickStop | CheckFollowBoat bool | ScrollSlider int | ReleaseSlider int
  | TypeMmsi int | TypeComment string | ClickAdd | CheckActivate bool
  | EditCell nat nat string | ClickDelete "nat option" | ClickClear

definition OnScroll :: "wx_api \<Rightarrow> main_gui \<Rightarrow> main_gui" where
  "OnScroll wx w = w\<lparr>w_searchBoxSize := boxSizeLabel wx (of_int (w_sliderValue w))\<rparr>"

definition OnScrollThumbRelease :: "wx_api \<Rightarrow> 'j json_api \<Rightarrow> settings \<Rightarrow> main_gui \<Rightarrow> main_gui" where
  "OnScrollThumbRelease wx js g w = updateSearchBoxSize wx js g (of_int (w_sliderValue w)) w"

definition OnCheckBox_FollowBoatMode ::
  "wx_api \<Rightarrow> 'j json_api \<Rightarrow> settings \<Rightarrow> bool \<Rightarrow> main_gui \<Rightarrow> main_gui" where
  "OnCheckBox_FollowBoatMode wx js g checked w =
     (let w' = w\<lparr>m_followBoatMode := checked\<rparr> in
      if m_followBoatMode w'
      then updateSearchPosition wx js g (m_boatLatitude w') (m_boatLongitude w') w' else w')"

definition OnCheckBox_Activate :: "'j json_api \<Rightarrow> settings \<Rightarrow> main_gui \<Rightarrow> settings \<times> main_gui" where
  "OnCheckBox_Activate js g w =
     (let g' = g\<lparr>g_activateVesselsFollowing := w_activateVesselFollowing w\<rparr>
      in (g', RestartAisStream js g' w))"

text \<open>What the control lets the user do.\<close>

fun eventAllowed :: "gui_event \<Rightarrow> main_gui \<Rightarrow> bool" where
  "eventAllowed (ScrollSlider v) w = (fst (w_sliderRange w) \<le> v \<and> v \<le> snd (w_sliderRange w))"
| "eventAllowed (ReleaseSlider v) w = (fst (w_sliderRange w) \<le> v \<and> v \<le> snd (w_sliderRange w))"
| "eventAllowed (TypeMmsi v) w = (100000000 \<le> v \<and> v \<le> 999999999)"
| "eventAllowed (EditCell row column text) w = (row < length (w_rows w) \<and> column < 2)"
| "eventAllowed (ClickDelete (Some i)) w = (i < length (w_rows w))"
| "eventAllowed _ w = True"

definition OnButtonClick_startStream :: "wx_api \<Rightarrow> 'j json_api \<Rightarrow> settings \<Rightarrow> main_gui \<Rightarrow> main_gui" where
  [simp]: "OnButtonClick_startStream wx js g w = StartAisStream wx js g w"

definition OnButtonClick_stopStream :: "main_gui \<Rightarrow> main_gui" where
  [simp]: "OnButtonClick_stopStream w = StopAisStream w"

fun guiEvent ::
  "wx_api \<Rightarrow> 'j json_api \<Rightarrow> gui_event \<Rightarrow> settings \<Rightarrow> main_gui \<Rightarrow> handled option" where
  "guiEvent wx js ClickStart g w = Some (Inr (g, OnButtonClick_startStream wx js g w))"
| "guiEvent wx js ClickStop g w = Some (Inr (g, OnButtonClick_stopStream w))"
| "guiEvent wx js (CheckFollowBoat b) g w =
     Some (Inr (g, OnCheckBox_FollowBoatMode wx js g b (w\<lparr>w_followBoatMode := b\<rparr>)))"
| "guiEvent wx js (ScrollSlider v) g w = Some (Inr (g, OnScroll wx (w\<lparr>w_sliderValue := v\<rparr>)))"
| "guiEvent wx js (ReleaseSlider v) g w =
     Some (Inr (g, OnScrollThumbRelease wx js g (w\<lparr>w_sliderValue := v\<rparr>)))"
| "guiEvent wx js (TypeMmsi v) g w = Some (Inr (g, w\<lparr>w_spinMMSI := v\<rparr>))"
| "guiEvent wx js (TypeComment t) g w = Some (Inr (g, w\<lparr>w_mmsiComment := t\<rparr>))"
| "guiEvent wx js ClickAdd g w = Some (Inr (AddMmsiToList wx js g w))"
| "guiEvent wx js (CheckActivate b) g w =
     Some (Inr (OnCheckBox_Activate js g (w\<lparr>w_activateVesselFollowing := b\<rparr>)))"
| "guiEvent wx js (EditCell row column text) g w =
     updateMmsiList wx js (Some row) column g (storeCell row column text w)"
| "guiEvent wx js (ClickDelete sel) g w = Some (DeleteMmsiFromList js sel g w)"
| "guiEvent wx js ClickClear g w = Some (Inr (ClearMmsiList js g w))"

end
