(* ===== verification/AisForms.thy ===== *)
theory AisForms
  imports AisMainGui
begin

text \<open>
  The generated constructors of the three dialogs (\<open>main_ui_base.cpp\<close>, \<open>settings_ui_base.cpp\<close>,
  \<open>menuDialog_ui_base.cpp\<close>): the statements they execute, in order, as data; what a constructor
  that runs without error has made; and when that is well built. The members and handlers are those
  the classes declare (\<open>main_ui_base.h\<close> and its two siblings).
\<close>

section \<open>Statements\<close>

datatype orientation = Horizontal | Vertical

datatype layout_flag = wxEXPAND | wxALL | wxALIGN_CENTER

datatype wx_event =
    CLOSE_WINDOW | INIT_DIALOG | BUTTON_CLICKED | CHECKBOX_CLICKED | DATAVIEW_ITEM_VALUE_CHANGED
  | SCROLL_TOP | SCROLL_BOTTOM | SCROLL_LINEUP | SCROLL_LINEDOWN | SCROLL_PAGEUP | SCROLL_PAGEDOWN
  | SCROLL_THUMBTRACK | SCROLL_THUMBRELEASE | SCROLL_CHANGED

text \<open>
  The arguments of the widgets' constructors but for identifiers, positions, sizes and styles: the
  text, the value and range of a slider, and the text, range and value of a spin control.
\<close>

datatype widget =
    Notebook | Panel | DataViewListCtrl | StaticLine | StaticBox string | Button string
  | StaticText string | CheckBox string | TextCtrl string | Hyperlink string string
  | Slider int int int | SpinCtrl string int int int

text \<open>
  A static text is wrapped at a width, an item is added with a proportion, flags and a border, a
  page with its label and whether it is selected.
\<close>

datatype 'n form_stmt =
    SetSizeHints 'n
  | NewSizer 'n orientation
  | NewStaticBoxSizer 'n 'n orientation
  | NewWindow 'n widget 'n
  | SetValue 'n bool
  | SetMaxLength 'n nat
  | Wrap 'n int
  | AddSpacer 'n nat "layout_flag list" nat
  | AddItem 'n 'n nat "layout_flag list" nat
  | SetSizer 'n 'n
  | Layout 'n
  | Fit 'n 'n
  | AddPage 'n 'n string bool
  | SetSelection 'n nat
  | Centre 'n
  | Connect 'n wx_event string

section \<open>What they make\<close>

text \<open>
  This section is not code of the repository: it gives the statements the meaning that C++ and the
  toolkit give them, as far as their order and the structure they build go.
\<close>

text \<open>
  The windows with their parents, the sizers with the static box they draw, what was added to which
  sizer (a spacer is \<open>None\<close>), and so on, in the order in which it was done. The dialog itself is
  \<open>f_this\<close>.
\<close>

record 'n form =
  f_this :: 'n
  f_windows :: "('n \<times> widget \<times> 'n) list"
  f_sizers :: "('n \<times> 'n option) list"
  f_items :: "('n \<times> 'n option) list"
  f_sizerOf :: "('n \<times> 'n) list"
  f_pages :: "('n \<times> 'n) list"
  f_selected :: "('n \<times> nat) list"
  f_checked :: "('n \<times> bool) list"
  f_maxLength :: "('n \<times> nat) list"
  f_connected :: "('n \<times> wx_event \<times> string) list"

text \<open>
  What C++ or the toolkit leaves undefined: a pointer that is used before it is assigned or assigned
  twice, an item that is added to two sizers, a page that is not a child of its notebook, a page that
  does not exist.
\<close>

datatype 'n form_error =
  Unassigned 'n | AssignedTwice 'n | AddedTwice 'n | NotItsChild 'n 'n | NoSuchPage 'n nat

definition emptyForm :: "'n \<Rightarrow> 'n form" where
  "emptyForm this =
     \<lparr>f_this = this, f_windows = [], f_sizers = [], f_items = [], f_sizerOf = [], f_pages = [], f_selected = [],
      f_checked = [], f_maxLength = [], f_connected = []\<rparr>"

definition isWindow :: "'n form \<Rightarrow> 'n \<Rightarrow> bool" where
  "isWindow f w \<longleftrightarrow> w = f_this f \<or> map_of (f_windows f) w \<noteq> None"

definition isSizer :: "'n form \<Rightarrow> 'n \<Rightarrow> bool" where
  "isSizer f s \<longleftrightarrow> map_of (f_sizers f) s \<noteq> None"

definition need :: "bool \<Rightarrow> 'n form_error \<Rightarrow> 'a \<Rightarrow> ('n form_error, 'a) result" where
  "need ok e x = (if ok then Inr x else Inl e)"

definition parentOf :: "'n form \<Rightarrow> 'n \<Rightarrow> 'n option" where
  "parentOf f w = map_option snd (map_of (f_windows f) w)"

definition pagesOf :: "'n form \<Rightarrow> 'n \<Rightarrow> 'n list" where
  "pagesOf f nb = map snd (filter (\<lambda>(n, p). n = nb) (f_pages f))"

fun formStep :: "'n form_stmt \<Rightarrow> 'n form \<Rightarrow> ('n form_error, 'n form) result" where
  "formStep (SetSizeHints w) f = need (isWindow f w) (Unassigned w) f"
| "formStep (NewSizer s orient) f =
     need (\<not> isSizer f s) (AssignedTwice s) (f\<lparr>f_sizers := f_sizers f @ [(s, None)]\<rparr>)"
| "formStep (NewStaticBoxSizer s box orient) f =
     rbind (need (isWindow f box) (Unassigned box) f) (\<lambda>f.
       need (\<not> isSizer f s) (AssignedTwice s) (f\<lparr>f_sizers := f_sizers f @ [(s, Some box)]\<rparr>))"
| "formStep (NewWindow w k p) f =
     rbind (need (isWindow f p) (Unassigned p) f) (\<lambda>f.
       need (\<not> isWindow f w) (AssignedTwice w) (f\<lparr>f_windows := f_windows f @ [(w, k, p)]\<rparr>))"
| "formStep (SetValue w b) f = need (isWindow f w) (Unassigned w) (f\<lparr>f_checked := (w, b) # f_checked f\<rparr>)"
| "formStep (SetMaxLength w n) f = need (isWindow f w) (Unassigned w) (f\<lparr>f_maxLength := (w, n) # f_maxLength f\<rparr>)"
| "formStep (Wrap w n) f = need (isWindow f w) (Unassigned w) f"
| "formStep (AddSpacer s prop flags border) f =
     need (isSizer f s) (Unassigned s) (f\<lparr>f_items := f_items f @ [(s, None)]\<rparr>)"
| "formStep (AddItem s x prop flags border) f =
     rbind (need (isSizer f s) (Unassigned s) f) (\<lambda>f.
     rbind (need (isWindow f x \<or> isSizer f x) (Unassigned x) f) (\<lambda>f.
       need (Some x \<notin> set (map snd (f_items f)) \<and> x \<notin> set (map snd (f_sizerOf f))) (AddedTwice x)
         (f\<lparr>f_items := f_items f @ [(s, Some x)]\<rparr>)))"
| "formStep (SetSizer w s) f =
     rbind (need (isWindow f w) (Unassigned w) f) (\<lambda>f.
     rbind (need (isSizer f s) (Unassigned s) f) (\<lambda>f.
       need (Some s \<notin> set (map snd (f_items f)) \<and> s \<notin> set (map snd (f_sizerOf f))) (AddedTwice s)
         (f\<lparr>f_sizerOf := f_sizerOf f @ [(w, s)]\<rparr>)))"
| "formStep (Layout w) f = need (isWindow f w) (Unassigned w) f"
| "formStep (Fit s w) f =
     rbind (need (isSizer f s) (Unassigned s) f) (\<lambda>f. need (isWindow f w) (Unassigned w) f)"
| "formStep (AddPage nb p label select) f =
     rbind (need (isWindow f nb) (Unassigned nb) f) (\<lambda>f.
     rbind (need (isWindow f p) (Unassigned p) f) (\<lambda>f.
       need (parentOf f p = Some nb) (NotItsChild p nb)
         (f\<lparr>f_pages := f_pages f @ [(nb, p)],
            f_selected := (if select then (nb, length (pagesOf f nb)) # f_selected f else f_selected f)\<rparr>)))"
| "formStep (SetSelection nb n) f =
     rbind (need (isWindow f nb) (Unassigned nb) f) (\<lambda>f.
       need (n < length (pagesOf f nb)) (NoSuchPage nb n) (f\<lparr>f_selected := (nb, n) # f_selected f\<rparr>))"
| "formStep (Centre w) f = need (isWindow f w) (Unassigned w) f"
| "formStep (Connect w event handler) f =
     need (isWindow f w) (Unassigned w) (f\<lparr>f_connected := f_connected f @ [(w, event, handler)]\<rparr>)"

fun runForm :: "'n form_stmt list \<Rightarrow> 'n form \<Rightarrow> ('n form_error, 'n form) result" where
  "runForm [] f = Inr f"
| "runForm (s # ss) f = rbind (formStep s f) (runForm ss)"

definition build :: "'n \<Rightarrow> 'n form_stmt list \<Rightarrow> ('n form_error, 'n form) result" where
  "build this ss = runForm ss (emptyForm this)"

section \<open>The main window\<close>

datatype main_name =
    mainWindow | bSizer8 | m_notebook | m_panel_stream | bSizer2 | bSizer21 | m_button_start
    | m_button_stop | bSizer3 | m_staticText2 | m_staticText_streamState | m_staticline1 | bSizer61
    | m_checkBox_followBoatMode | m_staticline2 | bSizer4 | m_staticText9 | m_staticText4
    | m_staticText_searchLatitude | m_staticText10 | m_staticText6 | m_staticText_searchLongitude
    | bSizer6 | m_staticText8 | m_staticText_searchBoxSize | m_slider_searchBoxSize
    | m_panel_mmsiList | bSizer13 | bSizer12 | m_spinCtrl_followedMMSI | m_textCtrl_mmsiComment
    | m_button_addMmsiToList | m_checkBox_activateVesselFollowing | bSizer15 | m_staticText11
    | m_dataViewListCtrl_followedVessels | bSizer121 | m_button_deleteMmsiFromList
    | m_button_clearMmsiList

definition streamPage :: "main_name form_stmt list" where
  "streamPage =
     [SetSizeHints mainWindow,
      NewSizer bSizer8 Vertical,
      NewWindow m_notebook Notebook mainWindow,
      NewWindow m_panel_stream Panel m_notebook,
      NewSizer bSizer2 Vertical,
      AddSpacer bSizer2 1 [wxEXPAND] 5,
      NewSizer bSizer21 Horizontal,
      AddSpacer bSizer21 1 [wxEXPAND] 5,
      NewWindow m_button_start (Button ''Start'') m_panel_stream,
      AddItem bSizer21 m_button_start 0 [wxALL] 5,
      NewWindow m_button_stop (Button ''Stop'') m_panel_stream,
      AddItem bSizer21 m_button_stop 0 [wxALL] 5,
      AddSpacer bSizer21 1 [wxEXPAND] 5,
      AddItem bSizer2 bSizer21 1 [wxEXPAND] 5,
      NewSizer bSizer3 Horizontal,
      AddSpacer bSizer3 1 [wxEXPAND] 5,
      NewWindow m_staticText2 (StaticText ''AIS stream:'') m_panel_stream,
      Wrap m_staticText2 (- 1),
      AddItem bSizer3 m_staticText2 0 [wxALIGN_CENTER, wxALL] 5,
      NewWindow m_staticText_streamState (StaticText ''Not running'') m_panel_stream,
      Wrap m_staticText_streamState (- 1),
      AddItem bSizer3 m_staticText_streamState 0 [wxALIGN_CENTER, wxALL] 5,
      AddSpacer bSizer3 1 [wxEXPAND] 5,
      AddItem bSizer2 bSizer3 1 [wxEXPAND] 5,
      AddSpacer bSizer2 1 [wxEXPAND] 5,
      NewWindow m_staticline1 StaticLine m_panel_stream,
      AddItem bSizer2 m_staticline1 0 [wxEXPAND, wxALL] 5,
      AddSpacer bSizer2 1 [wxEXPAND] 5,
      NewSizer bSizer61 Horizontal,
      AddSpacer bSizer61 1 [wxEXPAND] 5,
      NewWindow m_checkBox_followBoatMode (CheckBox ''Follow boat'') m_panel_stream,
      SetValue m_checkBox_followBoatMode True,
      AddItem bSizer61 m_checkBox_followBoatMode 0 [wxALIGN_CENTER, wxALL] 5,
      AddSpacer bSizer61 1 [wxEXPAND] 5,
      AddItem bSizer2 bSizer61 1 [wxEXPAND] 5,
      AddSpacer bSizer2 1 [wxEXPAND] 5,
      NewWindow m_staticline2 StaticLine m_panel_stream,
      AddItem bSizer2 m_staticline2 0 [wxEXPAND, wxALL] 5,
      AddSpacer bSizer2 1 [wxEXPAND] 5,
      NewSizer bSizer4 Horizontal,
      AddSpacer bSizer4 1 [wxEXPAND] 5,
      NewWindow m_staticText9 (StaticText ''Search position: '') m_panel_stream,
      Wrap m_staticText9 (- 1),
      AddItem bSizer4 m_staticText9 0 [wxALL] 5,
      NewWindow m_staticText4 (StaticText ''Lat:'') m_panel_stream,
      Wrap m_staticText4 (- 1),
      AddItem bSizer4 m_staticText4 0 [wxALL] 5,
      NewWindow m_staticText_searchLatitude (StaticText (''0'' @ degreeSymbol @ '' N'')) m_panel_stream,
      Wrap m_staticText_searchLatitude (- 1),
      AddItem bSizer4 m_staticText_searchLatitude 0 [wxALL] 5,
      NewWindow m_staticText10 (StaticText ''/'') m_panel_stream,
      Wrap m_staticText10 (- 1),
      AddItem bSizer4 m_staticText10 0 [wxALL] 5,
      NewWindow m_staticText6 (StaticText ''Lon:'') m_panel_stream,
      Wrap m_staticText6 (- 1),
      AddItem bSizer4 m_staticText6 0 [wxALL] 5,
      NewWindow m_staticText_searchLongitude (StaticText (''0'' @ degreeSymbol @ '' E'')) m_panel_stream,
      Wrap m_staticText_searchLongitude (- 1),
      AddItem bSizer4 m_staticText_searchLongitude 0 [wxALL] 5,
      AddSpacer bSizer4 1 [wxEXPAND] 5,
      AddItem bSizer2 bSizer4 1 [wxEXPAND] 5,
      NewSizer bSizer6 Horizontal,
      AddSpacer bSizer6 1 [wxEXPAND] 5,
      NewWindow m_staticText8 (StaticText ''Search box size:'') m_panel_stream,
      Wrap m_staticText8 (- 1),
      AddItem bSizer6 m_staticText8 0 [wxALL] 5,
      NewWindow m_staticText_searchBoxSize (StaticText (''1'' @ degreeSymbol @ '' x 1'' @ degreeSymbol)) m_panel_stream,
      Wrap m_staticText_searchBoxSize (- 1),
      AddItem bSizer6 m_staticText_searchBoxSize 0 [wxALL] 5,
      AddSpacer bSizer6 1 [wxEXPAND] 5,
      AddItem bSizer2 bSizer6 1 [wxEXPAND] 5,
      NewWindow m_slider_searchBoxSize (Slider 1 0 10) m_panel_stream,
      AddItem bSizer2 m_slider_searchBoxSize 0 [wxALIGN_CENTER, wxALL, wxEXPAND] 5,
      AddSpacer bSizer2 1 [wxEXPAND] 5,
      SetSizer m_panel_stream bSizer2,
      Layout m_panel_stream,
      Fit bSizer2 m_panel_stream,
      AddPage m_notebook m_panel_stream ''AIS Stream'' False]"

definition vesselsPage :: "main_name form_stmt list" where
  "vesselsPage =
     [NewWindow m_panel_mmsiList Panel m_notebook,
      NewSizer bSizer13 Horizontal,
      NewSizer bSizer12 Vertical,
      AddSpacer bSizer12 1 [wxEXPAND] 5,
      NewWindow m_spinCtrl_followedMMSI (SpinCtrl ''227000000'' 100000000 999999999 227000000) m_panel_mmsiList,
      AddItem bSizer12 m_spinCtrl_followedMMSI 0 [wxALIGN_CENTER, wxALL, wxEXPAND] 5,
      NewWindow m_textCtrl_mmsiComment (TextCtrl []) m_panel_mmsiList,
      SetMaxLength m_textCtrl_mmsiComment 20,
      AddItem bSizer12 m_textCtrl_mmsiComment 0 [wxALIGN_CENTER, wxALL, wxEXPAND] 5,
      NewWindow m_button_addMmsiToList (Button ''Add to list'') m_panel_mmsiList,
      AddItem bSizer12 m_button_addMmsiToList 0 [wxALIGN_CENTER, wxALL] 5,
      AddSpacer bSizer12 1 [wxEXPAND] 5,
      NewWindow m_checkBox_activateVesselFollowing (CheckBox ''Activate'') m_panel_mmsiList,
      SetValue m_checkBox_activateVesselFollowing True,
      AddItem bSizer12 m_checkBox_activateVesselFollowing 0 [wxALIGN_CENTER, wxALL] 5,
      AddSpacer bSizer12 1 [wxEXPAND] 5,
      AddItem bSizer13 bSizer12 0 [wxEXPAND] 5,
      NewSizer bSizer15 Vertical,
      NewWindow m_staticText11 (StaticText ''MMSI list'') m_panel_mmsiList,
      Wrap m_staticText11 (- 1),
      AddItem bSizer15 m_staticText11 0 [wxALIGN_CENTER, wxALL] 5,
      NewWindow m_dataViewListCtrl_followedVessels DataViewListCtrl m_panel_mmsiList,
      AddItem bSizer15 m_dataViewListCtrl_followedVessels 1 [wxALL, wxEXPAND] 5,
      NewSizer bSizer121 Horizontal,
      AddSpacer bSizer121 1 [wxEXPAND] 5,
      NewWindow m_button_deleteMmsiFromList (Button ''Delete'') m_panel_mmsiList,
      AddItem bSizer121 m_button_deleteMmsiFromList 0 [wxALIGN_CENTER, wxALL] 5,
      AddSpacer bSizer121 1 [wxEXPAND] 5,
      NewWindow m_button_clearMmsiList (Button ''Clear all'') m_panel_mmsiList,
      AddItem bSizer121 m_button_clearMmsiList 0 [wxALIGN_CENTER, wxALL] 5,
      AddSpacer bSizer121 1 [wxEXPAND] 5,
      AddItem bSizer15 bSizer121 0 [wxEXPAND] 5,
      AddItem bSizer13 bSizer15 1 [wxEXPAND] 5,
      SetSizer m_panel_mmsiList bSizer13,
      Layout m_panel_mmsiList,
      Fit bSizer13 m_panel_mmsiList,
      AddPage m_notebook m_panel_mmsiList ''Followed vessels'' True,
      AddItem bSizer8 m_notebook 1 [wxEXPAND, wxALL] 5]"

definition mainWindowEnd :: "main_name form_stmt list" where
  "mainWindowEnd =
     [SetSizer mainWindow bSizer8,
      Layout mainWindow,
      Centre mainWindow]"

definition mainWindowEvents :: "main_name form_stmt list" where
  "mainWindowEvents =
     [Connect mainWindow CLOSE_WINDOW ''OnClose'',
      Connect m_button_start BUTTON_CLICKED ''OnButtonClick_startStream'',
      Connect m_button_stop BUTTON_CLICKED ''OnButtonClick_stopStream'',
      Connect m_checkBox_followBoatMode CHECKBOX_CLICKED ''OnCheckBox_FollowBoatMode'',
      Connect m_slider_searchBoxSize SCROLL_TOP ''OnScroll_UpdateSearchBoxSize'',
      Connect m_slider_searchBoxSize SCROLL_BOTTOM ''OnScroll_UpdateSearchBoxSize'',
      Connect m_slider_searchBoxSize SCROLL_LINEUP ''OnScroll_UpdateSearchBoxSize'',
      Connect m_slider_searchBoxSize SCROLL_LINEDOWN ''OnScroll_UpdateSearchBoxSize'',
      Connect m_slider_searchBoxSize SCROLL_PAGEUP ''OnScroll_UpdateSearchBoxSize'',
      Connect m_slider_searchBoxSize SCROLL_PAGEDOWN ''OnScroll_UpdateSearchBoxSize'',
      Connect m_slider_searchBoxSize SCROLL_THUMBTRACK ''OnScroll_UpdateSearchBoxSize'',
      Connect m_slider_searchBoxSize SCROLL_THUMBRELEASE ''OnScroll_UpdateSearchBoxSize'',
      Connect m_slider_searchBoxSize SCROLL_CHANGED ''OnScroll_UpdateSearchBoxSize'',
      Connect m_slider_searchBoxSize SCROLL_THUMBRELEASE ''OnScrollThumbRelease_UpdateSearchBoxSize'',
      Connect m_button_addMmsiToList BUTTON_CLICKED ''OnButtonClick_AddMmsiToList'',
      Connect m_checkBox_activateVesselFollowing CHECKBOX_CLICKED ''m_checkBox_activateVesselFollowingOnCheckBox'',
      Connect m_dataViewListCtrl_followedVessels DATAVIEW_ITEM_VALUE_CHANGED ''OnDataViewListCtrlItemValueChanged_updateMmsiList'',
      Connect m_button_deleteMmsiFromList BUTTON_CLICKED ''OnButtonClick_DeleteMmsiFromList'',
      Connect m_button_clearMmsiList BUTTON_CLICKED ''OnButtonClick_ClearMmsiList'']"

definition mainWindowForm :: "main_name form_stmt list" where
  "mainWindowForm = streamPage @ vesselsPage @ mainWindowEnd @ mainWindowEvents"

definition mainMembers :: "main_name list" where
  "mainMembers =
    [m_notebook, m_panel_stream, m_button_start, m_button_stop, m_staticText2,
     m_staticText_streamState, m_staticline1, m_checkBox_followBoatMode, m_staticline2,
     m_staticText9, m_staticText4, m_staticText_searchLatitude, m_staticText10,
     m_staticText6, m_staticText_searchLongitude, m_staticText8,
     m_staticText_searchBoxSize, m_slider_searchBoxSize, m_panel_mmsiList,
     m_spinCtrl_followedMMSI, m_textCtrl_mmsiComment, m_button_addMmsiToList,
     m_checkBox_activateVesselFollowing, m_staticText11,
     m_dataViewListCtrl_followedVessels, m_button_deleteMmsiFromList,
     m_button_clearMmsiList]"

definition mainHandlers :: "string list" where
  "mainHandlers =
    [''OnClose'', ''OnButtonClick_startStream'', ''OnButtonClick_stopStream'',
     ''OnCheckBox_FollowBoatMode'', ''OnScroll_UpdateSearchBoxSize'',
     ''OnScrollThumbRelease_UpdateSearchBoxSize'', ''OnButtonClick_AddMmsiToList'',
     ''m_checkBox_activateVesselFollowingOnCheckBox'',
     ''OnDataViewListCtrlItemValueChanged_updateMmsiList'', ''OnButtonClick_DeleteMmsiFromList'',
     ''OnButtonClick_ClearMmsiList'']"

section \<open>The preferences dialog\<close>

datatype settings_name =
    settingsDialog | sizerDialog | m_notebook1 | m_panel_options | bSizer12 | bSizer91
    | m_checkBox_keepWindowActive | m_panel_openwaters | bSizer92 | m_hyperlink1 | bSizer11
    | m_staticText4 | m_textCtrl_token | m_panel_display | sizerSettings | bSizer8
    | m_checkBox_restoreWindowPos | bSizer9 | m_checkBox_restoreWindowSize | sizerButtons | buttonOK
    | buttonApply

definition optionsPage :: "settings_name form_stmt list" where
  "optionsPage =
     [SetSizeHints settingsDialog,
      NewSizer sizerDialog Vertical,
      NewWindow m_notebook1 Notebook settingsDialog,
      NewWindow m_panel_options Panel m_notebook1,
      NewSizer bSizer12 Vertical,
      AddSpacer bSizer12 1 [wxEXPAND] 5,
      NewSizer bSizer91 Horizontal,
      AddSpacer bSizer91 1 [wxEXPAND] 5,
      NewWindow m_checkBox_keepWindowActive (CheckBox ''Keep transmitting when window is closed'') m_panel_options,
      SetValue m_checkBox_keepWindowActive True,
      AddItem bSizer91 m_checkBox_keepWindowActive 0 [wxALIGN_CENTER, wxALL] 5,
      AddSpacer bSizer91 1 [wxEXPAND] 5,
      AddItem bSizer12 bSizer91 1 [wxEXPAND] 5,
      AddSpacer bSizer12 1 [wxEXPAND] 5,
      SetSizer m_panel_options bSizer12,
      Layout m_panel_options,
      Fit bSizer12 m_panel_options,
      AddPage m_notebook1 m_panel_options ''Options'' False]"

definition accountPage :: "settings_name form_stmt list" where
  "accountPage =
     [NewWindow m_panel_openwaters Panel m_notebook1,
      NewSizer bSizer92 Vertical,
      AddSpacer bSizer92 1 [wxEXPAND] 5,
      NewWindow m_hyperlink1 (Hyperlink ''Get your token here!'' ''https://openwaters.io/ais/token/'') m_panel_openwaters,
      AddItem bSizer92 m_hyperlink1 0 [wxALIGN_CENTER, wxALL] 5,
      NewSizer bSizer11 Horizontal,
      NewWindow m_staticText4 (StaticText ''My token:'') m_panel_openwaters,
      Wrap m_staticText4 (- 1),
      AddItem bSizer11 m_staticText4 0 [wxALIGN_CENTER, wxALL] 5,
      NewWindow m_textCtrl_token (TextCtrl []) m_panel_openwaters,
      AddItem bSizer11 m_textCtrl_token 1 [wxALIGN_CENTER, wxALL] 5,
      AddItem bSizer92 bSizer11 1 [wxEXPAND] 5,
      AddSpacer bSizer92 1 [wxEXPAND] 5,
      SetSizer m_panel_openwaters bSizer92,
      Layout m_panel_openwaters,
      Fit bSizer92 m_panel_openwaters,
      AddPage m_notebook1 m_panel_openwaters ''AIS Stream'' True]"

definition displayPage :: "settings_name form_stmt list" where
  "displayPage =
     [NewWindow m_panel_display Panel m_notebook1,
      NewSizer sizerSettings Vertical,
      NewSizer bSizer8 Horizontal,
      AddSpacer bSizer8 1 [wxEXPAND] 5,
      NewWindow m_checkBox_restoreWindowPos (CheckBox ''Restore last window position'') m_panel_display,
      SetValue m_checkBox_restoreWindowPos True,
      AddItem bSizer8 m_checkBox_restoreWindowPos 0 [wxALIGN_CENTER, wxALL] 5,
      AddSpacer bSizer8 1 [wxEXPAND] 5,
      AddItem sizerSettings bSizer8 1 [wxEXPAND] 5,
      NewSizer bSizer9 Horizontal,
      AddSpacer bSizer9 1 [wxEXPAND] 5,
      NewWindow m_checkBox_restoreWindowSize (CheckBox ''Restore last window size'') m_panel_display,
      SetValue m_checkBox_restoreWindowSize True,
      AddItem bSizer9 m_checkBox_restoreWindowSize 0 [wxALIGN_CENTER, wxALL] 5,
      AddSpacer bSizer9 1 [wxEXPAND] 5,
      AddItem sizerSettings bSizer9 1 [wxEXPAND] 5,
      SetSizer m_panel_display sizerSettings,
      Layout m_panel_display,
      Fit sizerSettings m_panel_display,
      AddPage m_notebook1 m_panel_display ''Display'' False]"

definition settingsEnd :: "settings_name form_stmt list" where
  "settingsEnd =
     [AddItem sizerDialog m_notebook1 1 [wxEXPAND] 5,
      NewSizer sizerButtons Horizontal,
      AddSpacer sizerButtons 1 [wxEXPAND] 5,
      NewWindow buttonOK (Button ''OK'') settingsDialog,
      AddItem sizerButtons buttonOK 0 [wxALL] 5,
      NewWindow buttonApply (Button ''Apply'') settingsDialog,
      AddItem sizerButtons buttonApply 0 [wxALL] 5,
      AddSpacer sizerButtons 1 [wxEXPAND] 5,
      AddItem sizerDialog sizerButtons 0 [wxEXPAND] 5,
      SetSizer settingsDialog sizerDialog,
      Layout settingsDialog,
      Centre settingsDialog]"

definition settingsEvents :: "settings_name form_stmt list" where
  "settingsEvents =
     [Connect settingsDialog INIT_DIALOG ''OnInit'',
      Connect buttonOK BUTTON_CLICKED ''OnOK'',
      Connect buttonApply BUTTON_CLICKED ''OnApply'']"

text \<open>The constructor of \<open>DialogSettings\<close> shows the first page.\<close>

definition settingsForm :: "settings_name form_stmt list" where
  "settingsForm =
     optionsPage @ accountPage @ displayPage @ settingsEnd @ settingsEvents @ [SetSelection m_notebook1 0]"

definition settingsMembers :: "settings_name list" where
  "settingsMembers =
    [m_notebook1, m_panel_options, m_checkBox_keepWindowActive, m_panel_openwaters,
     m_hyperlink1, m_staticText4, m_textCtrl_token, m_panel_display,
     m_checkBox_restoreWindowPos, m_checkBox_restoreWindowSize, buttonOK, buttonApply]"

definition settingsHandlers :: "string list" where
  "settingsHandlers =
    [''OnInit'', ''OnOK'', ''OnApply'']"

section \<open>The menu dialog\<close>

text \<open>Its static box is an unnamed argument in the code.\<close>

datatype menu_name =
    menuDialog | bSizer1 | sbSizer1_box | sbSizer1 | m_button_updateSearchPosOnBoat
    | m_button_updateSearchPosition

definition menuDialogForm :: "menu_name form_stmt list" where
  "menuDialogForm =
     [SetSizeHints menuDialog,
      NewSizer bSizer1 Vertical,
      AddSpacer bSizer1 1 [wxEXPAND] 5,
      NewWindow sbSizer1_box (StaticBox ''Update search position'') menuDialog,
      NewStaticBoxSizer sbSizer1 sbSizer1_box Vertical,
      NewWindow m_button_updateSearchPosOnBoat (Button ''On boat'') sbSizer1_box,
      AddItem sbSizer1 m_button_updateSearchPosOnBoat 0 [wxALIGN_CENTER, wxALL] 5,
      NewWindow m_button_updateSearchPosition (Button ''On cursor'') sbSizer1_box,
      AddItem sbSizer1 m_button_updateSearchPosition 0 [wxALIGN_CENTER, wxALL] 5,
      AddItem bSizer1 sbSizer1 1 [wxALL, wxEXPAND] 5,
      AddSpacer bSizer1 1 [wxEXPAND] 5,
      SetSizer menuDialog bSizer1,
      Layout menuDialog,
      Centre menuDialog,
      Connect m_button_updateSearchPosOnBoat BUTTON_CLICKED ''OnButtonClick_UpdateSearchPosOnBoat'',
      Connect m_button_updateSearchPosition BUTTON_CLICKED ''OnButtonClick_UpdateSearchPosition'']"

definition menuMembers :: "menu_name list" where
  "menuMembers =
    [m_button_updateSearchPosOnBoat, m_button_updateSearchPosition]"

definition menuHandlers :: "string list" where
  "menuHandlers =
    [''OnButtonClick_UpdateSearchPosOnBoat'', ''OnButtonClick_UpdateSearchPosition'']"

section \<open>Well-built forms\<close>

text \<open>
  The window on which a sizer's items have to be placed: the static box that it draws, else the
  window it was set on, directly or through the sizers it was added to.
\<close>

fun hostOf :: "nat \<Rightarrow> 'n form \<Rightarrow> 'n \<Rightarrow> 'n option" where
  "hostOf 0 f s = None"
| "hostOf (Suc n) f s =
     (case map_of (f_sizers f) s of
        Some (Some box) \<Rightarrow> Some box
      | _ \<Rightarrow>
          (case map_of (map (\<lambda>(w, s). (s, w)) (f_sizerOf f)) s of
             Some w \<Rightarrow> Some w
           | None \<Rightarrow>
               (case map_of (map (\<lambda>(t, x). (x, t)) (f_items f)) (Some s) of
                  Some t \<Rightarrow> hostOf n f t
                | None \<Rightarrow> None)))"

text \<open>
  Every window is a page of its parent, or the static box of a sizer, or an item of a sizer whose
  host is its parent; every sizer is placed.
\<close>

definition placed :: "'n form \<Rightarrow> 'n \<times> widget \<times> 'n \<Rightarrow> bool" where
  "placed f x \<longleftrightarrow>
     (case x of (w, k, p) \<Rightarrow>
        (p, w) \<in> set (f_pages f) \<or> Some w \<in> set (map snd (f_sizers f)) \<or>
        (case map_of (map (\<lambda>(t, x). (x, t)) (f_items f)) (Some w) of
           Some s \<Rightarrow> hostOf (length (f_sizers f)) f s = Some p
         | None \<Rightarrow> False))"

definition wellBuilt :: "'n form \<Rightarrow> bool" where
  "wellBuilt f \<longleftrightarrow>
     list_all (placed f) (f_windows f) \<and>
     list_all (\<lambda>(s, box). hostOf (length (f_sizers f)) f s \<noteq> None) (f_sizers f)"

definition handlersOf :: "'n form \<Rightarrow> 'n \<Rightarrow> wx_event \<Rightarrow> string list" where
  "handlersOf f w event = map (snd \<circ> snd) (filter (\<lambda>(v, e, h). v = w \<and> e = event) (f_connected f))"

definition allHandlers :: "'n form \<Rightarrow> string list" where
  "allHandlers f = remdups (map (snd \<circ> snd) (f_connected f))"

section \<open>The handler that an action runs\<close>

text \<open>
  wxWidgets looks for the handler of an event among those connected to it, the last connected
  first, and goes on only after one that skips; none of these does.
\<close>

definition handlerRun :: "'n form \<Rightarrow> 'n \<Rightarrow> wx_event \<Rightarrow> string option" where
  "handlerRun f w event = (case handlersOf f w event of [] \<Rightarrow> None | hs \<Rightarrow> Some (last hs))"

text \<open>
  The events of the main window's widgets that stand behind an action of the user, and what the
  widget itself changes first. Moving the slider is any of eight.
\<close>

fun raisedBy :: "gui_event \<Rightarrow> (main_name \<times> wx_event) list" where
  "raisedBy ClickStart = [(m_button_start, BUTTON_CLICKED)]"
| "raisedBy ClickStop = [(m_button_stop, BUTTON_CLICKED)]"
| "raisedBy (CheckFollowBoat b) = [(m_checkBox_followBoatMode, CHECKBOX_CLICKED)]"
| "raisedBy (ScrollSlider v) =
     map (Pair m_slider_searchBoxSize)
       [SCROLL_TOP, SCROLL_BOTTOM, SCROLL_LINEUP, SCROLL_LINEDOWN, SCROLL_PAGEUP, SCROLL_PAGEDOWN,
        SCROLL_THUMBTRACK, SCROLL_CHANGED]"
| "raisedBy (ReleaseSlider v) = [(m_slider_searchBoxSize, SCROLL_THUMBRELEASE)]"
| "raisedBy (TypeMmsi v) = []"
| "raisedBy (TypeComment t) = []"
| "raisedBy ClickAdd = [(m_button_addMmsiToList, BUTTON_CLICKED)]"
| "raisedBy (CheckActivate b) = [(m_checkBox_activateVesselFollowing, CHECKBOX_CLICKED)]"
| "raisedBy (EditCell row column t) = [(m_dataViewListCtrl_followedVessels, DATAVIEW_ITEM_VALUE_CHANGED)]"
| "raisedBy (ClickDelete sel) = [(m_button_deleteMmsiFromList, BUTTON_CLICKED)]"
| "raisedBy ClickClear = [(m_button_clearMmsiList, BUTTON_CLICKED)]"

fun inWidget :: "gui_event \<Rightarrow> main_gui \<Rightarrow> main_gui" where
  "inWidget (CheckFollowBoat b) w = w\<lparr>w_followBoatMode := b\<rparr>"
| "inWidget (ScrollSlider v) w = w\<lparr>w_sliderValue := v\<rparr>"
| "inWidget (ReleaseSlider v) w = w\<lparr>w_sliderValue := v\<rparr>"
| "inWidget (TypeMmsi v) w = w\<lparr>w_spinMMSI := v\<rparr>"
| "inWidget (TypeComment t) w = w\<lparr>w_mmsiComment := t\<rparr>"
| "inWidget (CheckActivate b) w = w\<lparr>w_activateVesselFollowing := b\<rparr>"
| "inWidget (EditCell row column t) w = storeCell row column t w"
| "inWidget _ w = w"

text \<open>
  The handlers of the main window by the names under which they are connected; what they ask of the
  event or of the control's selection is in the action.
\<close>

definition mainHandler ::
  "wx_api \<Rightarrow> 'j json_api \<Rightarrow> gui_event \<Rightarrow> (string \<times> (settings \<Rightarrow> main_gui \<Rightarrow> handled option)) list" where
  "mainHandler wx js e =
     [(''OnButtonClick_startStream'', \<lambda>g w. Some (Inr (g, OnButtonClick_startStream wx js g w))),
      (''OnButtonClick_stopStream'', \<lambda>g w. Some (Inr (g, OnButtonClick_stopStream w))),
      (''OnCheckBox_FollowBoatMode'',
         \<lambda>g w. case e of CheckFollowBoat b \<Rightarrow> Some (Inr (g, OnCheckBox_FollowBoatMode wx js g b w)) | _ \<Rightarrow> None),
      (''OnScroll_UpdateSearchBoxSize'', \<lambda>g w. Some (Inr (g, OnScroll wx w))),
      (''OnScrollThumbRelease_UpdateSearchBoxSize'', \<lambda>g w. Some (Inr (g, OnScrollThumbRelease wx js g w))),
      (''OnButtonClick_AddMmsiToList'', \<lambda>g w. Some (Inr (AddMmsiToList wx js g w))),
      (''m_checkBox_activateVesselFollowingOnCheckBox'', \<lambda>g w. Some (Inr (OnCheckBox_Activate js g w))),
      (''OnDataViewListCtrlItemValueChanged_updateMmsiList'',
         \<lambda>g w. case e of EditCell row column t \<Rightarrow> updateMmsiList wx js (Some row) column g w | _ \<Rightarrow> None),
      (''OnButtonClick_DeleteMmsiFromList'',
         \<lambda>g w. case e of ClickDelete sel \<Rightarrow> Some (DeleteMmsiFromList js sel g w) | _ \<Rightarrow> None),
      (''OnButtonClick_ClearMmsiList'', \<lambda>g w. Some (Inr (ClearMmsiList js g w)))]"

text \<open>
  An action reaches, by the connections made, the handler with the effect \<open>guiEvent\<close> gives it;
  typing into a field only changes the field.
\<close>

definition reachesHandler ::
  "main_name form \<Rightarrow> wx_api \<Rightarrow> 'j json_api \<Rightarrow> gui_event \<Rightarrow> settings \<Rightarrow> main_gui \<Rightarrow> bool" where
  "reachesHandler f wx js e g w =
     (if raisedBy e = [] then guiEvent wx js e g w = Some (Inr (g, inWidget e w))
      else list_all (\<lambda>(widget, event).
        case handlerRun f widget event of
          None \<Rightarrow> False
        | Some h \<Rightarrow>
            (case map_of (mainHandler wx js e) h of
               None \<Rightarrow> False
             | Some run \<Rightarrow> run g (inWidget e w) = guiEvent wx js e g w)) (raisedBy e))"

end
