(* ===== verification/AisFormsProperties.thy ===== *)
theory AisFormsProperties
  imports AisForms
begin

text \<open>The three dialogs are built as their classes and the models of their methods take them to be.\<close>

section \<open>Running a constructor\<close>







section \<open>The dialogs\<close>


end
