(* ===== verification/IxFrame.thy ===== *)
theory IxFrame
  imports AisPrelude
begin

text \<open>
  The frames of the WebSocket protocol as
  \<open>src/third-party/IXWebSocket/ixwebsocket/IXWebSocketTransport.cpp\<close> writes them
  (\<open>sendFragment\<close>, \<open>appendToSendBuffer\<close>) and reads them back (the head of \<open>dispatch\<close>), byte by
  byte, with the proof that reading inverts writing.
\<close>

unbundle bit_operations_syntax

section \<open>Opcodes\<close>

definition CONTINUATION :: byte where "CONTINUATION = 0"
definition TEXT_FRAME :: byte where "TEXT_FRAME = 1"
definition BINARY_FRAME :: byte where "BINARY_FRAME = 2"
definition CLOSE :: byte where "CLOSE = 8"
definition PING :: byte where "PING = 9"
definition PONG :: byte where "PONG = 10"

lemmas opcode_defs = CONTINUATION_def TEXT_FRAME_def BINARY_FRAME_def CLOSE_def PING_def PONG_def

section \<open>Writing a frame\<close>

definition maskingKey :: "uint32 \<Rightarrow> byte list" where
  "maskingKey x =
     [ucast (drop_bit 24 x), ucast (drop_bit 16 x AND 0xff), ucast (drop_bit 8 x AND 0xff),
      ucast (x AND 0xff)]"

text \<open>The bytes of the message, each combined with the key byte of its position.\<close>

fun maskBytes :: "byte list \<Rightarrow> nat \<Rightarrow> byte list \<Rightarrow> byte list" where
  "maskBytes key i [] = []"
| "maskBytes key i (b # bs) = (b XOR key ! (i mod 4)) # maskBytes key (Suc i) bs"

definition firstByte :: "byte \<Rightarrow> bool \<Rightarrow> bool \<Rightarrow> byte" where
  "firstByte type fin compress =
     (let b = type;
          b = (if fin then b OR 0x80 else b)
      in if compress \<and> type \<noteq> CONTINUATION then b OR 0x40 else b)"

definition frameHeader :: "bool \<Rightarrow> byte \<Rightarrow> bool \<Rightarrow> bool \<Rightarrow> uint64 \<Rightarrow> byte list \<Rightarrow> byte list" where
  "frameHeader useMask type fin compress message_size key =
     (let m = (if useMask then 0x80 else 0);
          k = (if useMask then key else [])
      in firstByte type fin compress #
         (if message_size < 126 then [ucast (message_size AND 0xff) OR m]
          else if message_size < 65536
          then [126 OR m, ucast (drop_bit 8 message_size AND 0xff), ucast (message_size AND 0xff)]
          else [127 OR m,
                ucast (drop_bit 56 message_size AND 0xff), ucast (drop_bit 48 message_size AND 0xff),
                ucast (drop_bit 40 message_size AND 0xff), ucast (drop_bit 32 message_size AND 0xff),
                ucast (drop_bit 24 message_size AND 0xff), ucast (drop_bit 16 message_size AND 0xff),
                ucast (drop_bit 8 message_size AND 0xff), ucast (message_size AND 0xff)]) @ k)"

text \<open>What \<open>sendFragment\<close> appends to the send buffer.\<close>

definition frameBytes :: "bool \<Rightarrow> byte list \<Rightarrow> byte \<Rightarrow> bool \<Rightarrow> bool \<Rightarrow> byte list \<Rightarrow> byte list" where
  "frameBytes useMask key type fin compress message =
     frameHeader useMask type fin compress (of_nat (length message)) key @
     (if useMask then maskBytes key 0 message else message)"

section \<open>Reading a frame\<close>

record wsheader =
  header_size :: nat
  hd_fin :: bool
  hd_rsv1 :: bool
  hd_rsv2 :: bool
  hd_rsv3 :: bool
  hd_opcode :: byte
  hd_mask :: bool
  hd_N0 :: byte
  hd_N :: uint64
  hd_masking_key :: "byte list"

definition headerSize :: "byte \<Rightarrow> bool \<Rightarrow> nat" where
  "headerSize N0 masked =
     2 + (if N0 = 126 then 2 else 0) + (if N0 = 127 then 8 else 0) + (if masked then 4 else 0)"

definition payloadLength :: "byte list \<Rightarrow> byte \<Rightarrow> uint64" where
  "payloadLength data N0 =
     (if N0 < 126 then ucast N0
      else if N0 = 126 then push_bit 8 (ucast (data ! 2)) OR ucast (data ! 3)
      else
        push_bit 56 (ucast (data ! 2)) OR push_bit 48 (ucast (data ! 3)) OR
        push_bit 40 (ucast (data ! 4)) OR push_bit 32 (ucast (data ! 5)) OR
        push_bit 24 (ucast (data ! 6)) OR push_bit 16 (ucast (data ! 7)) OR
        push_bit 8 (ucast (data ! 8)) OR ucast (data ! 9))"

text \<open>The header at the front of the receive buffer; \<open>None\<close> until all of it has arrived.\<close>

definition parseHeader :: "byte list \<Rightarrow> wsheader option" where
  "parseHeader data =
     (if length data < 2 then None
      else
        (let masked = (data ! 1 AND 0x80 = 0x80);
             N0 = data ! 1 AND 0x7f;
             sz = headerSize N0 masked
         in if length data < sz then None
            else Some
              \<lparr>header_size = sz,
               hd_fin = (data ! 0 AND 0x80 = 0x80), hd_rsv1 = (data ! 0 AND 0x40 = 0x40),
               hd_rsv2 = (data ! 0 AND 0x20 = 0x20), hd_rsv3 = (data ! 0 AND 0x10 = 0x10),
               hd_opcode = data ! 0 AND 0x0f, hd_mask = masked, hd_N0 = N0,
               hd_N = payloadLength data N0,
               hd_masking_key = (if masked then take 4 (drop (sz - 4) data) else [0, 0, 0, 0])\<rparr>))"

definition unmaskPayload :: "wsheader \<Rightarrow> byte list \<Rightarrow> byte list" where
  "unmaskPayload ws payload =
     (if hd_mask ws then maskBytes (hd_masking_key ws) 0 payload else payload)"

definition framePayload :: "wsheader \<Rightarrow> byte list \<Rightarrow> byte list" where
  "framePayload ws data = unmaskPayload ws (take (unat (hd_N ws)) (drop (header_size ws) data))"

section \<open>Masking\<close>

lemma length_maskBytes [simp]: "length (maskBytes key i bs) = length bs"
  by (induction key i bs rule: maskBytes.induct) auto

lemma maskBytes_twice [simp]: "maskBytes key i (maskBytes key i bs) = bs"
  by (induction key i bs rule: maskBytes.induct) (auto simp: xor.assoc)

lemma maskBytes_append:
  "maskBytes key i (xs @ ys) = maskBytes key i xs @ maskBytes key (i + length xs) ys"
  by (induction key i xs rule: maskBytes.induct) auto

lemma maskBytes_nth: "j < length bs \<Longrightarrow> maskBytes key i bs ! j = bs ! j XOR key ! ((i + j) mod 4)"
proof (induction key i bs arbitrary: j rule: maskBytes.induct)
  case (2 key i b bs)
  then show ?case by (cases j) auto
qed simp

lemma length_maskingKey [simp]: "length (maskingKey x) = 4"
  by (simp add: maskingKey_def)

section \<open>Lengths\<close>

lemma mask_8: "(0xff :: 'a :: len word) = mask 8"
  by (simp add: mask_eq_exp_minus_1)

lemma byte_of_and [simp]: "(ucast (x AND 0xff :: uint64) :: byte) = ucast x"
  unfolding mask_8 by (rule bit_word_eqI) (auto simp: bit_simps)

lemma join_16:
  assumes "x < 65536"
  shows "push_bit 8 (ucast (ucast (drop_bit 8 x) :: byte)) OR ucast (ucast x :: byte) = (x :: uint64)"
proof (rule bit_word_eqI)
  fix n assume "n < LENGTH(64)"
  have "unat x < 2 ^ 16" using assms by (simp add: word_less_nat_alt)
  then have "unat (take_bit 16 x) = unat x"
    by (simp only: unsigned_take_bit_eq take_bit_nat_eq_self_iff)
  then have "take_bit 16 x = x" by (rule unsigned_word_eqI)
  then have "bit x n \<longleftrightarrow> n < 16 \<and> bit x n" by (metis bit_take_bit_iff)
  then show "bit (push_bit 8 (ucast (ucast (drop_bit 8 x) :: byte)) OR ucast (ucast x :: byte) :: uint64) n = bit x n"
    by (auto simp: bit_simps)
qed

lemma slice_bit:
  assumes "k + 8 \<le> 64"
  shows "bit (push_bit k (ucast (ucast (drop_bit k x) :: byte)) :: uint64) n \<longleftrightarrow>
           k \<le> n \<and> n < k + 8 \<and> bit (x :: uint64) n"
  using assms by (auto simp: bit_simps)

lemma slice_bit_0: "bit (ucast (ucast x :: byte) :: uint64) n \<longleftrightarrow> n < 8 \<and> bit (x :: uint64) n"
  by (auto simp: bit_simps)

lemma join_64:
  "push_bit 56 (ucast (ucast (drop_bit 56 x) :: byte)) OR push_bit 48 (ucast (ucast (drop_bit 48 x) :: byte)) OR
   push_bit 40 (ucast (ucast (drop_bit 40 x) :: byte)) OR push_bit 32 (ucast (ucast (drop_bit 32 x) :: byte)) OR
   push_bit 24 (ucast (ucast (drop_bit 24 x) :: byte)) OR push_bit 16 (ucast (ucast (drop_bit 16 x) :: byte)) OR
   push_bit 8 (ucast (ucast (drop_bit 8 x) :: byte)) OR ucast (ucast x :: byte) = (x :: uint64)"
proof -
  have "(56 \<le> n \<and> n < 56 + 8 \<and> p) \<or> (48 \<le> n \<and> n < 48 + 8 \<and> p) \<or> (40 \<le> n \<and> n < 40 + 8 \<and> p) \<or>
      (32 \<le> n \<and> n < 32 + 8 \<and> p) \<or> (24 \<le> n \<and> n < 24 + 8 \<and> p) \<or> (16 \<le> n \<and> n < 16 + 8 \<and> p) \<or>
      (8 \<le> n \<and> n < 8 + 8 \<and> p) \<or> (n < 8 \<and> p) \<longleftrightarrow> p" if "n < 64" for n :: nat and p
    using that by (cases p; simp; linarith)
  then show ?thesis
    by (intro bit_word_eqI) (simp only: bit_or_iff slice_bit slice_bit_0 len_num0 len_num1 len_bit0 len_bit1 mult_1 refl | simp add: slice_bit slice_bit_0 bit_or_iff)
qed

section \<open>Reading inverts writing\<close>

definition is_opcode :: "byte \<Rightarrow> bool" where
  "is_opcode t \<longleftrightarrow> t \<in> {CONTINUATION, TEXT_FRAME, BINARY_FRAME, CLOSE, PING, PONG}"

lemma firstByte_bits:
  assumes "is_opcode t"
  shows "(firstByte t fin c AND 0x80 = 0x80) = fin" "(firstByte t fin c AND 0x40 = 0x40) = (c \<and> t \<noteq> CONTINUATION)"
    "(firstByte t fin c AND 0x20 = 0x20) = False" "(firstByte t fin c AND 0x10 = 0x10) = False"
    "firstByte t fin c AND 0x0f = t"
  using assms by (auto simp: is_opcode_def firstByte_def opcode_defs Let_def)

lemma bit_80: "bit (0x80 :: byte) n \<longleftrightarrow> n = 7"
proof -
  have "bit (2 ^ 7 :: byte) n \<longleftrightarrow> n = 7" by (auto simp only: bit_exp_iff possible_bit_word) simp
  then show ?thesis by simp
qed

lemma low_byte:
  assumes "(b :: byte) < 0x80"
  shows "b AND 0x80 = 0" "(b OR 0x80) AND 0x80 = 0x80" "(b OR 0x80) AND 0x7f = b" "b AND 0x7f = b"
proof -
  have "unat b < 2 ^ 7" using assms by (simp add: word_less_nat_alt)
  then have "unat (take_bit 7 b) = unat b" by (simp only: unsigned_take_bit_eq take_bit_nat_eq_self_iff)
  then have low: "take_bit 7 b = b" by (rule unsigned_word_eqI)
  then have bits: "bit b n \<Longrightarrow> n < 7" for n by (metis bit_take_bit_iff)
  have m7: "(0x7f :: byte) = mask 7" by (simp add: mask_eq_exp_minus_1)
  show "b AND 0x7f = b" using low by (simp only: m7 take_bit_eq_mask)
  show "b AND 0x80 = 0"
    by (rule bit_word_eqI) (simp only: bit_and_iff bit_80 bit_0_eq, use bits in fastforce)
  show "(b OR 0x80) AND 0x7f = b" 
    unfolding m7
    by (rule bit_word_eqI) (simp only: bit_and_iff bit_or_iff bit_80 bit_mask_iff possible_bit_word, use bits in fastforce)
  show "(b OR 0x80) AND 0x80 = 0x80" 
    by (rule bit_word_eqI) (simp only: bit_and_iff bit_or_iff bit_80, blast)
qed

text \<open>The length field of a frame, in its three forms.\<close>

definition lengthField :: "uint64 \<Rightarrow> byte" where
  "lengthField n = (if n < 126 then ucast n else if n < 65536 then 126 else 127)"

lemma ucast_small:
  assumes "(n :: uint64) < 126"
  shows "(ucast (ucast n :: byte) :: uint64) = n" and "(ucast n :: byte) < 126"
proof -
  have n: "unat n < 126" using assms by (simp add: word_less_nat_alt)
  then have u: "unat (ucast n :: byte) = unat n"
    by (simp add: unsigned_ucast_eq unsigned_take_bit_eq take_bit_nat_eq_self_iff)
  then show "(ucast n :: byte) < 126" using n by (simp add: word_less_nat_alt)
  have "unat (ucast (ucast n :: byte) :: uint64) = unat n"
    using u n by (simp add: unsigned_ucast_eq unsigned_take_bit_eq take_bit_nat_eq_self_iff)
  then show "(ucast (ucast n :: byte) :: uint64) = n" by (rule unsigned_word_eqI)
qed

lemma lengthField_low: "lengthField n < 0x80"
  using ucast_small(2) [of n] by (auto simp: lengthField_def intro: order.strict_trans)

definition lengthBytes :: "uint64 \<Rightarrow> byte list" where
  "lengthBytes n =
     (if n < 126 then []
      else if n < 65536 then [ucast (drop_bit 8 n), ucast n]
      else [ucast (drop_bit 56 n), ucast (drop_bit 48 n), ucast (drop_bit 40 n), ucast (drop_bit 32 n),
            ucast (drop_bit 24 n), ucast (drop_bit 16 n), ucast (drop_bit 8 n), ucast n])"

lemma frameHeader_parts:
  "frameHeader m t fin c n key =
     firstByte t fin c # (if m then lengthField n OR 0x80 else lengthField n) # lengthBytes n @ (if m then key else [])"
  by (simp add: frameHeader_def lengthField_def lengthBytes_def Let_def)

lemma lengthField_cases:
  "lengthField n = 126 \<longleftrightarrow> \<not> n < 126 \<and> n < 65536" "lengthField n = 127 \<longleftrightarrow> \<not> n < 126 \<and> \<not> n < 65536"
  "lengthField n < 126 \<longleftrightarrow> n < 126"
  using ucast_small(2) [of n] by (auto simp: lengthField_def)

lemma headerSize_frame:
  "length key = 4 \<Longrightarrow> headerSize (lengthField n) m = length (frameHeader m t fin c n key)"
  by (simp add: headerSize_def frameHeader_parts lengthBytes_def lengthField_cases)

lemma payloadLength_frame: "payloadLength (b0 # b1 # lengthBytes n @ rest) (lengthField n) = n"
proof -
  have three: "ucast (lengthField n) = n" if "n < 126"
    using that ucast_small(1) by (simp add: lengthField_def)
  consider "n < 126" | "\<not> n < 126" "n < 65536" | "\<not> n < 126" "\<not> n < 65536" by blast
  then show ?thesis
  proof cases
    case 1
    then show ?thesis by (simp add: payloadLength_def lengthField_cases three)
  next
    case 2
    then have "payloadLength (b0 # b1 # lengthBytes n @ rest) (lengthField n) =
        push_bit 8 (ucast (ucast (drop_bit 8 n) :: byte)) OR ucast (ucast n :: byte)"
      by (simp add: payloadLength_def lengthField_cases lengthBytes_def)
    with join_16 [OF 2(2)] show ?thesis by simp
  next
    case 3
    then have field: "lengthField n = 127" "\<not> lengthField n < 126" by (simp_all add: lengthField_def)
    have "payloadLength (b0 # b1 # lengthBytes n @ rest) 127 =
        push_bit 56 (ucast (ucast (drop_bit 56 n) :: byte)) OR push_bit 48 (ucast (ucast (drop_bit 48 n) :: byte)) OR
        push_bit 40 (ucast (ucast (drop_bit 40 n) :: byte)) OR push_bit 32 (ucast (ucast (drop_bit 32 n) :: byte)) OR
        push_bit 24 (ucast (ucast (drop_bit 24 n) :: byte)) OR push_bit 16 (ucast (ucast (drop_bit 16 n) :: byte)) OR
        push_bit 8 (ucast (ucast (drop_bit 8 n) :: byte)) OR ucast (ucast n :: byte)"
      using 3 by (simp add: payloadLength_def lengthBytes_def)
    then show ?thesis unfolding field join_64 .
  qed
qed

text \<open>
  A frame at the front of the buffer is read as it was written: its flags, opcode and payload
  come back, and what is left is what follows it.
\<close>

lemma parseHeader_frame:
  assumes "is_opcode t" and "length key = 4" and "length msg < 2 ^ 63"
    and data_def: "data = frameBytes m key t fin c msg @ rest"
  shows "\<exists>ws. parseHeader data = Some ws \<and> hd_fin ws = fin \<and> hd_rsv1 ws = (c \<and> t \<noteq> CONTINUATION) \<and>
           \<not> hd_rsv2 ws \<and> \<not> hd_rsv3 ws \<and> hd_opcode ws = t \<and> unat (hd_N ws) = length msg \<and>
           header_size ws + length msg = length (frameBytes m key t fin c msg) \<and> framePayload ws data = msg"
proof -
  define n :: uint64 where "n = of_nat (length msg)"
  define hdr where "hdr = frameHeader m t fin c n key"
  define body where "body = (if m then maskBytes key 0 msg else msg)"
  have data: "data = hdr @ body @ rest" by (simp add: data_def frameBytes_def hdr_def body_def n_def)
  have n: "unat n = length msg"
    using assms(3) by (simp add: n_def unat_of_nat take_bit_nat_eq_self_iff)
  define b1 where "b1 = (if m then lengthField n OR 0x80 else lengthField n)"
  have hdr: "hdr = firstByte t fin c # b1 # lengthBytes n @ (if m then key else [])"
    by (simp add: hdr_def frameHeader_parts b1_def)
  have b1: "(b1 AND 0x80 = 0x80) = m" "b1 AND 0x7f = lengthField n"
    using low_byte [OF lengthField_low [of n]] by (auto simp: b1_def)
  have size: "headerSize (lengthField n) m = length hdr"
    unfolding hdr_def by (rule headerSize_frame [OF assms(2)])
  have first: "data ! 0 = firstByte t fin c" "data ! 1 = b1" by (simp_all add: data hdr)
  have "2 \<le> length data" "length hdr \<le> length data" by (simp_all add: data hdr)
  have N: "payloadLength data (lengthField n) = n"
    using payloadLength_frame [of "firstByte t fin c" b1 n "(if m then key else []) @ body @ rest"]
    by (simp add: data hdr)
  have key: "(if m then take 4 (drop (length hdr - 4) data) else [0, 0, 0, 0]) = (if m then key else [0, 0, 0, 0])"
    using assms(2) by (simp add: data hdr)
  define ws where "ws = \<lparr>header_size = length hdr, hd_fin = fin, hd_rsv1 = (c \<and> t \<noteq> CONTINUATION),
      hd_rsv2 = False, hd_rsv3 = False, hd_opcode = t, hd_mask = m, hd_N0 = lengthField n, hd_N = n,
      hd_masking_key = (if m then key else [0, 0, 0, 0])\<rparr>"
  have parse: "parseHeader data = Some ws"
    unfolding parseHeader_def Let_def first b1 size N key firstByte_bits [OF assms(1)] ws_def
    using \<open>2 \<le> length data\<close> \<open>length hdr \<le> length data\<close> by simp
  note ws = ws_def
  have "framePayload ws data = msg"
    by (simp add: framePayload_def unmaskPayload_def ws n) (simp add: data body_def)
  moreover have "header_size ws + length msg = length (frameBytes m key t fin c msg)"
    by (simp add: ws frameBytes_def hdr_def n_def)
  ultimately show ?thesis using parse n by (intro exI [of _ ws]) (simp add: ws)
qed

end
