(* ===== verification/IxUtf8.thy ===== *)
theory IxUtf8
  imports AisPrelude
begin

text \<open>
  The UTF-8 validator of the WebSocket library
  (\<open>src/third-party/IXWebSocket/ixwebsocket/IXUtf8Validator.h\<close>): its table, the automaton, and
  the proof that it accepts the byte sequences that RFC 3629 calls well formed.
\<close>

section \<open>The automaton\<close>

definition utf8_accept :: nat where
  "utf8_accept = 0"

definition utf8_reject :: nat where
  "utf8_reject = 1"

definition utf8d :: "nat list" where
  "utf8d =
     [0, 0, 0, 0, 0, 0, 0, 0, 0, 0, 0, 0, 0, 0, 0, 0,
      0, 0, 0, 0, 0, 0, 0, 0, 0, 0, 0, 0, 0, 0, 0, 0,
      0, 0, 0, 0, 0, 0, 0, 0, 0, 0, 0, 0, 0, 0, 0, 0,
      0, 0, 0, 0, 0, 0, 0, 0, 0, 0, 0, 0, 0, 0, 0, 0,
      0, 0, 0, 0, 0, 0, 0, 0, 0, 0, 0, 0, 0, 0, 0, 0,
      0, 0, 0, 0, 0, 0, 0, 0, 0, 0, 0, 0, 0, 0, 0, 0,
      0, 0, 0, 0, 0, 0, 0, 0, 0, 0, 0, 0, 0, 0, 0, 0,
      0, 0, 0, 0, 0, 0, 0, 0, 0, 0, 0, 0, 0, 0, 0, 0,
      1, 1, 1, 1, 1, 1, 1, 1, 1, 1, 1, 1, 1, 1, 1, 1,
      9, 9, 9, 9, 9, 9, 9, 9, 9, 9, 9, 9, 9, 9, 9, 9,
      7, 7, 7, 7, 7, 7, 7, 7, 7, 7, 7, 7, 7, 7, 7, 7,
      7, 7, 7, 7, 7, 7, 7, 7, 7, 7, 7, 7, 7, 7, 7, 7,
      8, 8, 2, 2, 2, 2, 2, 2, 2, 2, 2, 2, 2, 2, 2, 2,
      2, 2, 2, 2, 2, 2, 2, 2, 2, 2, 2, 2, 2, 2, 2, 2,
      10, 3, 3, 3, 3, 3, 3, 3, 3, 3, 3, 3, 3, 4, 3, 3,
      11, 6, 6, 6, 5, 8, 8, 8, 8, 8, 8, 8, 8, 8, 8, 8,
      0, 1, 2, 3, 5, 8, 7, 1, 1, 1, 4, 6, 1, 1, 1, 1,
      1, 1, 1, 1, 1, 1, 1, 1, 1, 1, 1, 1, 1, 1, 1, 1,
      1, 0, 1, 1, 1, 1, 1, 0, 1, 0, 1, 1, 1, 1, 1, 1,
      1, 2, 1, 1, 1, 1, 1, 2, 1, 2, 1, 1, 1, 1, 1, 1,
      1, 1, 1, 1, 1, 1, 1, 2, 1, 1, 1, 1, 1, 1, 1, 1,
      1, 2, 1, 1, 1, 1, 1, 1, 1, 2, 1, 1, 1, 1, 1, 1,
      1, 1, 1, 1, 1, 1, 1, 3, 1, 3, 1, 1, 1, 1, 1, 1,
      1, 3, 1, 1, 1, 1, 1, 3, 1, 3, 1, 1, 1, 1, 1, 1,
      1, 3, 1, 1, 1, 1, 1, 1, 1, 1, 1, 1, 1, 1, 1, 1]"

text \<open>The state and the code point after one more byte.\<close>

definition decodeNextByte :: "nat \<times> uint32 \<Rightarrow> byte \<Rightarrow> nat \<times> uint32" where
  "decodeNextByte sc b =
     (let (state, codep) = sc;
          type = utf8d ! unat b;
          codep = (if state \<noteq> utf8_accept
                   then or (and (ucast b) 0x3f) (push_bit 6 codep)
                   else and (drop_bit type 0xff) (ucast b))
      in (utf8d ! (256 + state * 16 + type), codep))"

fun decode :: "nat \<times> uint32 \<Rightarrow> byte list \<Rightarrow> (nat \<times> uint32) \<times> bool" where
  "decode sc [] = (sc, True)"
| "decode sc (b # bs) =
     (let sc' = decodeNextByte sc b in
      if fst sc' = utf8_reject then (sc', False) else decode sc' bs)"

definition validateUtf8 :: "byte list \<Rightarrow> bool" where
  "validateUtf8 s =
     (let (sc, ok) = decode (utf8_accept, 0) s in
      if \<not> ok then False else fst sc = utf8_accept)"

section \<open>Well-formed UTF-8\<close>

text \<open>The byte sequences of RFC 3629, section 4.\<close>

definition utf8_tail :: "nat \<Rightarrow> bool" where
  "utf8_tail b \<longleftrightarrow> 0x80 \<le> b \<and> b \<le> 0xBF"

fun wf_utf8 :: "nat list \<Rightarrow> bool" where
  "wf_utf8 [] = True"
| "wf_utf8 (a # r) =
     (if a \<le> 0x7F then wf_utf8 r
      else case r of
        [] \<Rightarrow> False
      | b # r2 \<Rightarrow>
          if 0xC2 \<le> a \<and> a \<le> 0xDF then utf8_tail b \<and> wf_utf8 r2
          else case r2 of
            [] \<Rightarrow> False
          | c # r3 \<Rightarrow>
              if a = 0xE0 then 0xA0 \<le> b \<and> b \<le> 0xBF \<and> utf8_tail c \<and> wf_utf8 r3
              else if a = 0xED then 0x80 \<le> b \<and> b \<le> 0x9F \<and> utf8_tail c \<and> wf_utf8 r3
              else if 0xE1 \<le> a \<and> a \<le> 0xEF then utf8_tail b \<and> utf8_tail c \<and> wf_utf8 r3
              else case r3 of
                [] \<Rightarrow> False
              | d # r4 \<Rightarrow>
                  if a = 0xF0 then 0x90 \<le> b \<and> b \<le> 0xBF \<and> utf8_tail c \<and> utf8_tail d \<and> wf_utf8 r4
                  else if 0xF1 \<le> a \<and> a \<le> 0xF3
                  then utf8_tail b \<and> utf8_tail c \<and> utf8_tail d \<and> wf_utf8 r4
                  else if a = 0xF4 then 0x80 \<le> b \<and> b \<le> 0x8F \<and> utf8_tail c \<and> utf8_tail d \<and> wf_utf8 r4
                  else False)"

section \<open>The table\<close>

text \<open>The class of a byte, and the transitions, written out.\<close>

definition byteClass :: "nat \<Rightarrow> nat" where
  "byteClass b =
     (if b < 0x80 then 0 else if b < 0x90 then 1 else if b < 0xA0 then 9 else if b < 0xC0 then 7
      else if b < 0xC2 then 8 else if b < 0xE0 then 2 else if b = 0xE0 then 10
      else if b = 0xED then 4 else if b < 0xF0 then 3 else if b = 0xF0 then 11
      else if b < 0xF4 then 6 else if b = 0xF4 then 5 else 8)"

definition nextState :: "nat \<Rightarrow> nat \<Rightarrow> nat" where
  "nextState s t =
     (if s = 0 then (if t = 0 then 0 else if t = 2 then 2 else if t = 3 then 3 else if t = 4 then 5
                     else if t = 5 then 8 else if t = 6 then 7 else if t = 10 then 4
                     else if t = 11 then 6 else 1)
      else if s = 2 then (if t \<in> {1, 7, 9} then 0 else 1)
      else if s = 3 then (if t \<in> {1, 7, 9} then 2 else 1)
      else if s = 4 then (if t = 7 then 2 else 1)
      else if s = 5 then (if t \<in> {1, 9} then 2 else 1)
      else if s = 6 then (if t \<in> {7, 9} then 3 else 1)
      else if s = 7 then (if t \<in> {1, 7, 9} then 3 else 1)
      else if s = 8 then (if t = 1 then 3 else 1) else 1)"

lemma utf8d_class_table: "take 256 utf8d = map byteClass [0..<256]"
  by code_simp

lemma utf8d_state_table:
  "drop 256 utf8d = concat (map (\<lambda>s. map (nextState s) [0..<16]) [0..<9])"
  by code_simp

lemma utf8d_class: "b < 256 \<Longrightarrow> utf8d ! b = byteClass b"
  using arg_cong [OF utf8d_class_table, of "\<lambda>xs. xs ! b"] by simp

lemma nth_concat_rows:
  "\<forall>xs \<in> set xss. length xs = k \<Longrightarrow> i < length xss \<Longrightarrow> j < k \<Longrightarrow> concat xss ! (i * k + j) = xss ! i ! j"
proof (induction xss arbitrary: i)
  case (Cons xs xss)
  then show ?case by (cases i) (auto simp: nth_append)
qed simp

lemma utf8d_state:
  assumes "s < 9" and "t < 16"
  shows "utf8d ! (256 + s * 16 + t) = nextState s t"
proof -
  have "256 \<le> length utf8d" by (simp add: utf8d_def)
  then have "utf8d ! (256 + s * 16 + t) = drop 256 utf8d ! (s * 16 + t)"
    by (simp add: add.assoc)
  also have "\<dots> = map (\<lambda>s. map (nextState s) [0..<16]) [0..<9] ! s ! t"
    unfolding utf8d_state_table using assms by (intro nth_concat_rows) auto
  also have "\<dots> = nextState s t" using assms by simp
  finally show ?thesis .
qed

lemma byteClass_bound: "byteClass b < 16"
  by (simp add: byteClass_def)

lemma decodeNextByte_state:
  assumes "s < 9"
  shows "fst (decodeNextByte (s, cp) b) = nextState s (byteClass (unat b))"
proof -
  show ?thesis
    by (simp add: decodeNextByte_def Let_def utf8d_class utf8d_state [OF assms byteClass_bound])
qed

section \<open>Correctness\<close>

text \<open>Whether the automaton, from a state, accepts the rest of the bytes.\<close>

definition accepts :: "nat \<Rightarrow> byte list \<Rightarrow> bool" where
  "accepts s bs = (\<exists>cp sc. decode (s, cp) bs = (sc, True) \<and> fst sc = 0)"

lemma decode_codepoint_irrelevant:
  "s < 9 \<Longrightarrow> fst (fst (decode (s, cp) bs)) = fst (fst (decode (s, cp') bs)) \<and>
     snd (decode (s, cp) bs) = snd (decode (s, cp') bs)"
proof (induction bs arbitrary: s cp cp')
  case (Cons b bs)
  define s' where "s' = nextState s (byteClass (unat b))"
  obtain c1 where d1: "decodeNextByte (s, cp) b = (s', c1)"
    using decodeNextByte_state [OF Cons.prems, of cp b] by (metis prod.collapse s'_def)
  obtain c2 where d2: "decodeNextByte (s, cp') b = (s', c2)"
    using decodeNextByte_state [OF Cons.prems, of cp' b] by (metis prod.collapse s'_def)
  have "s' < 9" by (simp add: s'_def nextState_def)
  from Cons.IH [OF this, of c1 c2] show ?case by (simp add: d1 d2 Let_def)
qed simp

lemma validateUtf8_accepts: "validateUtf8 bs = accepts 0 bs"
proof -
  obtain s c ok where d: "decode (0, 0) bs = ((s, c), ok)" by (metis prod.collapse)
  have "accepts 0 bs \<longleftrightarrow> (ok \<and> s = 0)"
  proof
    assume "accepts 0 bs"
    then obtain cp sc where "decode (0, cp) bs = (sc, True)" "fst sc = 0" by (auto simp: accepts_def)
    with decode_codepoint_irrelevant [of 0 0 bs cp] d show "ok \<and> s = 0" by simp
  next
    assume "ok \<and> s = 0"
    with d show "accepts 0 bs" unfolding accepts_def by (intro exI [of _ 0] exI [of _ "(s, c)"]) simp
  qed
  then show ?thesis by (simp add: validateUtf8_def utf8_accept_def d)
qed

lemma accepts_Nil [simp]: "accepts s [] = (s = 0)"
  by (simp add: accepts_def)

lemma accepts_Cons:
  assumes "s < 9"
  shows "accepts s (b # bs) = (let s' = nextState s (byteClass (unat b)) in s' \<noteq> 1 \<and> accepts s' bs)"
proof -
  define s' where "s' = nextState s (byteClass (unat b))"
  have "s' < 9" by (simp add: s'_def nextState_def)
  have next_state: "\<exists>c. decodeNextByte (s, cp) b = (s', c)" for cp
    using decodeNextByte_state [OF assms, of cp b] by (metis prod.collapse s'_def)
  have "accepts s (b # bs) \<longleftrightarrow> s' \<noteq> 1 \<and> accepts s' bs"
  proof
    assume "accepts s (b # bs)"
    then obtain cp sc where d: "decode (s, cp) (b # bs) = (sc, True)" "fst sc = 0" by (auto simp: accepts_def)
    from next_state [of cp] obtain c where "decodeNextByte (s, cp) b = (s', c)" ..
    with d show "s' \<noteq> 1 \<and> accepts s' bs" by (cases sc) (auto simp: accepts_def utf8_reject_def Let_def split: if_splits)
  next
    assume a: "s' \<noteq> 1 \<and> accepts s' bs"
    then obtain cp sc where d: "decode (s', cp) bs = (sc, True)" "fst sc = 0" by (auto simp: accepts_def)
    from next_state [of 0] obtain c where c: "decodeNextByte (s, 0) b = (s', c)" ..
    from decode_codepoint_irrelevant [OF \<open>s' < 9\<close>, of c bs cp] d
    have "snd (decode (s', c) bs)" "fst (fst (decode (s', c) bs)) = 0" by simp_all
    then have "decode (s, 0) (b # bs) = (fst (decode (s', c) bs), True)"
      using a by (simp add: c utf8_reject_def Let_def prod_eq_iff)
    with \<open>fst (fst (decode (s', c) bs)) = 0\<close> show "accepts s (b # bs)"
      unfolding accepts_def by blast
  qed
  then show ?thesis by (simp add: s'_def Let_def)
qed

text \<open>The languages of the states other than the start.\<close>

definition after_byte :: "(nat \<Rightarrow> bool) \<Rightarrow> (byte list \<Rightarrow> bool) \<Rightarrow> byte list \<Rightarrow> bool" where
  "after_byte p L bs = (case bs of [] \<Rightarrow> False | b # r \<Rightarrow> p (unat b) \<and> L r)"

lemma after_byte_Cons [simp]: "after_byte p L (b # r) = (p (unat b) \<and> L r)"
  and after_byte_Nil [simp]: "after_byte p L [] = False"
  by (simp_all add: after_byte_def)

lemma byteClass_ranges:
  "(byteClass b = 1) = (0x80 \<le> b \<and> b \<le> 0x8F)" "(byteClass b = 9) = (0x90 \<le> b \<and> b \<le> 0x9F)"
  "(byteClass b = 7) = (0xA0 \<le> b \<and> b \<le> 0xBF)"
  by (auto simp: byteClass_def)

lemma byteClass_tails:
  "(byteClass b \<in> {1, 7, 9}) = utf8_tail b"
  "(byteClass b \<in> {1, 9}) = (0x80 \<le> b \<and> b \<le> 0x9F)"
  "(byteClass b \<in> {7, 9}) = (0x90 \<le> b \<and> b \<le> 0xBF)"
  unfolding insert_iff byteClass_ranges utf8_tail_def by auto

lemma nextState_later:
  "nextState 2 (byteClass b) = (if utf8_tail b then 0 else 1)"
  "nextState 3 (byteClass b) = (if utf8_tail b then 2 else 1)"
  "nextState 4 (byteClass b) = (if 0xA0 \<le> b \<and> b \<le> 0xBF then 2 else 1)"
  "nextState 5 (byteClass b) = (if 0x80 \<le> b \<and> b \<le> 0x9F then 2 else 1)"
  "nextState 6 (byteClass b) = (if 0x90 \<le> b \<and> b \<le> 0xBF then 3 else 1)"
  "nextState 7 (byteClass b) = (if utf8_tail b then 3 else 1)"
  "nextState 8 (byteClass b) = (if 0x80 \<le> b \<and> b \<le> 0x8F then 3 else 1)"
  unfolding nextState_def byteClass_tails byteClass_ranges by simp_all

lemma accepts_step:
  assumes "s < 9" and "nextState s (byteClass (unat b)) = (if p (unat b) then s' else 1)" and "s' \<noteq> 1"
  shows "accepts s (b # r) = after_byte p (accepts s') (b # r)"
  using assms(3) by (simp add: accepts_Cons [OF assms(1)] assms(2) Let_def)

lemma accepts_states:
  "accepts 2 bs = after_byte utf8_tail (accepts 0) bs"
  "accepts 3 bs = after_byte utf8_tail (accepts 2) bs"
  "accepts 4 bs = after_byte (\<lambda>b. 0xA0 \<le> b \<and> b \<le> 0xBF) (accepts 2) bs"
  "accepts 5 bs = after_byte (\<lambda>b. 0x80 \<le> b \<and> b \<le> 0x9F) (accepts 2) bs"
  "accepts 6 bs = after_byte (\<lambda>b. 0x90 \<le> b \<and> b \<le> 0xBF) (accepts 3) bs"
  "accepts 7 bs = after_byte utf8_tail (accepts 3) bs"
  "accepts 8 bs = after_byte (\<lambda>b. 0x80 \<le> b \<and> b \<le> 0x8F) (accepts 3) bs"
  by (cases bs, simp, simp only:, rule accepts_step, simp, rule nextState_later, simp)+

lemma accepts_0:
  "accepts 0 (a # r) =
     (let a = unat a in
      if a \<le> 0x7F then accepts 0 r
      else if 0xC2 \<le> a \<and> a \<le> 0xDF then accepts 2 r
      else if a = 0xE0 then accepts 4 r
      else if a = 0xED then accepts 5 r
      else if 0xE1 \<le> a \<and> a \<le> 0xEF then accepts 3 r
      else if a = 0xF0 then accepts 6 r
      else if 0xF1 \<le> a \<and> a \<le> 0xF3 then accepts 7 r
      else if a = 0xF4 then accepts 8 r else False)"
  by (auto simp: accepts_Cons Let_def nextState_def byteClass_def)

lemma accepts_wf: "accepts 0 bs = wf_utf8 (map unat bs)"
proof (induction "length bs" arbitrary: bs rule: less_induct)
  case less
  note IH = less
  show ?case
  proof (cases bs)
    case (Cons a r)
    have IH1: "accepts 0 r = wf_utf8 (map unat r)" using IH [of r] Cons by simp
    have IH2: "accepts 0 r2 = wf_utf8 (map unat r2)" if "r = b # r2" for b r2 using IH [of r2] that Cons by simp
    have IH3: "accepts 0 r3 = wf_utf8 (map unat r3)" if "r = b # c # r3" for b c r3 using IH [of r3] that Cons by simp
    have IH4: "accepts 0 r4 = wf_utf8 (map unat r4)" if "r = b # c # d # r4" for b c d r4 using IH [of r4] that Cons by simp
    show ?thesis
      unfolding Cons accepts_0 Let_def
      by (auto simp: accepts_states after_byte_def IH1 IH2 IH3 IH4 split: list.splits)
  qed simp
qed

lemma validateUtf8_wf: "validateUtf8 bs = wf_utf8 (map unat bs)"
  by (simp add: validateUtf8_accepts accepts_wf)

lemma wf_utf8_ascii: "\<forall>b \<in> set bs. b \<le> 0x7F \<Longrightarrow> wf_utf8 bs"
  by (induction bs) auto

end
