(* ===== verification/IxTransport.thy ===== *)
theory IxTransport
  imports IxFrame IxUtf8
begin

text \<open>
  The connection of the WebSocket library, on the client's side
  (\<open>src/third-party/IXWebSocket/ixwebsocket/IXWebSocketTransport.cpp\<close>): sending and flushing,
  receiving and dispatching frames, the closing handshake, and the ready state. The socket,
  the clocks and the compression library are parameters; the two callbacks are recorded in
  \<open>t_out\<close> in the order in which they are called.
\<close>

section \<open>What the transport calls\<close>

datatype PollResultType =
  PollReadyForRead | PollReadyForWrite | PollTimeout | PollError | PollSendRequest | PollCloseRequest

datatype wakeup = kSendRequest | kCloseRequest

text \<open>
  \<open>sk_recv\<close> returns \<open>Inl\<close> a result that is not positive or \<open>Inr\<close> the bytes received;
  \<open>sk_isWaitNeeded\<close> is \<open>Socket::isWaitNeeded\<close>, which looks at the error of the last call.
  \<open>sk_isReadyToRead\<close> and \<open>sk_isReadyToWrite\<close> are \<open>None\<close> where they wait for ever: without a time limit, as
  long as nothing happens.
  \<open>sk_now\<close> is the steady clock in milliseconds, \<open>sk_seconds\<close> the system clock in seconds.
  \<open>IxSocket\<close> models the sockets of the library.
\<close>

record 'k sock_api =
  sk_send :: "byte list \<Rightarrow> 'k \<Rightarrow> int \<times> 'k"
  sk_recv :: "nat \<Rightarrow> 'k \<Rightarrow> (int + byte list) \<times> 'k"
  sk_isWaitNeeded :: "'k \<Rightarrow> bool"
  sk_close :: "'k \<Rightarrow> 'k"
  sk_isReadyToRead :: "int \<Rightarrow> 'k \<Rightarrow> (PollResultType \<times> 'k) option"
  sk_isReadyToWrite :: "int \<Rightarrow> 'k \<Rightarrow> (PollResultType \<times> 'k) option"
  sk_wakeUpFromPoll :: "wakeup \<Rightarrow> 'k \<Rightarrow> 'k"
  sk_isWakeUpFromPollSupported :: "'k \<Rightarrow> bool"
  sk_now :: "'k \<Rightarrow> int"
  sk_seconds :: "'k \<Rightarrow> uint32"
  sk_compress :: "byte list \<Rightarrow> byte list option"
  sk_decompress :: "byte list \<Rightarrow> bool \<times> byte list"

section \<open>Constants\<close>

definition bytes_of :: "string \<Rightarrow> byte list" where
  "bytes_of s = map (\<lambda>c. of_nat (of_char c)) s"

definition kNormalClosureCode :: uint16 where "kNormalClosureCode = 1000"
definition kInternalErrorCode :: uint16 where "kInternalErrorCode = 1011"
definition kAbnormalCloseCode :: uint16 where "kAbnormalCloseCode = 1006"
definition kInvalidFramePayloadData :: uint16 where "kInvalidFramePayloadData = 1007"
definition kProtocolErrorCode :: uint16 where "kProtocolErrorCode = 1002"
definition kNoStatusCodeErrorCode :: uint16 where "kNoStatusCodeErrorCode = 1005"

lemmas close_codes = kNormalClosureCode_def kInternalErrorCode_def kAbnormalCloseCode_def
  kInvalidFramePayloadData_def kProtocolErrorCode_def kNoStatusCodeErrorCode_def

definition kNormalClosureMessage :: "byte list" where
  "kNormalClosureMessage = bytes_of ''Normal closure''"

definition kInternalErrorMessage :: "byte list" where
  "kInternalErrorMessage = bytes_of ''Internal error''"

definition kAbnormalCloseMessage :: "byte list" where
  "kAbnormalCloseMessage = bytes_of ''Abnormal closure''"

definition kPingTimeoutMessage :: "byte list" where
  "kPingTimeoutMessage = bytes_of ''Ping timeout''"

definition kSendTimeoutMessage :: "byte list" where
  "kSendTimeoutMessage = bytes_of ''Send timeout''"

definition kProtocolErrorMessage :: "byte list" where
  "kProtocolErrorMessage = bytes_of ''Protocol error''"

definition kNoStatusCodeErrorMessage :: "byte list" where
  "kNoStatusCodeErrorMessage = bytes_of ''No status code''"

definition kProtocolErrorReservedBitUsed :: "byte list" where
  "kProtocolErrorReservedBitUsed = bytes_of ''Reserved bit used''"

definition kProtocolErrorPingPayloadOversized :: "byte list" where
  "kProtocolErrorPingPayloadOversized =
     bytes_of ''Ping reason control frame with payload length > 125 octets''"

definition kProtocolErrorCodeControlMessageFragmented :: "byte list" where
  "kProtocolErrorCodeControlMessageFragmented = bytes_of ''Control message fragmented''"

definition kProtocolErrorCodeDataOpcodeOutOfSequence :: "byte list" where
  "kProtocolErrorCodeDataOpcodeOutOfSequence =
     bytes_of ''Fragmentation: data message out of sequence''"

definition kProtocolErrorCodeContinuationOpCodeOutOfSequence :: "byte list" where
  "kProtocolErrorCodeContinuationOpCodeOutOfSequence =
     bytes_of ''Fragmentation: continuation opcode out of sequence''"

definition kInvalidFramePayloadDataMessage :: "byte list" where
  "kInvalidFramePayloadDataMessage = bytes_of ''Invalid frame payload data''"

definition kInvalidCloseCodeMessage :: "byte list" where
  "kInvalidCloseCodeMessage = bytes_of ''Invalid close code''"

definition kChunkSize :: nat where
  "kChunkSize = 2 ^ 15"

definition kClosingMaximumWaitingDelayInMs :: int where
  "kClosingMaximumWaitingDelayInMs = 300"

section \<open>State\<close>

datatype ReadyState = CLOSING | CLOSED | CONNECTING | OPEN

datatype MessageKind = MSG_TEXT | MSG_BINARY | MSG_PING | MSG_PONG | FRAGMENT

datatype PollResult = Succeeded | AbnormalClose | CannotFlushSendBuffer

datatype SendMessageKind = SendText | SendBinary | SendPing

text \<open>
  The two callbacks: a message with its size on the wire, whether decompression failed and its
  kind; and a closure with code, reason, size on the wire and whether the peer closed.
\<close>

datatype ix_out =
    OutMessage "byte list" nat bool MessageKind
  | OutClose uint16 "byte list" nat bool

record 'k transport =
  t_useMask :: bool
  t_sendTimeoutSecs :: int
  t_rxbuf :: "byte list"
  t_rxbufWanted :: uint64
  t_txbuf :: "byte list"
  t_chunks :: "byte list list"
  t_fragmentedMessageKind :: MessageKind
  t_receivedMessageCompressed :: bool
  t_socket :: 'k
  t_readyState :: ReadyState
  t_closeReason :: "byte list"
  t_closeCode :: uint16
  t_closeWireSize :: nat
  t_closeRemote :: bool
  t_enablePerMessageDeflate :: bool
  t_requestInitCancellation :: bool
  t_closingTimePoint :: int
  t_enablePong :: bool
  t_pingIntervalSecs :: int
  t_pongReceived :: bool
  t_setCustomMessage :: bool
  t_kPingMessage :: "byte list"
  t_pingType :: SendMessageKind
  t_pingCount :: uint64
  t_lastSendPingTimePoint :: int
  t_out :: "ix_out list"

text \<open>
  The constructor. \<open>_blockingSend\<close> is only set by \<open>connectToSocket\<close>, the server's entry, and
  is false throughout on a client.
\<close>

definition transport_init :: "'k sock_api \<Rightarrow> 'k \<Rightarrow> 'k transport" where
  "transport_init sk k =
     \<lparr>t_useMask = True, t_sendTimeoutSecs = - 1, t_rxbuf = [], t_rxbufWanted = 0, t_txbuf = [],
      t_chunks = [], t_fragmentedMessageKind = MSG_TEXT, t_receivedMessageCompressed = False,
      t_socket = k, t_readyState = CLOSED, t_closeReason = kInternalErrorMessage,
      t_closeCode = kInternalErrorCode, t_closeWireSize = 0, t_closeRemote = False,
      t_enablePerMessageDeflate = False, t_requestInitCancellation = False,
      t_closingTimePoint = sk_now sk k, t_enablePong = True, t_pingIntervalSecs = - 1,
      t_pongReceived = False, t_setCustomMessage = False,
      t_kPingMessage = bytes_of ''ixwebsocket::heartbeat'', t_pingType = SendPing, t_pingCount = 0,
      t_lastSendPingTimePoint = sk_now sk k, t_out = []\<rparr>"

definition setPingMessage :: "byte list \<Rightarrow> SendMessageKind \<Rightarrow> 'k transport \<Rightarrow> 'k transport" where
  "setPingMessage message pingType t =
     t\<lparr>t_setCustomMessage := True, t_kPingMessage := message, t_pingType := pingType\<rparr>"

definition configure :: "bool \<Rightarrow> bool \<Rightarrow> int \<Rightarrow> 'k transport \<Rightarrow> 'k transport" where
  "configure deflateEnabled enablePong pingIntervalSecs t =
     t\<lparr>t_enablePerMessageDeflate := deflateEnabled, t_enablePong := enablePong,
       t_pingIntervalSecs := pingIntervalSecs\<rparr>"

section \<open>Ready state and socket\<close>

definition setReadyState :: "'k sock_api \<Rightarrow> ReadyState \<Rightarrow> 'k transport \<Rightarrow> 'k transport" where
  "setReadyState sk rs t =
     (if t_readyState t = rs then t
      else if rs = CLOSED then
        t\<lparr>t_out := t_out t @ [OutClose (t_closeCode t) (t_closeReason t) (t_closeWireSize t) (t_closeRemote t)],
          t_closeReason := kInternalErrorMessage, t_closeCode := kInternalErrorCode,
          t_closeWireSize := 0, t_closeRemote := False, t_readyState := CLOSED\<rparr>
      else if rs = OPEN then
        t\<lparr>t_lastSendPingTimePoint := sk_now sk (t_socket t), t_pongReceived := False,
          t_readyState := OPEN\<rparr>
      else t\<lparr>t_readyState := rs\<rparr>)"

definition closeSocket :: "'k sock_api \<Rightarrow> 'k transport \<Rightarrow> 'k transport" where
  "closeSocket sk t = t\<lparr>t_socket := sk_close sk (t_socket t)\<rparr>"

definition wakeUpFromPoll :: "'k sock_api \<Rightarrow> wakeup \<Rightarrow> 'k transport \<Rightarrow> 'k transport" where
  "wakeUpFromPoll sk c t = t\<lparr>t_socket := sk_wakeUpFromPoll sk c (t_socket t)\<rparr>"

definition setCloseInfo :: "uint16 \<Rightarrow> byte list \<Rightarrow> nat \<Rightarrow> bool \<Rightarrow> 'k transport \<Rightarrow> 'k transport" where
  "setCloseInfo code reason wireSize remote t =
     t\<lparr>t_closeReason := reason, t_closeCode := code, t_closeWireSize := wireSize,
       t_closeRemote := remote\<rparr>"

definition closeSocketAndSwitchToClosedState ::
  "'k sock_api \<Rightarrow> uint16 \<Rightarrow> byte list \<Rightarrow> nat \<Rightarrow> bool \<Rightarrow> 'k transport \<Rightarrow> 'k transport" where
  "closeSocketAndSwitchToClosedState sk code reason wireSize remote t =
     (setReadyState sk CLOSED (setCloseInfo code reason wireSize remote (closeSocket sk t)))
       \<lparr>t_requestInitCancellation := False\<rparr>"

section \<open>Sending\<close>

text \<open>\<open>send\<close> is taken to report at most as many bytes as it was given.\<close>

function sendOnSocket :: "'k sock_api \<Rightarrow> 'k transport \<Rightarrow> bool \<times> 'k transport" where
  "sendOnSocket sk t =
     (if t_txbuf t = [] then (True, t)
      else
        (let (ret, k) = sk_send sk (t_txbuf t) (t_socket t);
             t1 = t\<lparr>t_socket := k\<rparr>
         in if ret < 0 \<and> sk_isWaitNeeded sk k then (True, t1)
            else if ret \<le> 0 then
              (let t2 = closeSocket sk t1 in
               (False, if t_readyState t2 \<noteq> CLOSING then setReadyState sk CLOSED t2 else t2))
            else sendOnSocket sk (t1\<lparr>t_txbuf := drop (nat ret) (t_txbuf t1)\<rparr>)))"
  by pat_completeness auto

termination
  by (relation "measure (\<lambda>(sk, t). length (t_txbuf t))") auto

declare sendOnSocket.simps [simp del]

definition appendToSendBuffer :: "byte list \<Rightarrow> byte list \<Rightarrow> byte list \<Rightarrow> 'k transport \<Rightarrow> 'k transport" where
  "appendToSendBuffer header message key t =
     t\<lparr>t_txbuf := t_txbuf t @ header @ (if t_useMask t then maskBytes key 0 message else message)\<rparr>"

definition sendFragment ::
  "'k sock_api \<Rightarrow> byte \<Rightarrow> bool \<Rightarrow> byte list \<Rightarrow> bool \<Rightarrow> 'k transport \<Rightarrow> bool \<times> 'k transport" where
  "sendFragment sk type fin message compress t =
     (let key = maskingKey (sk_seconds sk (t_socket t));
          header = frameHeader (t_useMask t) type fin compress (of_nat (length message)) key
      in sendOnSocket sk (appendToSendBuffer header message key t))"

text \<open>
  The fragments of a large message: \<open>n\<close> steps remain, the first of which sends the message's own
  type; the last takes all that is left.
\<close>

fun sendSteps ::
  "'k sock_api \<Rightarrow> byte \<Rightarrow> bool \<Rightarrow> nat \<Rightarrow> byte list \<Rightarrow> 'k transport \<Rightarrow> bool \<times> 'k transport" where
  "sendSteps sk type compress 0 rest t = (True, t)"
| "sendSteps sk type compress (Suc n) rest t =
     (let lastStep = (n = 0);
          part = (if lastStep then rest else take kChunkSize rest)
      in case sendFragment sk type lastStep part compress t of
           (False, t') \<Rightarrow> (False, t')
         | (True, t') \<Rightarrow> sendSteps sk CONTINUATION compress n (drop kChunkSize rest) t')"

record send_info =
  si_success :: bool
  si_compressionError :: bool
  si_payloadSize :: nat
  si_wireSize :: nat

definition send_failed :: send_info where
  "send_failed = \<lparr>si_success = False, si_compressionError = False, si_payloadSize = 0, si_wireSize = 0\<rparr>"

definition sendData ::
  "'k sock_api \<Rightarrow> byte \<Rightarrow> byte list \<Rightarrow> bool \<Rightarrow> 'k transport \<Rightarrow> send_info \<times> 'k transport" where
  "sendData sk type message compress t =
     (if t_readyState t \<noteq> OPEN \<and> t_readyState t \<noteq> CLOSING then (send_failed, t)
      else
        (case (if compress then sk_compress sk message else Some message) of
           None \<Rightarrow> (send_failed\<lparr>si_compressionError := True\<rparr>, t)
         | Some wire \<Rightarrow>
             (let wireSize = length wire;
                  info = \<lparr>si_success = True, si_compressionError = False,
                          si_payloadSize = length message, si_wireSize = wireSize\<rparr>
              in if wireSize < kChunkSize then
                   (let (success, t1) = sendFragment sk type True wire compress t;
                        t2 = (if t_txbuf t1 \<noteq> [] then wakeUpFromPoll sk kSendRequest t1 else t1)
                    in (info\<lparr>si_success := success\<rparr>, t2))
                 else
                   (case sendSteps sk type compress (wireSize div kChunkSize) wire t of
                      (False, t1) \<Rightarrow> (send_failed, t1)
                    | (True, t1) \<Rightarrow>
                        (info, if t_txbuf t1 \<noteq> [] then wakeUpFromPoll sk kSendRequest t1 else t1)))))"

definition sendBinary :: "'k sock_api \<Rightarrow> byte list \<Rightarrow> 'k transport \<Rightarrow> send_info \<times> 'k transport" where
  "sendBinary sk message t = sendData sk BINARY_FRAME message (t_enablePerMessageDeflate t) t"

definition sendText :: "'k sock_api \<Rightarrow> byte list \<Rightarrow> 'k transport \<Rightarrow> send_info \<times> 'k transport" where
  "sendText sk message t = sendData sk TEXT_FRAME message (t_enablePerMessageDeflate t) t"

definition stampPing :: "'k sock_api \<Rightarrow> send_info \<times> 'k transport \<Rightarrow> send_info \<times> 'k transport" where
  "stampPing sk r =
     (case r of (info, t) \<Rightarrow>
        (info, if si_success info then t\<lparr>t_lastSendPingTimePoint := sk_now sk (t_socket t)\<rparr> else t))"

definition sendPing :: "'k sock_api \<Rightarrow> byte list \<Rightarrow> 'k transport \<Rightarrow> send_info \<times> 'k transport" where
  "sendPing sk message t = stampPing sk (sendData sk PING message False t)"

definition sendCloseFrame :: "'k sock_api \<Rightarrow> uint16 \<Rightarrow> byte list \<Rightarrow> 'k transport \<Rightarrow> 'k transport" where
  "sendCloseFrame sk code reason t =
     snd (if code \<noteq> kNoStatusCodeErrorCode
          then sendData sk CLOSE (ucast (drop_bit 8 code) # ucast (code AND 0xff) # reason) False t
          else sendData sk CLOSE [] False t)"

section \<open>Closing\<close>

definition close ::
  "'k sock_api \<Rightarrow> uint16 \<Rightarrow> byte list \<Rightarrow> nat \<Rightarrow> bool \<Rightarrow> 'k transport \<Rightarrow> 'k transport" where
  "close sk code reason closeWireSize remote t =
     (let t = t\<lparr>t_requestInitCancellation := True\<rparr> in
      if t_readyState t = CLOSING \<or> t_readyState t = CLOSED then
        (if sk_isWakeUpFromPollSupported sk (t_socket t) then wakeUpFromPoll sk kCloseRequest t else t)
      else
        (let wireSize = (if closeWireSize = 0 then length reason else closeWireSize);
             t = setCloseInfo code reason wireSize remote t;
             t = t\<lparr>t_closingTimePoint := sk_now sk (t_socket t)\<rparr>;
             t = setReadyState sk CLOSING t
         in wakeUpFromPoll sk kSendRequest (sendCloseFrame sk code reason t)))"

definition closingDelayExceeded :: "'k sock_api \<Rightarrow> 'k transport \<Rightarrow> bool" where
  "closingDelayExceeded sk t \<longleftrightarrow>
     sk_now sk (t_socket t) - t_closingTimePoint t > kClosingMaximumWaitingDelayInMs"

section \<open>Emitting messages\<close>

definition callOut :: "ix_out \<Rightarrow> 'k transport \<Rightarrow> 'k transport" where
  "callOut e t = t\<lparr>t_out := t_out t @ [e]\<rparr>"

definition invalidPayload :: "'k sock_api \<Rightarrow> 'k transport \<Rightarrow> 'k transport" where
  "invalidPayload sk t = close sk kInvalidFramePayloadData kInvalidFramePayloadDataMessage 0 False t"

definition emitMessage ::
  "'k sock_api \<Rightarrow> MessageKind \<Rightarrow> byte list \<Rightarrow> bool \<Rightarrow> 'k transport \<Rightarrow> 'k transport" where
  "emitMessage sk kind message compressedMessage t =
     (let wireSize = length message in
      if compressedMessage \<and> kind \<noteq> FRAGMENT then
        (let (success, decompressed) = sk_decompress sk message in
         if kind = MSG_TEXT \<and> \<not> validateUtf8 decompressed then invalidPayload sk t
         else callOut (OutMessage decompressed wireSize (\<not> success) kind) t)
      else if kind = MSG_TEXT \<and> \<not> validateUtf8 message then invalidPayload sk t
      else callOut (OutMessage message wireSize False kind) t)"

section \<open>Handling a frame\<close>

definition sequenceCheck :: "'k sock_api \<Rightarrow> wsheader \<Rightarrow> 'k transport \<Rightarrow> 'k transport" where
  "sequenceCheck sk ws t =
     (if hd_opcode ws \<noteq> CONTINUATION then
        (let t = t\<lparr>t_fragmentedMessageKind := (if hd_opcode ws = TEXT_FRAME then MSG_TEXT else MSG_BINARY),
                   t_receivedMessageCompressed := t_enablePerMessageDeflate t \<and> hd_rsv1 ws\<rparr>
         in if t_chunks t \<noteq> []
            then close sk kProtocolErrorCode kProtocolErrorCodeDataOpcodeOutOfSequence 0 False t else t)
      else if t_chunks t = []
      then close sk kProtocolErrorCode kProtocolErrorCodeContinuationOpCodeOutOfSequence 0 False t
      else t)"

definition handleData :: "'k sock_api \<Rightarrow> wsheader \<Rightarrow> byte list \<Rightarrow> 'k transport \<Rightarrow> 'k transport" where
  "handleData sk ws frameData t =
     (let t = sequenceCheck sk ws t in
      if hd_fin ws \<and> t_chunks t = [] then
        (emitMessage sk (t_fragmentedMessageKind t) frameData (t_receivedMessageCompressed t) t)
          \<lparr>t_receivedMessageCompressed := False\<rparr>
      else
        (let t = t\<lparr>t_chunks := t_chunks t @ [frameData]\<rparr> in
         if hd_fin ws then
           (emitMessage sk (t_fragmentedMessageKind t) (concat (t_chunks t)) (t_receivedMessageCompressed t) t)
             \<lparr>t_chunks := [], t_receivedMessageCompressed := False\<rparr>
         else emitMessage sk FRAGMENT [] False t))"

text \<open>\<open>std::to_string\<close> of a number, as the stream operator prints it.\<close>

fun decimalDigits :: "nat \<Rightarrow> nat \<Rightarrow> byte list" where
  "decimalDigits 0 n = []"
| "decimalDigits (Suc fuel) n =
     (if n < 10 then [of_nat (48 + n)] else decimalDigits fuel (n div 10) @ [of_nat (48 + n mod 10)])"

definition validCloseCode :: "uint16 \<Rightarrow> bool" where
  "validCloseCode code \<longleftrightarrow>
     \<not> (code < 1000 \<or> code = 1004 \<or> code = 1006 \<or> (code > 1013 \<and> code < 3000))"

text \<open>The code and the reason that a CLOSE frame's payload stands for.\<close>

definition closeInfo :: "byte list \<Rightarrow> uint16 \<times> byte list" where
  "closeInfo frameData =
     (if length frameData \<ge> 2 then
        (let code = push_bit 8 (ucast (frameData ! 0)) OR ucast (frameData ! 1);
             reason = drop 2 frameData;
             (code, reason) =
               (if \<not> validateUtf8 reason
                then (kInvalidFramePayloadData, kInvalidFramePayloadDataMessage) else (code, reason))
         in if \<not> validCloseCode code
            then (kProtocolErrorCode, kInvalidCloseCodeMessage @ bytes_of '': '' @ decimalDigits 5 (unat code))
            else (code, reason))
      else (kNoStatusCodeErrorCode, kNoStatusCodeErrorMessage))"

definition handleClose :: "'k sock_api \<Rightarrow> byte list \<Rightarrow> 'k transport \<Rightarrow> 'k transport" where
  "handleClose sk frameData t =
     (let (code, reason) = closeInfo frameData in
      if t_readyState t \<noteq> CLOSING then
        (let t = setReadyState sk CLOSING t;
             t = sendCloseFrame sk code reason t;
             t = wakeUpFromPoll sk kCloseRequest t
         in closeSocketAndSwitchToClosedState sk code reason (length (t_rxbuf t)) True t)
      else if t_closeCode t = code \<and> t_closeReason t = reason
      then closeSocketAndSwitchToClosedState sk code reason (length (t_rxbuf t)) False t
      else t)"

text \<open>\<open>None\<close> when the frame is refused and \<open>dispatch\<close> returns without erasing it.\<close>

definition handlePing :: "'k sock_api \<Rightarrow> byte list \<Rightarrow> 'k transport \<Rightarrow> bool \<times> 'k transport" where
  "handlePing sk frameData t =
     (if length frameData > 125
      then (False, close sk kProtocolErrorCode kProtocolErrorPingPayloadOversized 0 False t)
      else (True, emitMessage sk MSG_PING frameData False
                    (if t_enablePong t then snd (sendData sk PONG frameData False t) else t)))"

text \<open>The effect of a complete frame, and whether it is then erased from the buffer.\<close>

definition handleFrame :: "'k sock_api \<Rightarrow> wsheader \<Rightarrow> byte list \<Rightarrow> 'k transport \<Rightarrow> bool \<times> 'k transport" where
  "handleFrame sk ws frameData t =
     (if hd_opcode ws = TEXT_FRAME \<or> hd_opcode ws = BINARY_FRAME \<or> hd_opcode ws = CONTINUATION
      then (True, handleData sk ws frameData t)
      else if hd_opcode ws = PING then handlePing sk frameData t
      else if hd_opcode ws = PONG
      then (True, emitMessage sk MSG_PONG frameData False (t\<lparr>t_pongReceived := True\<rparr>))
      else if hd_opcode ws = CLOSE then (True, handleClose sk frameData t)
      else (True, close sk kProtocolErrorCode kProtocolErrorMessage (length (t_rxbuf t)) False t))"

text \<open>The payload unmasked where it stands.\<close>

definition unmaskReceiveBuffer :: "wsheader \<Rightarrow> 'k transport \<Rightarrow> 'k transport" where
  "unmaskReceiveBuffer ws t =
     (if hd_mask ws then
        t\<lparr>t_rxbuf := take (header_size ws) (t_rxbuf t) @ framePayload ws (t_rxbuf t) @
                     drop (header_size ws + unat (hd_N ws)) (t_rxbuf t)\<rparr>
      else t)"

datatype frame_step = Consumed | Blocked | Refused

text \<open>
  One turn of the loop of \<open>dispatch\<close>: \<open>Blocked\<close> where it breaks out and the code after the loop
  runs, \<open>Refused\<close> where it returns, \<open>Consumed\<close> where it goes on with what follows the frame.
\<close>

definition dispatchOne :: "'k sock_api \<Rightarrow> 'k transport \<Rightarrow> frame_step \<times> 'k transport" where
  "dispatchOne sk t =
     (case parseHeader (t_rxbuf t) of
        None \<Rightarrow> (Blocked, t)
      | Some ws \<Rightarrow>
          if (hd_rsv1 ws \<and> \<not> t_enablePerMessageDeflate t) \<or> hd_rsv2 ws \<or> hd_rsv3 ws
          then (Refused, close sk kProtocolErrorCode kProtocolErrorReservedBitUsed (length (t_rxbuf t)) False t)
          else if hd_N ws > push_bit 63 1 then (Refused, t)
          else if length (t_rxbuf t) < header_size ws + unat (hd_N ws)
          then (Refused, t\<lparr>t_rxbufWanted := of_nat (header_size ws) + hd_N ws\<rparr>)
          else
            (let t = t\<lparr>t_rxbufWanted := 0\<rparr> in
             if \<not> hd_fin ws \<and> (hd_opcode ws = PING \<or> hd_opcode ws = PONG \<or> hd_opcode ws = CLOSE)
             then (Refused, close sk kProtocolErrorCode kProtocolErrorCodeControlMessageFragmented 0 False t)
             else
               (let frameData = framePayload ws (t_rxbuf t);
                    (erase, t') = handleFrame sk ws frameData (unmaskReceiveBuffer ws t)
                in if erase
                   then (Consumed, t'\<lparr>t_rxbuf := drop (header_size ws + unat (hd_N ws)) (t_rxbuf t')\<rparr>)
                   else (Refused, t'))))"

text \<open>The loop, for at most as many frames as the buffer has bytes; every frame has two at least.\<close>

fun dispatchFrames :: "'k sock_api \<Rightarrow> nat \<Rightarrow> 'k transport \<Rightarrow> frame_step \<times> 'k transport" where
  "dispatchFrames sk 0 t = (Blocked, t)"
| "dispatchFrames sk (Suc fuel) t =
     (case dispatchOne sk t of
        (Consumed, t') \<Rightarrow> dispatchFrames sk fuel t'
      | r \<Rightarrow> r)"

definition afterFrames :: "'k sock_api \<Rightarrow> PollResult \<Rightarrow> 'k transport \<Rightarrow> 'k transport" where
  "afterFrames sk pollResult t =
     (if pollResult = Succeeded then t
      else
        (let t = t\<lparr>t_rxbuf := []\<rparr> in
         if t_readyState t = CLOSING then setReadyState sk CLOSED (closeSocket sk t)
         else if t_readyState t \<noteq> CLOSED
         then closeSocketAndSwitchToClosedState sk kAbnormalCloseCode kAbnormalCloseMessage 0 False t
         else t))"

definition dispatch :: "'k sock_api \<Rightarrow> PollResult \<Rightarrow> 'k transport \<Rightarrow> 'k transport" where
  "dispatch sk pollResult t =
     (case dispatchFrames sk (length (t_rxbuf t)) t of
        (Refused, t') \<Rightarrow> t'
      | (_, t') \<Rightarrow> afterFrames sk pollResult t')"

section \<open>Polling\<close>

definition pingIntervalExceeded :: "'k sock_api \<Rightarrow> 'k transport \<Rightarrow> bool" where
  "pingIntervalExceeded sk t \<longleftrightarrow>
     t_pingIntervalSecs t > 0 \<and>
     sk_now sk (t_socket t) - t_lastSendPingTimePoint t > 1000 * t_pingIntervalSecs t"

definition heartBeatText :: "'k transport \<Rightarrow> byte list" where
  "heartBeatText t =
     (if t_setCustomMessage t then t_kPingMessage t
      else t_kPingMessage t @ bytes_of ''::'' @ decimalDigits 10 (nat (t_pingIntervalSecs t)) @ bytes_of ''s::'' @
           decimalDigits 20 (unat (t_pingCount t)))"

definition sendHeartBeat ::
  "'k sock_api \<Rightarrow> SendMessageKind \<Rightarrow> 'k transport \<Rightarrow> send_info \<times> 'k transport" where
  "sendHeartBeat sk pingMessage t =
     (let message = heartBeatText t;
          t = t\<lparr>t_pongReceived := False,
                t_pingCount := (if t_setCustomMessage t then t_pingCount t else t_pingCount t + 1)\<rparr>
      in case pingMessage of
           SendPing \<Rightarrow> sendPing sk message t
         | SendBinary \<Rightarrow> stampPing sk (sendBinary sk message t)
         | SendText \<Rightarrow> stampPing sk (sendText sk message t))"

definition sendTimeoutMs :: "'k transport \<Rightarrow> int" where
  "sendTimeoutMs t =
     (if t_sendTimeoutSecs t > 0 then 1000 * t_sendTimeoutSecs t
      else if t_pingIntervalSecs t > 0 then 1000 * t_pingIntervalSecs t else 0)"

text \<open>
  The loop of \<open>flushSendBuffer\<close>, which waits as long as the socket takes nothing and no time-out
  is set: it may not return, and is then \<open>None\<close>.
\<close>

partial_function (option) flushLoop ::
  "'k sock_api \<Rightarrow> int \<Rightarrow> 'k transport \<Rightarrow> (bool \<times> 'k transport) option" where
  "flushLoop sk start t =
     (if t_txbuf t = [] \<or> t_requestInitCancellation t then Some (True, t)
      else
        (case sk_isReadyToWrite sk 10 (t_socket t) of
           None \<Rightarrow> None
         | Some (result, k) \<Rightarrow>
             (let t1 = t\<lparr>t_socket := k\<rparr> in
              if result = PollError then Some (False, setReadyState sk CLOSED (closeSocket sk t1))
              else if result = PollReadyForWrite then
                (let (sent, t2) = sendOnSocket sk t1 in
                 if sent then flushLoop sk start t2 else Some (False, t2))
              else if result = PollTimeout \<and> sendTimeoutMs t1 > 0 \<and>
                      sk_now sk (t_socket t1) > start + sendTimeoutMs t1
              then Some (False, closeSocketAndSwitchToClosedState sk kAbnormalCloseCode kSendTimeoutMessage 0 False t1)
              else flushLoop sk start t1)))"

definition flushSendBuffer :: "'k sock_api \<Rightarrow> 'k transport \<Rightarrow> (bool \<times> 'k transport) option" where
  "flushSendBuffer sk t = flushLoop sk (sk_now sk (t_socket t)) t"

text \<open>\<open>receiveFromSocket\<close>; it ends when enough is buffered, so a socket that keeps delivering
  cannot keep it.\<close>

partial_function (option) receiveFromSocket ::
  "'k sock_api \<Rightarrow> 'k transport \<Rightarrow> (bool \<times> 'k transport) option" where
  "receiveFromSocket sk t =
     (if t_rxbufWanted t = 0 \<and> length (t_rxbuf t) \<ge> kChunkSize then Some (True, t)
      else if t_rxbufWanted t > 0 \<and> length (t_rxbuf t) \<ge> unat (t_rxbufWanted t) then Some (True, t)
      else
        (case sk_recv sk kChunkSize (t_socket t) of
           (Inl ret, k) \<Rightarrow>
             (let t1 = t\<lparr>t_socket := k\<rparr> in
              if ret < 0 \<and> sk_isWaitNeeded sk k then Some (True, t1) else Some (False, closeSocket sk t1))
         | (Inr bytes, k) \<Rightarrow> receiveFromSocket sk (t\<lparr>t_socket := k, t_rxbuf := t_rxbuf t @ bytes\<rparr>)))"

definition heartBeatStep :: "'k sock_api \<Rightarrow> 'k transport \<Rightarrow> 'k transport" where
  "heartBeatStep sk t =
     (if t_readyState t = OPEN \<and> pingIntervalExceeded sk t then
        if t_pingType t = SendPing \<and> \<not> t_pongReceived t
        then close sk kInternalErrorCode kPingTimeoutMessage 0 False t
        else snd (sendHeartBeat sk (t_pingType t) t)
      else t)"

definition pollTimeout :: "'k sock_api \<Rightarrow> 'k transport \<Rightarrow> int" where
  "pollTimeout sk t =
     (let d = (if t_readyState t \<noteq> OPEN then 0 else t_pingIntervalSecs t);
          d = (if t_pingIntervalSecs t > 0
               then 1000 * t_pingIntervalSecs t - (sk_now sk (t_socket t) - t_lastSendPingTimePoint t) else d);
          d = (if d \<le> 0 \<and> \<not> sk_isWakeUpFromPollSupported sk (t_socket t) then 20 else d)
      in if t_requestInitCancellation t then 100 else d)"

definition closingStep :: "'k sock_api \<Rightarrow> 'k transport \<Rightarrow> 'k transport" where
  "closingStep sk t =
     (if t_readyState t = CLOSING \<and> closingDelayExceeded sk t
      then setReadyState sk CLOSED (closeSocket sk (t\<lparr>t_rxbuf := []\<rparr>)) else t)"

definition poll :: "'k sock_api \<Rightarrow> 'k transport \<Rightarrow> (PollResult \<times> 'k transport) option" where
  "poll sk t =
     (let t = heartBeatStep sk t in
      case sk_isReadyToRead sk (pollTimeout sk t) (t_socket t) of
        None \<Rightarrow> None
      | Some (result, k) \<Rightarrow>
          (let t = t\<lparr>t_socket := k\<rparr> in
           case result of
             PollSendRequest \<Rightarrow>
               (case flushSendBuffer sk t of
                  None \<Rightarrow> None
                | Some (False, t') \<Rightarrow> Some (CannotFlushSendBuffer, t')
                | Some (True, t') \<Rightarrow> Some (Succeeded, closingStep sk t'))
           | PollReadyForRead \<Rightarrow>
               (case receiveFromSocket sk t of
                  None \<Rightarrow> None
                | Some (False, t') \<Rightarrow> Some (AbnormalClose, t')
                | Some (True, t') \<Rightarrow> Some (Succeeded, closingStep sk t'))
           | PollError \<Rightarrow> Some (Succeeded, closingStep sk (closeSocket sk t))
           | PollCloseRequest \<Rightarrow> Some (Succeeded, closingStep sk (closeSocket sk t))
           | _ \<Rightarrow> Some (Succeeded, closingStep sk t)))"

end
