(* ===== verification/IxTransportProofs.thy ===== *)
theory IxTransportProofs
  imports IxTransport
begin

text \<open>
  Lemmas on the connection: sending leaves the receiving side alone and keeps the bytes in
  order, the loop of \<open>dispatch\<close> ends, and a message cut into frames is put together again.
\<close>

section \<open>The receiving side\<close>

text \<open>What the sending and closing operations do not touch.\<close>

definition rx :: "'k transport \<Rightarrow> byte list \<times> uint64 \<times> byte list list \<times> MessageKind \<times> bool \<times> bool \<times> bool \<times> bool \<times> int" where
  "rx t = (t_rxbuf t, t_rxbufWanted t, t_chunks t, t_fragmentedMessageKind t,
           t_receivedMessageCompressed t, t_enablePerMessageDeflate t, t_useMask t, t_enablePong t,
           t_pingIntervalSecs t)"

lemma rxD:
  assumes "rx t' = rx t"
  shows "t_rxbuf t' = t_rxbuf t" and "t_rxbufWanted t' = t_rxbufWanted t" and "t_chunks t' = t_chunks t"
    and "t_fragmentedMessageKind t' = t_fragmentedMessageKind t"
    and "t_receivedMessageCompressed t' = t_receivedMessageCompressed t"
    and "t_enablePerMessageDeflate t' = t_enablePerMessageDeflate t" and "t_useMask t' = t_useMask t"
    and "t_enablePong t' = t_enablePong t" and "t_pingIntervalSecs t' = t_pingIntervalSecs t"
  using assms by (simp_all add: rx_def)

lemma rx_basic [simp]:
  "rx (setReadyState sk rs t) = rx t"
  "rx (closeSocket sk t) = rx t"
  "rx (wakeUpFromPoll sk c t) = rx t"
  "rx (setCloseInfo code reason n r t) = rx t"
  "rx (closeSocketAndSwitchToClosedState sk code reason n r t) = rx t"
  "rx (appendToSendBuffer header message key t) = rx t"
  "rx (callOut e t) = rx t"
  "rx (t\<lparr>t_socket := k\<rparr>) = rx t"
  "rx (t\<lparr>t_txbuf := b\<rparr>) = rx t"
  by (simp_all add: rx_def setReadyState_def closeSocket_def wakeUpFromPoll_def setCloseInfo_def
      closeSocketAndSwitchToClosedState_def appendToSendBuffer_def callOut_def)

lemma rx_sendOnSocket [simp]: "rx (snd (sendOnSocket sk t)) = rx t"
proof (induction sk t rule: sendOnSocket.induct)
  case (1 sk t)
  obtain ret k where r: "sk_send sk (t_txbuf t) (t_socket t) = (ret, k)" by fastforce
  from 1 r show ?case by (subst sendOnSocket.simps) (auto simp: Let_def split: if_splits)
qed

lemma rx_sendFragment [simp]: "rx (snd (sendFragment sk type fin m c t)) = rx t"
  by (simp add: sendFragment_def Let_def)

lemma rx_sendSteps [simp]: "rx (snd (sendSteps sk type c n rest t)) = rx t"
proof (induction sk type c n rest t rule: sendSteps.induct)
  case (2 sk type c n rest t)
  have "rx (snd (sendFragment sk type (n = 0) (if n = 0 then rest else take kChunkSize rest) c t)) = rx t" by simp
  with 2 show ?case
    by (cases "sendFragment sk type (n = 0) (if n = 0 then rest else take kChunkSize rest) c t")
       (auto simp: Let_def split: bool.splits)
qed simp

lemma rx_sent:
  "sendFragment sk type fin m c t = (b, t') \<Longrightarrow> rx t' = rx t"
  "sendSteps sk type c n w t = (b, t') \<Longrightarrow> rx t' = rx t"
  using rx_sendFragment [of sk type fin m c t] rx_sendSteps [of sk type c n w t] by simp_all

text \<open>\<open>sendData\<close> by cases: refused, not compressible, one frame, or several.\<close>

lemma sendData_cases:
  obtains (closed) "t_readyState t \<noteq> OPEN" "t_readyState t \<noteq> CLOSING" "sendData sk type m c t = (send_failed, t)"
  | (error) "c" "sk_compress sk m = None" "snd (sendData sk type m c t) = t"
  | (single) wire ok t1 where "(if c then sk_compress sk m else Some m) = Some wire" "length wire < kChunkSize"
      "sendFragment sk type True wire c t = (ok, t1)" "si_success (fst (sendData sk type m c t)) = ok"
      "snd (sendData sk type m c t) = (if t_txbuf t1 \<noteq> [] then wakeUpFromPoll sk kSendRequest t1 else t1)"
  | (failed) wire t1 where "(if c then sk_compress sk m else Some m) = Some wire" "\<not> length wire < kChunkSize"
      "sendSteps sk type c (length wire div kChunkSize) wire t = (False, t1)"
      "sendData sk type m c t = (send_failed, t1)"
  | (several) wire t1 where "(if c then sk_compress sk m else Some m) = Some wire" "\<not> length wire < kChunkSize"
      "sendSteps sk type c (length wire div kChunkSize) wire t = (True, t1)"
      "si_success (fst (sendData sk type m c t))"
      "snd (sendData sk type m c t) = (if t_txbuf t1 \<noteq> [] then wakeUpFromPoll sk kSendRequest t1 else t1)"
proof (cases "t_readyState t \<noteq> OPEN \<and> t_readyState t \<noteq> CLOSING")
  case True
  then show ?thesis by (intro closed) (simp_all add: sendData_def)
next
  case False
  note open_state = this
  show ?thesis
  proof (cases "if c then sk_compress sk m else Some m")
    case None
    with open_state show ?thesis by (intro error) (auto simp: sendData_def split: if_splits)
  next
    case (Some wire)
    obtain ok t1 where frag: "sendFragment sk type True wire c t = (ok, t1)" by fastforce
    obtain ok2 t2 where steps: "sendSteps sk type c (length wire div kChunkSize) wire t = (ok2, t2)" by fastforce
    show ?thesis
    proof (cases "length wire < kChunkSize")
      case True
      with open_state Some frag show ?thesis by (intro single [OF Some True frag]) (auto simp: sendData_def)
    next
      case big: False
      show ?thesis
      proof (cases ok2)
        case True
        with open_state Some big steps show ?thesis by (intro several [OF Some big]) (auto simp: sendData_def)
      next
        case False
        with open_state Some big steps show ?thesis by (intro failed [OF Some big]) (auto simp: sendData_def)
      qed
    qed
  qed
qed

lemma rx_sendData [simp]: "rx (snd (sendData sk type m c t)) = rx t"
proof (cases rule: sendData_cases [of t sk type m c])
  case (single wire ok t1)
  with rx_sent(1) [OF single(3)] show ?thesis by simp
next
  case (several wire t1)
  with rx_sent(2) [OF several(3)] show ?thesis by simp
next
  case (failed wire t1)
  with rx_sent(2) [OF failed(3)] show ?thesis by simp
qed simp_all

lemma rx_sendCloseFrame [simp]: "rx (sendCloseFrame sk code reason t) = rx t"
  by (simp add: sendCloseFrame_def)

lemma rx_close [simp]: "rx (close sk code reason n r t) = rx t"
proof -
  have upd: "rx (t\<lparr>t_requestInitCancellation := b\<rparr>) = rx t" "rx (t\<lparr>t_closingTimePoint := x\<rparr>) = rx t" for t :: "'b transport" and b x
    by (simp_all add: rx_def)
  show ?thesis by (simp add: close_def Let_def upd)
qed

lemma rx_emitMessage [simp]: "rx (emitMessage sk kind m c t) = rx t"
  by (simp add: emitMessage_def invalidPayload_def Let_def split: prod.split)

section \<open>The loop of dispatch ends\<close>

lemma t_rxbuf_handleFrame: "t_rxbuf (snd (handleFrame sk ws d t)) = t_rxbuf t"
proof -
  have seq: "t_rxbuf (sequenceCheck sk ws t) = t_rxbuf t" for t
    by (simp add: sequenceCheck_def Let_def rxD(1,3) [OF rx_close])
  have "t_rxbuf (handleData sk ws d t) = t_rxbuf t"
    by (simp add: handleData_def Let_def rxD(1) [OF rx_emitMessage] seq)
  moreover have "t_rxbuf (snd (handlePing sk d t)) = t_rxbuf t"
    by (simp add: handlePing_def rxD(1) [OF rx_emitMessage] rxD(1) [OF rx_close] rxD(1) [OF rx_sendData])
  moreover have "rx (handleClose sk d t) = rx t"
    by (simp add: handleClose_def Let_def split: prod.split)
  ultimately show ?thesis
    using rxD(1) [of "handleClose sk d t" t]
    by (simp add: handleFrame_def rxD(1) [OF rx_emitMessage] rxD(1) [OF rx_close])
qed

lemma length_framePayload:
  "header_size ws + unat (hd_N ws) \<le> length data \<Longrightarrow> length (framePayload ws data) = unat (hd_N ws)"
  by (simp add: framePayload_def unmaskPayload_def)

lemma length_unmaskReceiveBuffer:
  "header_size ws + unat (hd_N ws) \<le> length (t_rxbuf t) \<Longrightarrow>
     length (t_rxbuf (unmaskReceiveBuffer ws t)) = length (t_rxbuf t)"
  by (simp add: unmaskReceiveBuffer_def length_framePayload)

lemma parseHeader_size: "parseHeader data = Some ws \<Longrightarrow> 2 \<le> header_size ws"
  by (auto simp: parseHeader_def Let_def headerSize_def split: if_splits)

lemma dispatchOne_shrinks:
  assumes "dispatchOne sk t = (Consumed, t')"
  shows "length (t_rxbuf t') + 2 \<le> length (t_rxbuf t)"
proof -
  from assms obtain ws where ws: "parseHeader (t_rxbuf t) = Some ws"
    by (auto simp: dispatchOne_def split: option.splits)
  define t1 where "t1 = t\<lparr>t_rxbufWanted := 0\<rparr>"
  define r where "r = handleFrame sk ws (framePayload ws (t_rxbuf t)) (unmaskReceiveBuffer ws t1)"
  from assms ws have enough: "header_size ws + unat (hd_N ws) \<le> length (t_rxbuf t)"
    by (auto simp: dispatchOne_def Let_def split: if_splits)
  from assms ws have "t' = (snd r)\<lparr>t_rxbuf := drop (header_size ws + unat (hd_N ws)) (t_rxbuf (snd r))\<rparr>"
    by (auto simp: dispatchOne_def Let_def r_def t1_def split: if_splits prod.splits)
  then have "length (t_rxbuf t') = length (t_rxbuf t1) - (header_size ws + unat (hd_N ws))"
    using enough by (simp add: r_def t_rxbuf_handleFrame length_unmaskReceiveBuffer t1_def)
  with parseHeader_size [OF ws] enough show ?thesis by (simp add: t1_def)
qed

text \<open>The fuel of \<open>dispatch\<close> is enough: more of it changes nothing.\<close>

lemma dispatchFrames_enough:
  "length (t_rxbuf t) \<le> fuel \<Longrightarrow> dispatchFrames sk fuel t = dispatchFrames sk (length (t_rxbuf t)) t"
proof (induction "length (t_rxbuf t)" arbitrary: t fuel rule: less_induct)
  case less
  show ?case
  proof (cases "dispatchOne sk t")
    case (Pair st t')
    show ?thesis
    proof (cases "st = Consumed")
      case True
      with Pair have shr: "length (t_rxbuf t') + 2 \<le> length (t_rxbuf t)" by (auto dest: dispatchOne_shrinks)
      then obtain n m where n: "length (t_rxbuf t) = Suc n" and m: "fuel = Suc m"
        using less.prems by (metis Suc_le_D add_2_eq_Suc' le_trans)
      have "length (t_rxbuf t') \<le> n" "length (t_rxbuf t') \<le> m" "length (t_rxbuf t') < length (t_rxbuf t)"
        using shr n m less.prems by auto
      then have "dispatchFrames sk m t' = dispatchFrames sk n t'"
        using less.hyps [of t' m] less.hyps [of t' n] by simp
      with Pair True n m show ?thesis by simp
    next
      case False
      have "length (t_rxbuf t) = 0 \<Longrightarrow> (st, t') = (Blocked, t)"
        using Pair by (simp add: dispatchOne_def parseHeader_def)
      with False Pair less.prems show ?thesis
        by (cases fuel; cases "length (t_rxbuf t)") (auto split: frame_step.splits)
    qed
  qed
qed

lemma dispatchFrames_step:
  assumes "dispatchOne sk t = (Consumed, t')"
  shows "dispatchFrames sk (length (t_rxbuf t)) t = dispatchFrames sk (length (t_rxbuf t')) t'"
proof -
  from dispatchOne_shrinks [OF assms] obtain n where n: "length (t_rxbuf t) = Suc n"
    by (metis Suc_le_D add_2_eq_Suc' le_trans le_add2)
  with dispatchOne_shrinks [OF assms] have "length (t_rxbuf t') \<le> n" by simp
  from dispatchFrames_enough [OF this, of sk] assms n show ?thesis by simp
qed

section \<open>Bytes are neither lost nor reordered\<close>

text \<open>
  \<open>wire k\<close> is what a socket has been given so far. What is relied on of \<open>send\<close>: it takes at most
  what it is offered, from the front, and closing or waking takes nothing.
\<close>

definition send_law :: "'k sock_api \<Rightarrow> ('k \<Rightarrow> byte list) \<Rightarrow> bool" where
  "send_law sk wire \<longleftrightarrow>
     (\<forall>bs k ret k'. sk_send sk bs k = (ret, k') \<longrightarrow> ret \<le> int (length bs) \<and> wire k' = wire k @ take (nat ret) bs) \<and>
     (\<forall>k. wire (sk_close sk k) = wire k) \<and> (\<forall>c k. wire (sk_wakeUpFromPoll sk c k) = wire k)"

text \<open>All bytes handed over for sending: those on the wire and those still buffered.\<close>

definition handed :: "('k \<Rightarrow> byte list) \<Rightarrow> 'k transport \<Rightarrow> byte list" where
  "handed wire t = wire (t_socket t) @ t_txbuf t"

lemma handed_basic [simp]:
  "send_law sk wire \<Longrightarrow> handed wire (closeSocket sk t) = handed wire t"
  "send_law sk wire \<Longrightarrow> handed wire (wakeUpFromPoll sk c t) = handed wire t"
  "handed wire (setReadyState sk rs t) = handed wire t"
  "handed wire (setCloseInfo code reason n r t) = handed wire t"
  "handed wire (callOut e t) = handed wire t"
  by (simp_all add: handed_def closeSocket_def wakeUpFromPoll_def setReadyState_def setCloseInfo_def
      callOut_def send_law_def)

lemma handed_sendOnSocket:
  assumes "send_law sk wire"
  shows "handed wire (snd (sendOnSocket sk t)) = handed wire t"
proof (induction sk \<equiv> sk t rule: sendOnSocket.induct)
  case (1 t)
  obtain ret k where r: "sk_send sk (t_txbuf t) (t_socket t) = (ret, k)" by fastforce
  with assms have k: "wire k = wire (t_socket t) @ take (nat ret) (t_txbuf t)" by (simp add: send_law_def)
  then have k0: "wire k = wire (t_socket t)" if "ret \<le> 0" using that by simp
  consider "t_txbuf t = []" | "t_txbuf t \<noteq> []" "ret \<le> 0" | "t_txbuf t \<noteq> []" "ret > 0" by linarith
  then show ?case
  proof cases
    case 1
    then show ?thesis by (subst sendOnSocket.simps) simp
  next
    case 2
    then show ?thesis
      using assms k0 by (subst sendOnSocket.simps) (simp add: r Let_def, simp add: handed_def)
  next
    case 3
    then have "snd (sendOnSocket sk t) =
        snd (sendOnSocket sk (t\<lparr>t_socket := k, t_txbuf := drop (nat ret) (t_txbuf t)\<rparr>))"
      by (subst sendOnSocket.simps) (simp add: r Let_def)
    also have "handed wire \<dots> = handed wire (t\<lparr>t_socket := k, t_txbuf := drop (nat ret) (t_txbuf t)\<rparr>)"
      using 3 "1.hyps" [OF _ r [symmetric]] by simp
    also have "\<dots> = handed wire t" by (simp add: handed_def k)
    finally show ?thesis .
  qed
qed

lemma handed_sendFragment:
  assumes "send_law sk wire"
  shows "handed wire (snd (sendFragment sk type fin m c t)) =
           handed wire t @ frameBytes (t_useMask t) (maskingKey (sk_seconds sk (t_socket t))) type fin c m"
proof -
  have "handed wire (snd (sendFragment sk type fin m c t)) =
      handed wire (appendToSendBuffer (frameHeader (t_useMask t) type fin c (of_nat (length m))
        (maskingKey (sk_seconds sk (t_socket t)))) m (maskingKey (sk_seconds sk (t_socket t))) t)"
    unfolding sendFragment_def Let_def by (rule handed_sendOnSocket [OF assms])
  then show ?thesis by (simp add: handed_def appendToSendBuffer_def frameBytes_def)
qed

text \<open>The frames of a message cut into \<open>n\<close> parts, each with its own key.\<close>

fun messageFrames :: "bool \<Rightarrow> byte \<Rightarrow> bool \<Rightarrow> nat \<Rightarrow> byte list \<Rightarrow> byte list list \<Rightarrow> byte list list" where
  "messageFrames m type c 0 rest keys = []"
| "messageFrames m type c (Suc n) rest keys =
     frameBytes m (hd keys) type (n = 0) c (if n = 0 then rest else take kChunkSize rest) #
     messageFrames m CONTINUATION c n (drop kChunkSize rest) (tl keys)"

definition valid_keys :: "nat \<Rightarrow> byte list list \<Rightarrow> bool" where
  "valid_keys n keys \<longleftrightarrow> length keys = n \<and> list_all (\<lambda>key. length key = 4) keys"

lemma handed_sendSteps:
  assumes "send_law sk wire" and "sendSteps sk type c n w t = (True, t')"
  shows "\<exists>keys. valid_keys n keys \<and>
           handed wire t' = handed wire t @ concat (messageFrames (t_useMask t) type c n w keys)"
  using assms(2)
proof (induction n arbitrary: type w t)
  case 0
  then show ?case by (simp add: valid_keys_def)
next
  case (Suc n)
  define part where "part = (if n = 0 then w else take kChunkSize w)"
  define key where "key = maskingKey (sk_seconds sk (t_socket t))"
  obtain ok t1 where f: "sendFragment sk type (n = 0) part c t = (ok, t1)" by fastforce
  have rest: "ok" "sendSteps sk CONTINUATION c n (drop kChunkSize w) t1 = (True, t')"
    using Suc.prems f by (auto simp: part_def Let_def split: bool.splits)
  have t1: "handed wire t1 = handed wire t @ frameBytes (t_useMask t) key type (n = 0) c part"
    using handed_sendFragment [OF assms(1), of type "n = 0" part c t] by (simp add: f key_def)
  have "t_useMask t1 = t_useMask t" by (rule rxD) (rule rx_sent(1) [OF f])
  with Suc.IH [OF rest(2)] t1 obtain keys where "valid_keys n keys"
    "handed wire t' = handed wire t @ frameBytes (t_useMask t) key type (n = 0) c part @
       concat (messageFrames (t_useMask t) CONTINUATION c n (drop kChunkSize w) keys)" by auto
  then show ?case
    by (intro exI [of _ "key # keys"]) (simp add: valid_keys_def part_def key_def)
qed

text \<open>A successful send of an uncompressed message hands over its frames, and nothing else.\<close>

lemma sendData_frames:
  assumes "send_law sk wire" and "si_success (fst (sendData sk type m False t))"
  shows "\<exists>keys. valid_keys (max 1 (length m div kChunkSize)) keys \<and>
           handed wire (snd (sendData sk type m False t)) =
             handed wire t @ concat (messageFrames (t_useMask t) type False (max 1 (length m div kChunkSize)) m keys)"
proof (cases rule: sendData_cases [of t sk type m False])
  case closed
  with assms(2) show ?thesis by (simp add: send_failed_def)
next
  case (single wire' ok t1)
  then have "length m div kChunkSize = 0" by simp
  moreover have "handed wire t1 =
      handed wire t @ frameBytes (t_useMask t) (maskingKey (sk_seconds sk (t_socket t))) type True False m"
    using single handed_sendFragment [OF assms(1), of type True m False t] by simp
  ultimately show ?thesis
    using single assms(1)
    by (intro exI [of _ "[maskingKey (sk_seconds sk (t_socket t))]"]) (simp add: valid_keys_def)
next
  case (failed wire' t1)
  with assms(2) show ?thesis by (simp add: send_failed_def)
next
  case (several wire' t1)
  then have w: "wire' = m" and "1 \<le> length m div kChunkSize"
    by (simp_all add: kChunkSize_def div_greater_zero_iff [symmetric] Suc_le_eq)
  then have "max 1 (length m div kChunkSize) = length m div kChunkSize" by simp
  with handed_sendSteps [OF assms(1) several(3)] several(5) w assms(1) show ?thesis by auto
qed simp

section \<open>A message is put together again\<close>

text \<open>A frame at the front of the buffer is handled with the payload and flags it was written with.\<close>

lemma dispatchOne_frame:
  assumes "is_opcode ty" and "length key = 4" and "length msg < 2 ^ 63"
    and "fin \<or> ty \<in> {TEXT_FRAME, BINARY_FRAME, CONTINUATION}"
    and rxbuf: "t_rxbuf t = frameBytes m key ty fin False msg @ rest"
  shows "\<exists>ws rb. hd_opcode ws = ty \<and> hd_fin ws = fin \<and> \<not> hd_rsv1 ws \<and> length rb = length (t_rxbuf t) \<and>
           dispatchOne sk t =
             (let (erase, t') = handleFrame sk ws msg (t\<lparr>t_rxbufWanted := 0, t_rxbuf := rb\<rparr>)
              in if erase then (Consumed, t'\<lparr>t_rxbuf := rest\<rparr>) else (Refused, t'))"
proof -
  from parseHeader_frame [OF assms(1-3) rxbuf] obtain ws where
    ws: "parseHeader (t_rxbuf t) = Some ws" "hd_fin ws = fin" "\<not> hd_rsv1 ws" "\<not> hd_rsv2 ws" "\<not> hd_rsv3 ws"
      "hd_opcode ws = ty" "unat (hd_N ws) = length msg" "framePayload ws (t_rxbuf t) = msg"
      "header_size ws + length msg = length (frameBytes m key ty fin False msg)" by auto
  define t1 where "t1 = t\<lparr>t_rxbufWanted := 0\<rparr>"
  define t2 where "t2 = unmaskReceiveBuffer ws t1"
  have enough: "header_size ws + unat (hd_N ws) \<le> length (t_rxbuf t)"
    using ws(7,9) rxbuf by simp
  have "\<not> hd_N ws > push_bit 63 1"
  proof -
    have "unat (push_bit 63 1 :: uint64) = 2 ^ 63" by simp
    with ws(7) assms(3) show ?thesis by (simp add: word_less_nat_alt not_less)
  qed
  moreover have ctrl: "(\<not> fin \<and> (ty = PING \<or> ty = PONG \<or> ty = CLOSE)) = False"
    using assms(4) by (auto simp: opcode_defs)
  ultimately have one: "dispatchOne sk t =
      (let (erase, t') = handleFrame sk ws msg t2
       in if erase then (Consumed, t'\<lparr>t_rxbuf := drop (header_size ws + unat (hd_N ws)) (t_rxbuf t')\<rparr>) else (Refused, t'))"
    using ws enough by (simp add: dispatchOne_def Let_def ctrl t1_def [symmetric] t2_def) (simp add: t1_def ctrl Let_def)
  have rb: "length (t_rxbuf t2) = length (t_rxbuf t)"
    using length_unmaskReceiveBuffer [of ws t1] enough by (simp add: t2_def t1_def)
  have "drop (header_size ws + unat (hd_N ws)) (t_rxbuf t2) = rest"
  proof (cases "hd_mask ws")
    case True
    have "length (take (header_size ws) (t_rxbuf t) @ msg) = header_size ws + length msg" using enough by simp
    moreover have "t_rxbuf t2 = (take (header_size ws) (t_rxbuf t) @ msg) @ rest"
      using True ws(7-9) rxbuf by (simp add: t2_def t1_def unmaskReceiveBuffer_def)
    ultimately show ?thesis by (simp only: ws(7) drop_append) simp
  next
    case False
    with ws(7,9) rxbuf show ?thesis by (simp add: t2_def t1_def unmaskReceiveBuffer_def)
  qed
  moreover have "t_rxbuf t' = t_rxbuf t2" if "handleFrame sk ws msg t2 = (e, t')" for e t'
    using t_rxbuf_handleFrame [of sk ws msg t2] that by simp
  ultimately have "dispatchOne sk t =
      (let (erase, t') = handleFrame sk ws msg t2
       in if erase then (Consumed, t'\<lparr>t_rxbuf := rest\<rparr>) else (Refused, t'))"
    unfolding one by (auto split: prod.split)
  moreover have "t2 = t\<lparr>t_rxbufWanted := 0, t_rxbuf := t_rxbuf t2\<rparr>"
    by (simp add: t2_def t1_def unmaskReceiveBuffer_def)
  ultimately have "dispatchOne sk t =
      (let (erase, t') = handleFrame sk ws msg (t\<lparr>t_rxbufWanted := 0, t_rxbuf := t_rxbuf t2\<rparr>)
       in if erase then (Consumed, t'\<lparr>t_rxbuf := rest\<rparr>) else (Refused, t'))" by simp
  with ws rb show ?thesis by blast
qed

text \<open>What is output for a message in \<open>n\<close> frames.\<close>

definition messageOutput :: "nat \<Rightarrow> byte list \<Rightarrow> MessageKind \<Rightarrow> ix_out list" where
  "messageOutput n msg kind =
     replicate (n - 1) (OutMessage [] 0 False FRAGMENT) @ [OutMessage msg (length msg) False kind]"

definition kindOf :: "byte \<Rightarrow> MessageKind" where
  "kindOf ty = (if ty = TEXT_FRAME then MSG_TEXT else MSG_BINARY)"

lemma is_opcode_data: "is_opcode TEXT_FRAME" "is_opcode BINARY_FRAME" "is_opcode CONTINUATION"
  by (simp_all add: is_opcode_def)

text \<open>The frames that follow the first: the parts are collected and merged at the last.\<close>

lemma dispatch_continuation:
  assumes "0 < n" and "valid_keys n keys" and "length (concat (t_chunks t)) + length w < 2 ^ 63"
    and "t_chunks t \<noteq> []" and "\<not> t_receivedMessageCompressed t"
    and "t_fragmentedMessageKind t = MSG_TEXT \<longrightarrow> validateUtf8 (concat (t_chunks t) @ w)"
    and "t_fragmentedMessageKind t \<noteq> FRAGMENT"
    and "t_rxbuf t = concat (messageFrames m CONTINUATION False n w keys) @ rest"
  shows "\<exists>t'. dispatchFrames sk (length (t_rxbuf t)) t = dispatchFrames sk (length rest) t' \<and>
           t_rxbuf t' = rest \<and> t_chunks t' = [] \<and> \<not> t_receivedMessageCompressed t' \<and>
           t_readyState t' = t_readyState t \<and> t_socket t' = t_socket t \<and>
           t_out t' = t_out t @ messageOutput n (concat (t_chunks t) @ w) (t_fragmentedMessageKind t)"
  using assms
proof (induction n arbitrary: t w keys)
  case (Suc n)
  define part where "part = (if n = 0 then w else take kChunkSize w)"
  define rest1 where "rest1 = concat (messageFrames m CONTINUATION False n (drop kChunkSize w) (tl keys)) @ rest"
  have rxbuf: "t_rxbuf t = frameBytes m (hd keys) CONTINUATION (n = 0) False part @ rest1"
    using Suc.prems(8) by (simp add: part_def rest1_def)
  have key: "length (hd keys) = 4" "valid_keys n (tl keys)"
    using Suc.prems(2) by (cases keys, auto simp: valid_keys_def)+
  have "length part \<le> length w" by (simp add: part_def)
  then have "length part < 2 ^ 63" using Suc.prems(3) by linarith
  from dispatchOne_frame [OF is_opcode_data(3) key(1) this _ rxbuf, of sk] obtain ws rb where
    ws: "hd_opcode ws = CONTINUATION" "hd_fin ws = (n = 0)" "length rb = length (t_rxbuf t)"
    and one: "dispatchOne sk t =
      (let (erase, t') = handleFrame sk ws part (t\<lparr>t_rxbufWanted := 0, t_rxbuf := rb\<rparr>)
       in if erase then (Consumed, t'\<lparr>t_rxbuf := rest1\<rparr>) else (Refused, t'))" by auto
  show ?case
  proof (cases "n = 0")
    case True
    define t' where "t' = t\<lparr>t_rxbufWanted := 0, t_rxbuf := rest, t_chunks := [], t_receivedMessageCompressed := False,
      t_out := t_out t @ [OutMessage (concat (t_chunks t) @ w) (length (concat (t_chunks t) @ w)) False (t_fragmentedMessageKind t)]\<rparr>"
    have "dispatchOne sk t = (Consumed, t')"
      using True ws Suc.prems(4-7) one
      by (auto simp: handleFrame_def handleData_def sequenceCheck_def emitMessage_def callOut_def Let_def
          part_def rest1_def t'_def)
    from dispatchFrames_step [OF this] True show ?thesis
      by (intro exI [of _ t']) (simp add: t'_def messageOutput_def)
  next
    case False
    define t1 where "t1 = t\<lparr>t_rxbufWanted := 0, t_rxbuf := rest1, t_chunks := t_chunks t @ [part],
      t_out := t_out t @ [OutMessage [] 0 False FRAGMENT]\<rparr>"
    have "dispatchOne sk t = (Consumed, t1)"
      using False ws Suc.prems(4) one
      by (simp add: handleFrame_def handleData_def sequenceCheck_def emitMessage_def callOut_def Let_def t1_def)
    note step = dispatchFrames_step [OF this]
    have split: "concat (t_chunks t1) @ drop kChunkSize w = concat (t_chunks t) @ w"
      using False by (simp add: t1_def part_def)
    have "length (concat (t_chunks t1)) + length (drop kChunkSize w) = length (concat (t_chunks t)) + length w"
      using arg_cong [OF split, of length] by simp
    then obtain t' where
      t': "dispatchFrames sk (length (t_rxbuf t1)) t1 = dispatchFrames sk (length rest) t'"
        "t_rxbuf t' = rest" "t_chunks t' = []" "\<not> t_receivedMessageCompressed t'"
        "t_readyState t' = t_readyState t1" "t_socket t' = t_socket t1"
        "t_out t' = t_out t1 @ messageOutput n (concat (t_chunks t1) @ drop kChunkSize w) (t_fragmentedMessageKind t1)"
      using Suc.IH [of "tl keys" t1 "drop kChunkSize w"] False key(2) Suc.prems(3,5-7) split
      by (auto simp: t1_def rest1_def)
    have "messageOutput (Suc n) x k = OutMessage [] 0 False FRAGMENT # messageOutput n x k" for x k
      using False by (cases n) (simp_all add: messageOutput_def)
    with t' step split show ?thesis by (intro exI [of _ t']) (simp add: t1_def)
  qed
qed simp

text \<open>
  A whole message, of one frame or several: on a connection that is not in the middle of another
  message and does not compress, it is output once, as it was sent.
\<close>

lemma dispatch_message:
  assumes "0 < n" and "valid_keys n keys" and "length w < 2 ^ 63" and "ty = TEXT_FRAME \<or> ty = BINARY_FRAME"
    and "t_chunks t = []" and "\<not> t_enablePerMessageDeflate t"
    and "ty = TEXT_FRAME \<longrightarrow> validateUtf8 w"
    and "t_rxbuf t = concat (messageFrames m ty False n w keys) @ rest"
  shows "\<exists>t'. dispatchFrames sk (length (t_rxbuf t)) t = dispatchFrames sk (length rest) t' \<and>
           t_rxbuf t' = rest \<and> t_chunks t' = [] \<and> t_readyState t' = t_readyState t \<and> t_socket t' = t_socket t \<and>
           t_out t' = t_out t @ messageOutput n w (kindOf ty)"
proof -
  obtain k where n: "n = Suc k" using assms(1) by (cases n) auto
  define part where "part = (if k = 0 then w else take kChunkSize w)"
  define rest1 where "rest1 = concat (messageFrames m CONTINUATION False k (drop kChunkSize w) (tl keys)) @ rest"
  have rxbuf: "t_rxbuf t = frameBytes m (hd keys) ty (k = 0) False part @ rest1"
    using assms(8) by (simp add: n part_def rest1_def)
  have key: "length (hd keys) = 4" "valid_keys k (tl keys)"
    using assms(2) by (cases keys, auto simp: valid_keys_def n)+
  have op: "is_opcode ty" "ty \<in> {TEXT_FRAME, BINARY_FRAME, CONTINUATION}" "ty \<noteq> CONTINUATION"
    using assms(4) is_opcode_data by (auto simp: opcode_defs)
  have "length part \<le> length w" by (simp add: part_def)
  then have "length part < 2 ^ 63" using assms(3) by linarith
  from dispatchOne_frame [OF op(1) key(1) this _ rxbuf, of sk] op(2) obtain ws rb where
    ws: "hd_opcode ws = ty" "hd_fin ws = (k = 0)" "\<not> hd_rsv1 ws" "length rb = length (t_rxbuf t)"
    and one: "dispatchOne sk t =
      (let (erase, t') = handleFrame sk ws part (t\<lparr>t_rxbufWanted := 0, t_rxbuf := rb\<rparr>)
       in if erase then (Consumed, t'\<lparr>t_rxbuf := rest1\<rparr>) else (Refused, t'))" by auto
  show ?thesis
  proof (cases "k = 0")
    case True
    define t' where "t' = t\<lparr>t_rxbufWanted := 0, t_rxbuf := rest, t_fragmentedMessageKind := kindOf ty,
      t_receivedMessageCompressed := False, t_out := t_out t @ [OutMessage w (length w) False (kindOf ty)]\<rparr>"
    have "dispatchOne sk t = (Consumed, t')"
      using True ws assms(4-7) op one
      by (auto simp: handleFrame_def handleData_def sequenceCheck_def emitMessage_def callOut_def Let_def
          part_def rest1_def t'_def kindOf_def)
    from dispatchFrames_step [OF this] True assms(5) show ?thesis
      by (intro exI [of _ t']) (simp add: t'_def messageOutput_def n)
  next
    case False
    define t1 where "t1 = t\<lparr>t_rxbufWanted := 0, t_rxbuf := rest1, t_fragmentedMessageKind := kindOf ty,
      t_receivedMessageCompressed := False, t_chunks := [part], t_out := t_out t @ [OutMessage [] 0 False FRAGMENT]\<rparr>"
    have "dispatchOne sk t = (Consumed, t1)"
      using False ws assms(4-6) op one
      by (auto simp: handleFrame_def handleData_def sequenceCheck_def emitMessage_def callOut_def Let_def t1_def kindOf_def)
    note step = dispatchFrames_step [OF this]
    have split: "concat (t_chunks t1) @ drop kChunkSize w = w" using False by (simp add: t1_def part_def)
    have "length (concat (t_chunks t1)) + length (drop kChunkSize w) = length w"
      using arg_cong [OF split, of length] by simp
    moreover have "(kindOf ty = MSG_TEXT) = (ty = TEXT_FRAME)" "kindOf ty \<noteq> FRAGMENT" by (simp_all add: kindOf_def)
    ultimately obtain t' where
      t': "dispatchFrames sk (length (t_rxbuf t1)) t1 = dispatchFrames sk (length rest) t'"
        "t_rxbuf t' = rest" "t_chunks t' = []" "t_readyState t' = t_readyState t1" "t_socket t' = t_socket t1"
        "t_out t' = t_out t1 @ messageOutput k (concat (t_chunks t1) @ drop kChunkSize w) (t_fragmentedMessageKind t1)"
      using dispatch_continuation [of k "tl keys" t1 "drop kChunkSize w" m rest sk] False key(2) assms(3,7) split
      by (auto simp: t1_def rest1_def)
    have "messageOutput (Suc k) x kd = OutMessage [] 0 False FRAGMENT # messageOutput k x kd" for x kd
      using False by (cases k) (simp_all add: messageOutput_def)
    with t' step split show ?thesis by (intro exI [of _ t']) (simp add: t1_def n)
  qed
qed

section \<open>Closing\<close>

text \<open>What a send can change on the closing side: nothing while the connection is closing.\<close>

definition cs :: "'k transport \<Rightarrow> ReadyState \<times> byte list \<times> uint16 \<times> nat \<times> bool \<times> ix_out list" where
  "cs t = (t_readyState t, t_closeReason t, t_closeCode t, t_closeWireSize t, t_closeRemote t, t_out t)"

lemma csD:
  assumes "cs t' = cs t"
  shows "t_readyState t' = t_readyState t" and "t_out t' = t_out t" and "t_closeReason t' = t_closeReason t"
    and "t_closeCode t' = t_closeCode t" and "t_closeWireSize t' = t_closeWireSize t"
    and "t_closeRemote t' = t_closeRemote t"
  using assms by (simp_all add: cs_def)

lemma cs_basic [simp]:
  "cs (closeSocket sk t) = cs t"
  "cs (wakeUpFromPoll sk c t) = cs t"
  "cs (appendToSendBuffer header message key t) = cs t"
  "cs (t\<lparr>t_socket := k\<rparr>) = cs t"
  "cs (t\<lparr>t_txbuf := b\<rparr>) = cs t"
  by (simp_all add: cs_def closeSocket_def wakeUpFromPoll_def appendToSendBuffer_def)

text \<open>
  A connection that is up: as long as \<open>up\<close> holds of the socket, every send takes some of what it is
  offered, or asks to wait.
\<close>

definition healthy :: "'k sock_api \<Rightarrow> ('k \<Rightarrow> bool) \<Rightarrow> bool" where
  "healthy sk up \<longleftrightarrow>
     (\<forall>bs k ret k'. up k \<longrightarrow> bs \<noteq> [] \<longrightarrow> sk_send sk bs k = (ret, k') \<longrightarrow>
        up k' \<and> (ret > 0 \<or> ret < 0 \<and> sk_isWaitNeeded sk k')) \<and>
     (\<forall>k. up k \<longrightarrow> up (sk_wakeUpFromPoll sk kSendRequest k))"

definition alive :: "'k sock_api \<Rightarrow> ('k \<Rightarrow> bool) \<Rightarrow> 'k transport \<Rightarrow> bool" where
  "alive sk up t \<longleftrightarrow> healthy sk up \<and> up (t_socket t)"

lemma cs_sendOnSocket:
  "t_readyState t = CLOSING \<or> alive sk up t \<Longrightarrow>
     cs (snd (sendOnSocket sk t)) = cs t \<and>
     (alive sk up t \<longrightarrow> fst (sendOnSocket sk t) \<and> alive sk up (snd (sendOnSocket sk t)))"
proof (induction sk t rule: sendOnSocket.induct)
  case (1 sk t)
  obtain ret k where r: "sk_send sk (t_txbuf t) (t_socket t) = (ret, k)" by fastforce
  define t1 where "t1 = t\<lparr>t_socket := k, t_txbuf := drop (nat ret) (t_txbuf t)\<rparr>"
  have up: "up k \<and> (ret > 0 \<or> ret < 0 \<and> sk_isWaitNeeded sk k)" if "alive sk up t" "t_txbuf t \<noteq> []"
    using that r by (auto simp: alive_def healthy_def)
  have same: "cs t1 = cs t" "alive sk up t \<Longrightarrow> t_txbuf t \<noteq> [] \<Longrightarrow> alive sk up t1"
    using up by (auto simp: t1_def alive_def)
  consider "t_txbuf t = []" | "t_txbuf t \<noteq> []" "ret \<le> 0" | "t_txbuf t \<noteq> []" "ret > 0" by linarith
  then show ?case
  proof cases
    case 1
    then show ?thesis by (subst (1 2 3) sendOnSocket.simps) simp
  next
    case 2
    show ?thesis
    proof (cases "ret < 0 \<and> sk_isWaitNeeded sk k")
      case True
      with 2 r have "sendOnSocket sk t = (True, t\<lparr>t_socket := k\<rparr>)" by (subst sendOnSocket.simps) simp
      then show ?thesis using up 2 by (auto simp: alive_def cs_def)
    next
      case False
      with up 2 "1.prems" have "t_readyState t = CLOSING" "\<not> alive sk up t" by auto
      with 2 r False show ?thesis
        by (subst sendOnSocket.simps) (simp add: Let_def cs_def closeSocket_def)
    qed
  next
    case 3
    then have "sendOnSocket sk t = sendOnSocket sk t1"
      by (subst sendOnSocket.simps) (simp add: r Let_def t1_def)
    moreover have "cs (snd (sendOnSocket sk t1)) = cs t1 \<and>
        (alive sk up t1 \<longrightarrow> fst (sendOnSocket sk t1) \<and> alive sk up (snd (sendOnSocket sk t1)))"
      using 3 "1.IH" [OF _ r [symmetric]] "1.prems" same(2) by (auto simp: t1_def)
    ultimately show ?thesis using same 3 by simp
  qed
qed

lemma cs_sendFragment:
  assumes "t_readyState t = CLOSING \<or> alive sk up t"
  shows "cs (snd (sendFragment sk type fin m c t)) = cs t"
    and "alive sk up t \<Longrightarrow> fst (sendFragment sk type fin m c t) \<and> alive sk up (snd (sendFragment sk type fin m c t))"
proof -
  define t1 where "t1 = appendToSendBuffer (frameHeader (t_useMask t) type fin c (of_nat (length m))
        (maskingKey (sk_seconds sk (t_socket t)))) m (maskingKey (sk_seconds sk (t_socket t))) t"
  have "cs t1 = cs t" "alive sk up t1 = alive sk up t" "sendFragment sk type fin m c t = sendOnSocket sk t1"
    by (simp_all add: t1_def sendFragment_def Let_def alive_def appendToSendBuffer_def cs_def)
  with cs_sendOnSocket [of t1 sk up] assms csD(1) [of t1 t]
  show "cs (snd (sendFragment sk type fin m c t)) = cs t"
    "alive sk up t \<Longrightarrow> fst (sendFragment sk type fin m c t) \<and> alive sk up (snd (sendFragment sk type fin m c t))"
    by auto
qed

lemma cs_sendSteps:
  assumes "t_readyState t = CLOSING \<or> alive sk up t"
  shows "cs (snd (sendSteps sk type c n w t)) = cs t"
    and "alive sk up t \<Longrightarrow> fst (sendSteps sk type c n w t) \<and> alive sk up (snd (sendSteps sk type c n w t))"
proof -
  have "cs (snd (sendSteps sk type c n w t)) = cs t \<and>
      (alive sk up t \<longrightarrow> fst (sendSteps sk type c n w t) \<and> alive sk up (snd (sendSteps sk type c n w t)))"
    using assms
  proof (induction n arbitrary: type w t)
    case (Suc n)
    define part where "part = (if n = 0 then w else take kChunkSize w)"
    obtain ok t1 where f: "sendFragment sk type (n = 0) part c t = (ok, t1)" by fastforce
    with cs_sendFragment [OF Suc.prems, of type "n = 0" part c] have t1: "cs t1 = cs t"
      "alive sk up t \<Longrightarrow> ok \<and> alive sk up t1" by simp_all
    with Suc.IH [of t1 CONTINUATION "drop kChunkSize w"] Suc.prems csD(1) [OF t1(1)] f show ?case
      by (auto simp: Let_def part_def split: bool.splits)
  qed simp
  then show "cs (snd (sendSteps sk type c n w t)) = cs t"
    "alive sk up t \<Longrightarrow> fst (sendSteps sk type c n w t) \<and> alive sk up (snd (sendSteps sk type c n w t))" by auto
qed

lemma alive_wake: "alive sk up t \<Longrightarrow> alive sk up (wakeUpFromPoll sk kSendRequest t)"
  by (simp add: alive_def healthy_def wakeUpFromPoll_def)

lemma cs_sendData:
  assumes "t_readyState t = CLOSING \<or> alive sk up t"
  shows "cs (snd (sendData sk type m c t)) = cs t" and "alive sk up t \<Longrightarrow> alive sk up (snd (sendData sk type m c t))"
proof -
  have "cs (snd (sendData sk type m c t)) = cs t \<and> (alive sk up t \<longrightarrow> alive sk up (snd (sendData sk type m c t)))"
  proof (cases rule: sendData_cases [of t sk type m c])
    case (single wire ok t1)
    with cs_sendFragment [OF assms, of type True wire c] show ?thesis by (auto intro: alive_wake)
  next
    case (failed wire t1)
    with cs_sendSteps [OF assms, of type c "length wire div kChunkSize" wire] show ?thesis by auto
  next
    case (several wire t1)
    with cs_sendSteps [OF assms, of type c "length wire div kChunkSize" wire] show ?thesis by (auto intro: alive_wake)
  qed simp_all
  then show "cs (snd (sendData sk type m c t)) = cs t" "alive sk up t \<Longrightarrow> alive sk up (snd (sendData sk type m c t))" by auto
qed

text \<open>A connection that is up takes a whole message.\<close>

lemma alive_sendData:
  assumes "alive sk up t" and "t_readyState t = OPEN"
  shows "si_success (fst (sendData sk type m False t))"
proof (cases rule: sendData_cases [of t sk type m False])
  case (single w ok t1)
  with cs_sendFragment(2) [of t sk up type True w False] assms(1) show ?thesis by auto
next
  case (failed w t1)
  with cs_sendSteps(2) [of t sk up type False "length w div kChunkSize" w] assms(1) show ?thesis by simp
qed (use assms(2) in simp_all)

lemma cs_sendCloseFrame: "t_readyState t = CLOSING \<Longrightarrow> cs (sendCloseFrame sk code reason t) = cs t"
  by (simp add: sendCloseFrame_def cs_sendData)

text \<open>
  A CLOSE frame that was not asked for: whatever the state before, the connection ends closed and
  one closure by the peer is reported, with the code and reason of the frame.
\<close>

lemma handleClose_unasked:
  assumes "t_readyState t \<noteq> CLOSING" and "closeInfo d = (code, reason)"
  shows "t_readyState (handleClose sk d t) = CLOSED \<and>
         t_out (handleClose sk d t) = t_out t @ [OutClose code reason (length (t_rxbuf t)) True]"
proof -
  define t1 where "t1 = setReadyState sk CLOSING t"
  define t2 where "t2 = wakeUpFromPoll sk kCloseRequest (sendCloseFrame sk code reason t1)"
  have "t_readyState t1 = CLOSING" "t_out t1 = t_out t"
    using assms(1) by (simp_all add: t1_def setReadyState_def)
  with cs_sendCloseFrame [of t1 sk code reason] have t2: "t_readyState t2 = CLOSING" "t_out t2 = t_out t"
    using csD [of t2 t1] by (simp_all add: t2_def)
  have "t_rxbuf t2 = t_rxbuf t" using rxD(1) [of t2 t] by (simp add: t2_def t1_def)
  moreover have "handleClose sk d t = closeSocketAndSwitchToClosedState sk code reason (length (t_rxbuf t2)) True t2"
    using assms by (simp add: handleClose_def Let_def t1_def t2_def)
  ultimately show ?thesis
    using t2 by (simp add: closeSocketAndSwitchToClosedState_def setReadyState_def setCloseInfo_def closeSocket_def)
qed

lemma dispatch_close_frame:
  assumes "length key = 4" and "length d < 2 ^ 63" and "t_readyState t \<noteq> CLOSING"
    and "closeInfo d = (code, reason)" and "t_rxbuf t = frameBytes m key CLOSE True False d @ rest"
  shows "\<exists>t'. dispatchFrames sk (length (t_rxbuf t)) t = dispatchFrames sk (length rest) t' \<and>
           t_rxbuf t' = rest \<and> t_readyState t' = CLOSED \<and>
           t_out t' = t_out t @ [OutClose code reason (length (t_rxbuf t)) True]"
proof -
  have "is_opcode CLOSE" by (simp add: is_opcode_def)
  from dispatchOne_frame [OF this assms(1,2) _ assms(5), of sk] obtain ws rb where
    ws: "hd_opcode ws = CLOSE" "length rb = length (t_rxbuf t)"
    and one: "dispatchOne sk t =
      (let (erase, t') = handleFrame sk ws d (t\<lparr>t_rxbufWanted := 0, t_rxbuf := rb\<rparr>)
       in if erase then (Consumed, t'\<lparr>t_rxbuf := rest\<rparr>) else (Refused, t'))" by auto
  define t1 where "t1 = t\<lparr>t_rxbufWanted := 0, t_rxbuf := rb\<rparr>"
  have "handleFrame sk ws d t1 = (True, handleClose sk d t1)"
    by (simp add: handleFrame_def ws opcode_defs)
  then have "dispatchOne sk t = (Consumed, (handleClose sk d t1)\<lparr>t_rxbuf := rest\<rparr>)"
    using one by (simp add: t1_def)
  from dispatchFrames_step [OF this] handleClose_unasked [of t1 d code reason sk] assms(3,4) ws
  show ?thesis
    by (intro exI [of _ "(handleClose sk d t1)\<lparr>t_rxbuf := rest\<rparr>"]) (simp add: t1_def)
qed

text \<open>Codes that are passed on: valid ones, and the code that stands for none.\<close>

lemma closeInfo_valid: "validCloseCode (fst (closeInfo d))"
  by (auto simp: closeInfo_def Let_def validCloseCode_def close_codes split: if_splits)

lemma dispatch_all_consumed:
  assumes "dispatchFrames sk (length (t_rxbuf t)) t = dispatchFrames sk 0 t'"
  shows "dispatch sk Succeeded t = t'"
  using assms by (simp add: dispatch_def afterFrames_def)

text \<open>What a successful send hands over is, in a receive buffer, dispatched as one message.\<close>

lemma dispatch_handed:
  assumes "send_law sk wire" and "si_success (fst (sendData sk ty msg False t))"
    and "length msg < 2 ^ 63" and "ty = TEXT_FRAME \<or> ty = BINARY_FRAME" and "ty = TEXT_FRAME \<longrightarrow> validateUtf8 msg"
  obtains sent where "handed wire (snd (sendData sk ty msg False t)) = handed wire t @ sent"
    and "\<And>(sk' :: 'm sock_api) r. t_chunks r = [] \<Longrightarrow> \<not> t_enablePerMessageDeflate r \<Longrightarrow> t_rxbuf r = sent \<Longrightarrow>
           t_rxbuf (dispatch sk' Succeeded r) = [] \<and> t_readyState (dispatch sk' Succeeded r) = t_readyState r \<and>
           t_out (dispatch sk' Succeeded r) = t_out r @ messageOutput (max 1 (length msg div kChunkSize)) msg (kindOf ty)"
proof -
  define n where "n = max 1 (length msg div kChunkSize)"
  from sendData_frames [OF assms(1,2)] obtain keys where keys: "valid_keys n keys"
    and sent: "handed wire (snd (sendData sk ty msg False t)) =
      handed wire t @ concat (messageFrames (t_useMask t) ty False n msg keys)" by (auto simp: n_def)
  have n: "0 < n" by (simp add: n_def)
  have "t_rxbuf (dispatch sk' Succeeded r) = [] \<and> t_readyState (dispatch sk' Succeeded r) = t_readyState r \<and>
      t_out (dispatch sk' Succeeded r) = t_out r @ messageOutput n msg (kindOf ty)"
    if r: "t_chunks r = []" "\<not> t_enablePerMessageDeflate r" "t_rxbuf r = concat (messageFrames (t_useMask t) ty False n msg keys)"
    for sk' :: "'m sock_api" and r
  proof -
    obtain t' where t': "dispatchFrames sk' (length (t_rxbuf r)) r = dispatchFrames sk' 0 t'" "t_rxbuf t' = []"
        "t_readyState t' = t_readyState r" "t_out t' = t_out r @ messageOutput n msg (kindOf ty)"
      using dispatch_message [OF n keys assms(3,4) r(1,2) assms(5), of "t_useMask t" "[]" sk'] r(3) by auto
    from dispatch_all_consumed [OF t'(1)] t' show ?thesis by simp
  qed
  from that [OF sent [unfolded n_def] this [unfolded n_def]] show ?thesis .
qed

lemma dispatch_sent:
  assumes "send_law sk wire" and "si_success (fst (sendData sk ty msg False t))" and "handed wire t = []"
    and "length msg < 2 ^ 63" and "ty = TEXT_FRAME \<or> ty = BINARY_FRAME" and "ty = TEXT_FRAME \<longrightarrow> validateUtf8 msg"
    and "t_chunks r = []" and "\<not> t_enablePerMessageDeflate r"
    and "t_rxbuf r = handed wire (snd (sendData sk ty msg False t))"
  shows "t_rxbuf (dispatch sk' Succeeded r) = [] \<and> t_readyState (dispatch sk' Succeeded r) = t_readyState r \<and>
         t_out (dispatch sk' Succeeded r) = t_out r @ messageOutput (max 1 (length msg div kChunkSize)) msg (kindOf ty)"
  by (rule dispatch_handed [OF assms(1,2,4-6)]) (use assms(3,7-9) in simp)

section \<open>A requested cancellation stays requested\<close>

lemma req_sendOnSocket [simp]: "t_requestInitCancellation (snd (sendOnSocket sk t)) = t_requestInitCancellation t"
proof (induction sk t rule: sendOnSocket.induct)
  case (1 sk t)
  obtain ret k where r: "sk_send sk (t_txbuf t) (t_socket t) = (ret, k)" by fastforce
  show ?case
    using "1.IH" [OF _ r [symmetric]]
    by (subst sendOnSocket.simps) (auto simp: r Let_def closeSocket_def setReadyState_def)
qed

lemma req_sendFragment [simp]:
  "t_requestInitCancellation (snd (sendFragment sk type fin m c t)) = t_requestInitCancellation t"
  by (simp add: sendFragment_def Let_def appendToSendBuffer_def)

lemma req_sendSteps:
  "t_requestInitCancellation (snd (sendSteps sk type c n w t)) = t_requestInitCancellation t"
proof (induction n arbitrary: type w t)
  case (Suc n)
  define part where "part = (if n = 0 then w else take kChunkSize w)"
  obtain ok t1 where f: "sendFragment sk type (n = 0) part c t = (ok, t1)" by fastforce
  with req_sendFragment [of sk type "n = 0" part c t]
  have "t_requestInitCancellation t1 = t_requestInitCancellation t" by simp
  with Suc.IH [of CONTINUATION "drop kChunkSize w" t1] f show ?case
    by (auto simp: Let_def part_def split: bool.splits)
qed simp

lemma req_sendData [simp]:
  "t_requestInitCancellation (snd (sendData sk type m c t)) = t_requestInitCancellation t"
proof (cases rule: sendData_cases [of t sk type m c])
  case (single w ok t1)
  with req_sendFragment [of sk type True w c t] show ?thesis by (simp add: wakeUpFromPoll_def)
next
  case (failed w t1)
  with req_sendSteps [of sk type c "length w div kChunkSize" w t] show ?thesis by simp
next
  case (several w t1)
  with req_sendSteps [of sk type c "length w div kChunkSize" w t] show ?thesis by (simp add: wakeUpFromPoll_def)
qed simp_all

lemma req_sendCloseFrame:
  "t_requestInitCancellation (sendCloseFrame sk code reason t) = t_requestInitCancellation t"
  by (simp add: sendCloseFrame_def)

section \<open>Short control frames\<close>

text \<open>A message that fits one frame is handed over as that frame, whether or not the socket takes it.\<close>

lemma handed_sendData_small:
  assumes "send_law sk wire" and "t_readyState t = OPEN \<or> t_readyState t = CLOSING" and "length m < kChunkSize"
  shows "handed wire (snd (sendData sk type m False t)) =
           handed wire t @ frameBytes (t_useMask t) (maskingKey (sk_seconds sk (t_socket t))) type True False m"
proof (cases rule: sendData_cases [of t sk type m False])
  case (single w ok t1)
  then show ?thesis using assms(1) handed_sendFragment [OF assms(1), of type True m False t] by simp
qed (use assms(2,3) in auto)

text \<open>The payload of a CLOSE frame: the code in network order and the reason, or nothing.\<close>

definition closePayload :: "uint16 \<Rightarrow> byte list \<Rightarrow> byte list" where
  "closePayload code reason =
     (if code = kNoStatusCodeErrorCode then [] else ucast (drop_bit 8 code) # ucast (code AND 0xff) # reason)"

lemma handed_sendCloseFrame:
  assumes "send_law sk wire" and "t_readyState t = OPEN \<or> t_readyState t = CLOSING"
    and "length reason < kChunkSize - 2"
  shows "handed wire (sendCloseFrame sk code reason t) =
           handed wire t @ frameBytes (t_useMask t) (maskingKey (sk_seconds sk (t_socket t))) CLOSE True False
                             (closePayload code reason)"
proof -
  have len: "length (closePayload code reason) < kChunkSize"
    using assms(3) by (simp add: closePayload_def kChunkSize_def)
  have "sendCloseFrame sk code reason t = snd (sendData sk CLOSE (closePayload code reason) False t)"
    by (simp add: sendCloseFrame_def closePayload_def)
  with handed_sendData_small [OF assms(1,2) len, of CLOSE] show ?thesis by simp
qed

text \<open>\<open>close\<close> on an open connection: it becomes closing, keeps what is to be reported, and sends the frame.\<close>

lemma close_open:
  assumes "t_readyState t = OPEN"
  shows "t_readyState (close sk code reason n r t) = CLOSING" and "t_closeCode (close sk code reason n r t) = code"
    and "t_closeReason (close sk code reason n r t) = reason" and "t_out (close sk code reason n r t) = t_out t"
    and "t_requestInitCancellation (close sk code reason n r t)"
    and "send_law sk wire \<Longrightarrow> length reason < kChunkSize - 2 \<Longrightarrow>
           handed wire (close sk code reason n r t) =
             handed wire t @ frameBytes (t_useMask t) (maskingKey (sk_seconds sk (t_socket t))) CLOSE True False
                               (closePayload code reason)"
proof -
  define t1 where "t1 = setReadyState sk CLOSING ((setCloseInfo code reason (if n = 0 then length reason else n) r
    (t\<lparr>t_requestInitCancellation := True\<rparr>))\<lparr>t_closingTimePoint := sk_now sk (t_socket t)\<rparr>)"
  have t1: "t_readyState t1 = CLOSING" "t_closeCode t1 = code" "t_closeReason t1 = reason" "t_out t1 = t_out t"
    "t_useMask t1 = t_useMask t" "t_socket t1 = t_socket t" "t_txbuf t1 = t_txbuf t" "t_requestInitCancellation t1"
    using assms by (simp_all add: t1_def setReadyState_def setCloseInfo_def)
  have eq: "close sk code reason n r t = wakeUpFromPoll sk kSendRequest (sendCloseFrame sk code reason t1)"
    using assms by (simp add: close_def Let_def t1_def setCloseInfo_def)
  have cs: "cs (sendCloseFrame sk code reason t1) = cs t1" using t1(1) by (rule cs_sendCloseFrame)
  have "cs (close sk code reason n r t) = cs t1" by (simp add: eq cs)
  from csD [OF this] t1 show "t_readyState (close sk code reason n r t) = CLOSING"
    "t_closeCode (close sk code reason n r t) = code" "t_closeReason (close sk code reason n r t) = reason"
    "t_out (close sk code reason n r t) = t_out t" by simp_all
  show "t_requestInitCancellation (close sk code reason n r t)"
    using req_sendCloseFrame [of sk code reason t1] t1(8) by (simp add: eq wakeUpFromPoll_def)
  show "handed wire (close sk code reason n r t) =
      handed wire t @ frameBytes (t_useMask t) (maskingKey (sk_seconds sk (t_socket t))) CLOSE True False
                        (closePayload code reason)"
    if "send_law sk wire" "length reason < kChunkSize - 2"
    using handed_sendCloseFrame [OF that(1) _ that(2), of t1 code] t1 that(1)
    by (simp add: eq handed_def [of wire t] handed_def [of wire t1])
qed

text \<open>A ping on a connection that is up and answers pings.\<close>

lemma dispatch_ping_frame:
  assumes "length key = 4" and "length d \<le> 125" and "t_enablePong t" and "t_readyState t = OPEN \<or> t_readyState t = CLOSING"
    and "send_law sk wire" and "alive sk up t" and "t_rxbuf t = frameBytes m key PING True False d @ rest"
  shows "\<exists>t'. dispatchFrames sk (length (t_rxbuf t)) t = dispatchFrames sk (length rest) t' \<and>
           t_rxbuf t' = rest \<and> t_readyState t' = t_readyState t \<and>
           t_out t' = t_out t @ [OutMessage d (length d) False MSG_PING] \<and>
           handed wire t' = handed wire t @
             frameBytes (t_useMask t) (maskingKey (sk_seconds sk (t_socket t))) PONG True False d"
proof -
  have "is_opcode PING" "length d < 2 ^ 63" using assms(2) by (simp_all add: is_opcode_def)
  from dispatchOne_frame [OF this(1) assms(1) this(2) _ assms(7), of sk] obtain ws rb where
    ws: "hd_opcode ws = PING" and one: "dispatchOne sk t =
      (let (erase, t') = handleFrame sk ws d (t\<lparr>t_rxbufWanted := 0, t_rxbuf := rb\<rparr>)
       in if erase then (Consumed, t'\<lparr>t_rxbuf := rest\<rparr>) else (Refused, t'))" by auto
  define t1 where "t1 = t\<lparr>t_rxbufWanted := 0, t_rxbuf := rb\<rparr>"
  define t2 where "t2 = snd (sendData sk PONG d False t1)"
  have t1: "cs t1 = cs t" "t_useMask t1 = t_useMask t" "t_socket t1 = t_socket t" "handed wire t1 = handed wire t"
    "t_readyState t1 = t_readyState t" "t_enablePong t1"
    using assms(3) by (simp_all add: t1_def cs_def handed_def)
  have "alive sk up t1" using assms(6) t1(3) by (simp add: alive_def)
  then have "cs t2 = cs t" using cs_sendData(1) [of t1 sk up PONG d False] t1(1) by (simp add: t2_def)
  then have t2: "t_readyState t2 = t_readyState t" "t_out t2 = t_out t" by (rule csD)+
  have h: "handed wire t2 = handed wire t @
      frameBytes (t_useMask t) (maskingKey (sk_seconds sk (t_socket t))) PONG True False d"
    using handed_sendData_small [OF assms(5), of t1 d PONG] t1 assms(2,4) by (simp add: t2_def kChunkSize_def)
  define t' where "t' = (callOut (OutMessage d (length d) False MSG_PING) t2)\<lparr>t_rxbuf := rest\<rparr>"
  have "handleFrame sk ws d t1 = (True, callOut (OutMessage d (length d) False MSG_PING) t2)"
    using assms(2) t1(6) by (simp add: handleFrame_def ws opcode_defs handlePing_def emitMessage_def t2_def)
  then have "dispatchOne sk t = (Consumed, t')" using one by (simp add: t1_def t'_def)
  from dispatchFrames_step [OF this] t2 h show ?thesis
    by (intro exI [of _ t']) (simp add: t'_def callOut_def handed_def)
qed

section \<open>Answering a CLOSE frame\<close>

lemma length_decimalDigits: "length (decimalDigits n x) \<le> n"
  by (induction n x rule: decimalDigits.induct) auto

lemma length_closeInfo: "length (snd (closeInfo d)) \<le> max 30 (length d)"
proof -
  have len: "length (kInvalidCloseCodeMessage @ bytes_of '': '' @ decimalDigits 5 n) \<le> 30" for n
    using length_decimalDigits [of 5 n] by (simp add: kInvalidCloseCodeMessage_def bytes_of_def)
  have "length kInvalidFramePayloadDataMessage \<le> 30" "length kNoStatusCodeErrorMessage \<le> 30"
    by (simp_all add: kInvalidFramePayloadDataMessage_def kNoStatusCodeErrorMessage_def bytes_of_def)
  with len show ?thesis
    by (auto simp: closeInfo_def Let_def max_def split: if_splits) (meson le_trans nat_le_linear)+
qed

lemma handed_handleClose:
  assumes "send_law sk wire" and "t_readyState t = OPEN" and "closeInfo d = (code, reason)" and "length d \<le> 125"
  shows "handed wire (handleClose sk d t) = handed wire t @
           frameBytes (t_useMask t) (maskingKey (sk_seconds sk (t_socket t))) CLOSE True False (closePayload code reason)"
proof -
  define t1 where "t1 = setReadyState sk CLOSING t"
  have t1: "t_readyState t1 = CLOSING" "t_useMask t1 = t_useMask t" "t_socket t1 = t_socket t"
    "handed wire t1 = handed wire t"
    using assms(2) by (simp_all add: t1_def setReadyState_def handed_def)
  have "length reason < kChunkSize - 2"
    using length_closeInfo [of d] assms(3,4) by (simp add: kChunkSize_def)
  from handed_sendCloseFrame [OF assms(1) _ this, of t1 code] t1 have
    "handed wire (sendCloseFrame sk code reason t1) = handed wire t @
       frameBytes (t_useMask t) (maskingKey (sk_seconds sk (t_socket t))) CLOSE True False (closePayload code reason)"
    by simp
  moreover have "handed wire (closeSocketAndSwitchToClosedState sk code reason n True t') = handed wire t'" for n t'
    using assms(1)
    by (simp add: closeSocketAndSwitchToClosedState_def handed_def setReadyState_def setCloseInfo_def closeSocket_def send_law_def)
  moreover have "handleClose sk d t = closeSocketAndSwitchToClosedState sk code reason
      (length (t_rxbuf (wakeUpFromPoll sk kCloseRequest (sendCloseFrame sk code reason t1)))) True
      (wakeUpFromPoll sk kCloseRequest (sendCloseFrame sk code reason t1))"
    using assms(2,3) by (simp add: handleClose_def Let_def t1_def)
  ultimately show ?thesis using assms(1) by simp
qed

lemma dispatch_close_reply:
  assumes "send_law sk wire" and "t_readyState t = OPEN" and "closeInfo d = (code, reason)" and "length d \<le> 125"
    and "length key = 4" and "t_rxbuf t = frameBytes m key CLOSE True False d @ rest"
  shows "\<exists>t'. dispatchFrames sk (length (t_rxbuf t)) t = dispatchFrames sk (length rest) t' \<and>
           t_rxbuf t' = rest \<and> t_readyState t' = CLOSED \<and>
           t_out t' = t_out t @ [OutClose code reason (length (t_rxbuf t)) True] \<and>
           handed wire t' = handed wire t @ frameBytes (t_useMask t) (maskingKey (sk_seconds sk (t_socket t)))
                                               CLOSE True False (closePayload code reason)"
proof -
  have "is_opcode CLOSE" "length d < 2 ^ 63" using assms(4) by (simp_all add: is_opcode_def)
  from dispatchOne_frame [OF this(1) assms(5) this(2) _ assms(6), of sk] obtain ws rb where
    ws: "hd_opcode ws = CLOSE" "length rb = length (t_rxbuf t)"
    and one: "dispatchOne sk t =
      (let (erase, t') = handleFrame sk ws d (t\<lparr>t_rxbufWanted := 0, t_rxbuf := rb\<rparr>)
       in if erase then (Consumed, t'\<lparr>t_rxbuf := rest\<rparr>) else (Refused, t'))" by auto
  define t1 where "t1 = t\<lparr>t_rxbufWanted := 0, t_rxbuf := rb\<rparr>"
  have t1: "handed wire t1 = handed wire t" by (simp add: t1_def handed_def)
  have "handleFrame sk ws d t1 = (True, handleClose sk d t1)"
    by (simp add: handleFrame_def ws opcode_defs)
  then have "dispatchOne sk t = (Consumed, (handleClose sk d t1)\<lparr>t_rxbuf := rest\<rparr>)"
    using one by (simp add: t1_def)
  from dispatchFrames_step [OF this] handleClose_unasked [of t1 d code reason sk]
    handed_handleClose [OF assms(1) _ assms(3,4), of t1] assms(2,3) ws t1 show ?thesis
    by (intro exI [of _ "(handleClose sk d t1)\<lparr>t_rxbuf := rest\<rparr>"]) (simp add: t1_def handed_def)
qed

section \<open>Protocol errors\<close>

text \<open>What the protocol forbids in a single frame, with the reason that is given for it.\<close>

definition violation :: "bool \<Rightarrow> wsheader \<Rightarrow> byte list option" where
  "violation deflate ws =
     (if hd_rsv1 ws \<and> \<not> deflate \<or> hd_rsv2 ws \<or> hd_rsv3 ws then Some kProtocolErrorReservedBitUsed
      else if \<not> hd_fin ws \<and> hd_opcode ws \<in> {PING, PONG, CLOSE}
      then Some kProtocolErrorCodeControlMessageFragmented
      else if hd_opcode ws = PING \<and> unat (hd_N ws) > 125 then Some kProtocolErrorPingPayloadOversized
      else if hd_opcode ws \<notin> {CONTINUATION, TEXT_FRAME, BINARY_FRAME, PING, PONG, CLOSE}
      then Some kProtocolErrorMessage
      else None)"

lemma violation_reason: "violation deflate ws = Some reason \<Longrightarrow> length reason < kChunkSize - 2"
  by (auto simp: violation_def kChunkSize_def kProtocolErrorReservedBitUsed_def bytes_of_def
      kProtocolErrorCodeControlMessageFragmented_def kProtocolErrorPingPayloadOversized_def
      kProtocolErrorMessage_def split: if_splits)

lemma dispatchOne_violation:
  assumes "parseHeader (t_rxbuf t) = Some ws" and "\<not> hd_N ws > push_bit 63 1"
    and "header_size ws + unat (hd_N ws) \<le> length (t_rxbuf t)"
    and "violation (t_enablePerMessageDeflate t) ws = Some reason"
  shows "\<exists>w rb n rb'. snd (dispatchOne sk t) =
           (close sk kProtocolErrorCode reason n False (t\<lparr>t_rxbufWanted := w, t_rxbuf := rb\<rparr>))\<lparr>t_rxbuf := rb'\<rparr>"
proof -
  define t1 where "t1 = unmaskReceiveBuffer ws (t\<lparr>t_rxbufWanted := 0\<rparr>)"
  have eta: "t = t\<lparr>t_rxbufWanted := t_rxbufWanted t, t_rxbuf := t_rxbuf t\<rparr>"
    "t\<lparr>t_rxbufWanted := 0\<rparr> = t\<lparr>t_rxbufWanted := 0, t_rxbuf := t_rxbuf t\<rparr>" by simp_all
  have t1: "t1 = t\<lparr>t_rxbufWanted := 0, t_rxbuf := t_rxbuf t1\<rparr>"
    by (simp add: t1_def unmaskReceiveBuffer_def)
  have len: "length (framePayload ws (t_rxbuf t)) = unat (hd_N ws)"
    using assms(3) by (rule length_framePayload)
  have keep: "c = c\<lparr>t_rxbuf := t_rxbuf c\<rparr>" for c :: "'a transport" by simp
  consider (reserved) "(hd_rsv1 ws \<and> \<not> t_enablePerMessageDeflate t) \<or> hd_rsv2 ws \<or> hd_rsv3 ws"
    | (fragmented) "\<not> ((hd_rsv1 ws \<and> \<not> t_enablePerMessageDeflate t) \<or> hd_rsv2 ws \<or> hd_rsv3 ws)"
        "\<not> hd_fin ws \<and> (hd_opcode ws = PING \<or> hd_opcode ws = PONG \<or> hd_opcode ws = CLOSE)"
    | (other) "\<not> ((hd_rsv1 ws \<and> \<not> t_enablePerMessageDeflate t) \<or> hd_rsv2 ws \<or> hd_rsv3 ws)"
        "\<not> (\<not> hd_fin ws \<and> (hd_opcode ws = PING \<or> hd_opcode ws = PONG \<or> hd_opcode ws = CLOSE))" by blast
  then show ?thesis
  proof cases
    case reserved
    then have "reason = kProtocolErrorReservedBitUsed" using assms(4) by (auto simp: violation_def)
    with reserved assms(1) have "snd (dispatchOne sk t) =
        close sk kProtocolErrorCode reason (length (t_rxbuf t)) False t" by (simp add: dispatchOne_def)
    then show ?thesis using eta(1) keep by metis
  next
    case fragmented
    then have "reason = kProtocolErrorCodeControlMessageFragmented" using assms(4) by (auto simp: violation_def)
    with fragmented assms(1-3) have "snd (dispatchOne sk t) =
        close sk kProtocolErrorCode reason 0 False (t\<lparr>t_rxbufWanted := 0\<rparr>)" by (auto simp: dispatchOne_def Let_def)
    then show ?thesis using eta(2) keep by metis
  next
    case other
    then have one: "dispatchOne sk t =
        (let (erase, t') = handleFrame sk ws (framePayload ws (t_rxbuf t)) t1
         in if erase then (Consumed, t'\<lparr>t_rxbuf := drop (header_size ws + unat (hd_N ws)) (t_rxbuf t')\<rparr>) else (Refused, t'))"
      using assms(1-3) by (auto simp: dispatchOne_def Let_def t1_def)
    show ?thesis
    proof (cases "hd_opcode ws = PING")
      case True
      with other assms(4) have r: "reason = kProtocolErrorPingPayloadOversized" "unat (hd_N ws) > 125"
        by (auto simp: violation_def split: if_splits)
      then have "handleFrame sk ws (framePayload ws (t_rxbuf t)) t1 = (False, close sk kProtocolErrorCode reason 0 False t1)"
        using True len by (simp add: handleFrame_def handlePing_def opcode_defs)
      then have "snd (dispatchOne sk t) = close sk kProtocolErrorCode reason 0 False t1" by (simp add: one)
      then show ?thesis using t1 keep by metis
    next
      case False
      with other assms(4) have r: "reason = kProtocolErrorMessage"
        "hd_opcode ws \<notin> {CONTINUATION, TEXT_FRAME, BINARY_FRAME, PING, PONG, CLOSE}"
        by (auto simp: violation_def split: if_splits)
      then have "handleFrame sk ws (framePayload ws (t_rxbuf t)) t1 =
          (True, close sk kProtocolErrorCode reason (length (t_rxbuf t1)) False t1)"
        by (simp add: handleFrame_def)
      then have "snd (dispatchOne sk t) = (close sk kProtocolErrorCode reason (length (t_rxbuf t1)) False t1)
          \<lparr>t_rxbuf := drop (header_size ws + unat (hd_N ws)) (t_rxbuf (close sk kProtocolErrorCode reason (length (t_rxbuf t1)) False t1))\<rparr>"
        by (simp add: one)
      then show ?thesis using t1 by metis
    qed
  qed
qed

end
