(* ===== verification/IxDemo.thy ===== *)
theory IxDemo
  imports IxTransportProofs
begin

text \<open>
  A concrete socket on which the properties of the connection are exercised: it takes whatever it
  is given, delivers nothing, and its clocks stand still. Its state is the list of bytes it has taken.
\<close>

definition demo_socket :: "byte list sock_api" where
  "demo_socket =
     \<lparr>sk_send = (\<lambda>bs k. (int (length bs), k @ bs)), sk_recv = (\<lambda>n k. (Inl (- 1), k)),
      sk_isWaitNeeded = (\<lambda>k. True), sk_close = (\<lambda>k. k), sk_isReadyToRead = (\<lambda>n k. Some (PollTimeout, k)),
      sk_isReadyToWrite = (\<lambda>n k. Some (PollReadyForWrite, k)), sk_wakeUpFromPoll = (\<lambda>c k. k),
      sk_isWakeUpFromPollSupported = (\<lambda>k. True), sk_now = (\<lambda>k. 0), sk_seconds = (\<lambda>k. 0x01020304),
      sk_compress = (\<lambda>m. None), sk_decompress = (\<lambda>m. (False, []))\<rparr>"

lemma demo_socket_simps [simp]:
  "sk_send demo_socket bs k = (int (length bs), k @ bs)"
  "sk_close demo_socket k = k"
  "sk_wakeUpFromPoll demo_socket c k = k"
  "sk_isWaitNeeded demo_socket k"
  "sk_seconds demo_socket k = 0x01020304"
  "sk_now demo_socket k = 0"
  "sk_recv demo_socket n k = (Inl (- 1), k)"
  "sk_isReadyToRead demo_socket d k = Some (PollTimeout, k)"
  "sk_isReadyToWrite demo_socket d k = Some (PollReadyForWrite, k)"
  "sk_isWakeUpFromPollSupported demo_socket k"
  by (simp_all add: demo_socket_def)

lemma demo_send_law: "send_law demo_socket (\<lambda>k. k)"
  by (simp add: send_law_def)

lemma demo_alive: "alive demo_socket (\<lambda>k. True) t"
  by (simp add: healthy_def alive_def)

text \<open>A fresh client connection after its handshake.\<close>

definition demo_connection :: "byte list transport" where
  "demo_connection = setReadyState demo_socket OPEN (transport_init demo_socket [])"

lemma demo_open_simps [simp]:
  "t_readyState demo_connection = OPEN" "t_chunks demo_connection = []" "t_txbuf demo_connection = []" "t_socket demo_connection = []"
  "t_useMask demo_connection" "t_enablePong demo_connection" "\<not> t_enablePerMessageDeflate demo_connection" "t_out demo_connection = []"
  "t_pingIntervalSecs demo_connection = - 1" "t_rxbuf demo_connection = []"
  by (simp_all add: demo_connection_def setReadyState_def transport_init_def)

lemma sendOnSocket_demo:
  "sendOnSocket demo_socket t = (True, t\<lparr>t_socket := t_socket t @ t_txbuf t, t_txbuf := []\<rparr>)"
  by (cases "t_txbuf t = []"; (subst sendOnSocket.simps; (subst sendOnSocket.simps)?; simp add: Let_def))

lemma sendData_demo:
  assumes "t_readyState t = OPEN" and "length m < kChunkSize"
  shows "si_success (fst (sendData demo_socket ty m False t))"
  using assms by (simp add: sendData_def sendFragment_def sendOnSocket_demo Let_def)

end
