(* ===== verification/IxTransportProperties.thy ===== *)
theory IxTransportProperties
  imports IxDemo
begin

text \<open>
  The properties of the WebSocket connection: its text check, its frames, the transfer of a whole
  message, pings, protocol errors and the two ways of closing.
\<close>

section \<open>Text\<close>

text \<open>C28. The table-driven check that every text message passes accepts exactly the byte strings of the
  UTF-8 grammar of RFC 3629: shortest forms only, no surrogates, nothing above U+10FFFF.\<close>

theorem utf8_check_is_grammar: "validateUtf8 bs = wf_utf8 (map unat bs)"
  by (rule validateUtf8_wf)

section \<open>Frames\<close>

text \<open>C29. Reading a frame inverts writing it: whatever follows in the buffer, the header of a frame that
  \<open>sendFragment\<close> wrote is recognised with its flags, opcode and size, and the payload is unmasked
  to the bytes that were sent, for every payload size that is accepted.\<close>

theorem frame_roundtrip:
  assumes "is_opcode t" and "length key = 4" and "length msg < 2 ^ 63"
  shows "\<exists>ws. parseHeader (frameBytes m key t fin c msg @ rest) = Some ws \<and> hd_fin ws = fin \<and>
           hd_rsv1 ws = (c \<and> t \<noteq> CONTINUATION) \<and> \<not> hd_rsv2 ws \<and> \<not> hd_rsv3 ws \<and> hd_opcode ws = t \<and>
           unat (hd_N ws) = length msg \<and>
           header_size ws + length msg = length (frameBytes m key t fin c msg) \<and>
           framePayload ws (frameBytes m key t fin c msg @ rest) = msg"
  using parseHeader_frame [OF assms refl] .

theorem frame_roundtrip_witness:
  "\<exists>ws. parseHeader (frameBytes True [1, 2, 3, 4] TEXT_FRAME True False [72, 105] @ [7]) = Some ws \<and>
     hd_opcode ws = TEXT_FRAME \<and> framePayload ws (frameBytes True [1, 2, 3, 4] TEXT_FRAME True False [72, 105] @ [7]) = [72, 105]"
proof -
  have "is_opcode TEXT_FRAME" "length [1, 2, 3, 4 :: byte] = 4" "length [72, 105 :: byte] < 2 ^ 63"
    by (simp_all add: is_opcode_def)
  from frame_roundtrip [OF this, of True True False "[7]"] show ?thesis by blast
qed

section \<open>Messages\<close>

text \<open>C30. A message is transferred whole and once: what a successful send hands to the socket, found in the
  receive buffer of a connection that is not in the middle of another message, is dispatched as one
  message with the bytes, size and kind that were sent, after one empty fragment notice for every
  frame but the last; the buffer is then empty and the state of the connection unchanged.\<close>

theorem message_transfer:
  assumes "send_law sk wire" and "si_success (fst (sendData sk ty msg False t))" and "handed wire t = []"
    and "length msg < 2 ^ 63" and "ty = TEXT_FRAME \<or> ty = BINARY_FRAME"
    and "ty = TEXT_FRAME \<longrightarrow> validateUtf8 msg"
    and "t_chunks r = []" and "\<not> t_enablePerMessageDeflate r"
    and "t_rxbuf r = handed wire (snd (sendData sk ty msg False t))"
  shows "t_out (dispatch sk' Succeeded r) =
           t_out r @ replicate (max 1 (length msg div kChunkSize) - 1) (OutMessage [] 0 False FRAGMENT) @
           [OutMessage msg (length msg) False (if ty = TEXT_FRAME then MSG_TEXT else MSG_BINARY)] \<and>
         t_rxbuf (dispatch sk' Succeeded r) = [] \<and> t_readyState (dispatch sk' Succeeded r) = t_readyState r"
  using dispatch_sent [OF assms, of sk'] by (simp add: messageOutput_def kindOf_def)

theorem message_transfer_witness:
  "t_out (dispatch demo_socket Succeeded
      (demo_connection\<lparr>t_rxbuf := handed (\<lambda>k. k) (snd (sendData demo_socket TEXT_FRAME [72, 105] False demo_connection))\<rparr>)) =
   [OutMessage [72, 105] 2 False MSG_TEXT]"
proof -
  have utf8: "validateUtf8 [72, 105]"
    unfolding validateUtf8_wf by (rule wf_utf8_ascii) simp
  have sent: "si_success (fst (sendData demo_socket TEXT_FRAME [72, 105] False demo_connection))"
    by (rule sendData_demo) (simp_all add: kChunkSize_def)
  have none: "handed (\<lambda>k. k) demo_connection = []" by (simp add: handed_def)
  from message_transfer [OF demo_send_law sent none,
      of "demo_connection\<lparr>t_rxbuf := handed (\<lambda>k. k) (snd (sendData demo_socket TEXT_FRAME [72, 105] False demo_connection))\<rparr>"
         demo_socket] utf8
  show ?thesis by (simp add: kChunkSize_def)
qed

section \<open>Pings\<close>

text \<open>C31. A ping of at most 125 bytes on an open connection that is up is reported once and answered: a PONG frame with
  the same payload is handed over after everything sent before, and the connection stays as it was.\<close>

theorem ping_is_answered:
  assumes "send_law sk wire" and "alive sk up t" and "t_readyState t = OPEN" and "t_enablePong t"
    and "length key = 4" and "length d \<le> 125" and "t_rxbuf t = frameBytes m key PING True False d"
  shows "t_out (dispatch sk Succeeded t) = t_out t @ [OutMessage d (length d) False MSG_PING] \<and>
         handed wire (dispatch sk Succeeded t) = handed wire t @
           frameBytes (t_useMask t) (maskingKey (sk_seconds sk (t_socket t))) PONG True False d \<and>
         t_readyState (dispatch sk Succeeded t) = OPEN \<and> t_rxbuf (dispatch sk Succeeded t) = []"
proof -
  have "t_rxbuf t = frameBytes m key PING True False d @ []" using assms(7) by simp
  from dispatch_ping_frame [OF assms(5,6,4) _ assms(1,2) this] assms(3) obtain t' where
    t': "dispatchFrames sk (length (t_rxbuf t)) t = dispatchFrames sk 0 t'" "t_rxbuf t' = []"
      "t_readyState t' = OPEN" "t_out t' = t_out t @ [OutMessage d (length d) False MSG_PING]"
      "handed wire t' = handed wire t @
         frameBytes (t_useMask t) (maskingKey (sk_seconds sk (t_socket t))) PONG True False d" by auto
  with dispatch_all_consumed [OF t'(1)] show ?thesis by simp
qed

theorem ping_is_answered_witness:
  "handed (\<lambda>k. k) (dispatch demo_socket Succeeded
      (demo_connection\<lparr>t_rxbuf := frameBytes False [0, 0, 0, 0] PING True False [5]\<rparr>)) =
   frameBytes True [1, 2, 3, 4] PONG True False [5]"
proof -
  define t where "t = demo_connection\<lparr>t_rxbuf := frameBytes False [0, 0, 0, 0] PING True False [5]\<rparr>"
  have "handed (\<lambda>k. k) t = []" by (simp add: t_def handed_def)
  moreover have "maskingKey 0x01020304 = [1, 2, 3, 4]" by (simp add: maskingKey_def)
  ultimately show ?thesis
    using ping_is_answered [OF demo_send_law demo_alive, of t "[0, 0, 0, 0]" "[5]" False]
    by (simp add: t_def)
qed

section \<open>Protocol errors\<close>

text \<open>C32. A complete frame of at most 2^63 bytes that breaks the protocol on its own (a reserved bit, a control frame in fragments, a
  ping of more than 125 bytes, an unknown opcode) on an open connection starts the closing handshake:
  a CLOSE frame with code 1002 and the reason is handed over after everything sent before, the same
  code and reason are kept for the report, and nothing of the frame is output.\<close>

theorem protocol_error_closes:
  assumes "send_law sk wire" and "t_readyState t = OPEN" and "parseHeader (t_rxbuf t) = Some ws"
    and "unat (hd_N ws) \<le> 2 ^ 63" and "header_size ws + unat (hd_N ws) \<le> length (t_rxbuf t)"
    and "violation (t_enablePerMessageDeflate t) ws = Some reason"
    and "t' = snd (dispatchOne sk t)"
  shows "t_readyState t' = CLOSING \<and> t_closeCode t' = 1002 \<and> t_closeReason t' = reason \<and> t_out t' = t_out t \<and>
         handed wire t' = handed wire t @
           frameBytes (t_useMask t) (maskingKey (sk_seconds sk (t_socket t))) CLOSE True False (0x03 # 0xEA # reason)"
proof -
  have "\<not> hd_N ws > push_bit 63 1" using assms(4) by (simp add: word_less_nat_alt)
  from dispatchOne_violation [OF assms(3) this assms(5,6), of sk] assms(7) obtain w rb n rb' where
    t': "t' = (close sk kProtocolErrorCode reason n False (t\<lparr>t_rxbufWanted := w, t_rxbuf := rb\<rparr>))\<lparr>t_rxbuf := rb'\<rparr>"
    by auto
  have "closePayload kProtocolErrorCode reason = 0x03 # 0xEA # reason"
    by (simp add: closePayload_def close_codes)
  with close_open(1-4) [of "t\<lparr>t_rxbufWanted := w, t_rxbuf := rb\<rparr>" sk kProtocolErrorCode reason n False]
    close_open(6) [of "t\<lparr>t_rxbufWanted := w, t_rxbuf := rb\<rparr>" sk wire reason kProtocolErrorCode n False]
    violation_reason [OF assms(6)] assms(1,2) show ?thesis
    by (simp add: t' handed_def close_codes)
qed

theorem protocol_error_closes_witness:
  "t_closeReason (snd (dispatchOne demo_socket (demo_connection\<lparr>t_rxbuf := [0xC1, 0]\<rparr>))) = bytes_of ''Reserved bit used''"
proof -
  define t where "t = demo_connection\<lparr>t_rxbuf := [0xC1, 0]\<rparr>"
  obtain ws where ws: "parseHeader (t_rxbuf t) = Some ws" "hd_rsv1 ws" "hd_N ws = 0" "header_size ws = 2"
    by (simp add: t_def parseHeader_def headerSize_def payloadLength_def)
  then have "violation (t_enablePerMessageDeflate t) ws = Some kProtocolErrorReservedBitUsed"
    by (simp add: violation_def t_def)
  from protocol_error_closes [OF demo_send_law _ ws(1) _ _ this refl] ws show ?thesis
    by (simp add: t_def kProtocolErrorReservedBitUsed_def)
qed

section \<open>Closing\<close>

text \<open>C33. A CLOSE frame from the peer, on a connection that is open, ends it: the connection is closed, the
  closure is reported once, as the peer's, with the code and reason of the frame if they are valid and
  with the code that tells what is wrong with them otherwise, and the same code and reason are
  handed over in answer before the socket is closed.\<close>

theorem peer_close_is_answered:
  assumes "send_law sk wire" and "t_readyState t = OPEN" and "length key = 4" and "length d \<le> 125"
    and "t_rxbuf t = frameBytes m key CLOSE True False d" and "t' = dispatch sk Succeeded t"
    and "closeInfo d = (code, reason)"
  shows "t_readyState t' = CLOSED \<and> t_rxbuf t' = [] \<and>
         t_out t' = t_out t @ [OutClose code reason (length (t_rxbuf t)) True] \<and> validCloseCode code \<and>
         handed wire t' = handed wire t @ frameBytes (t_useMask t) (maskingKey (sk_seconds sk (t_socket t)))
                                            CLOSE True False (closePayload code reason)"
proof -
  have "t_rxbuf t = frameBytes m key CLOSE True False d @ []" using assms(5) by simp
  from dispatch_close_reply [OF assms(1,2,7,4,3) this] obtain t1 where
    t1: "dispatchFrames sk (length (t_rxbuf t)) t = dispatchFrames sk 0 t1" "t_rxbuf t1 = []"
      "t_readyState t1 = CLOSED" "t_out t1 = t_out t @ [OutClose code reason (length (t_rxbuf t)) True]"
      "handed wire t1 = handed wire t @ frameBytes (t_useMask t) (maskingKey (sk_seconds sk (t_socket t)))
         CLOSE True False (closePayload code reason)" by auto
  moreover have "t' = t1" using dispatch_all_consumed [OF t1(1)] assms(6) by simp
  ultimately show ?thesis using closeInfo_valid [of d] assms(7) by simp
qed

theorem peer_close_is_answered_witness:
  "t_out (dispatch demo_socket Succeeded
     (demo_connection\<lparr>t_rxbuf := frameBytes False [0, 0, 0, 0] CLOSE True False [0x03, 0xE8]\<rparr>)) =
   [OutClose 1000 [] 4 True]"
proof -
  have info: "closeInfo [0x03, 0xE8] = (1000, [])"
    by (simp add: closeInfo_def validateUtf8_wf validCloseCode_def Let_def)
  define t where "t = demo_connection\<lparr>t_rxbuf := frameBytes False [0, 0, 0, 0] CLOSE True False [0x03, 0xE8]\<rparr>"
  have "length (t_rxbuf t) = 4" by (simp add: t_def frameBytes_def frameHeader_def)
  with peer_close_is_answered [OF demo_send_law, of t "[0, 0, 0, 0]" "[0x03, 0xE8]" False _ 1000 "[]"] info
  show ?thesis by (simp add: t_def)
qed

text \<open>C34. Two CLOSE frames that arrive together are each reported: the second is taken for a new closure although
  the connection is closed already, and the callback runs twice for one connection.\<close>

theorem two_close_frames_reported_twice:
  assumes "t_readyState t \<noteq> CLOSING" and "length key = 4" and "length d < 2 ^ 63" and "length key' = 4"
    and "length d' < 2 ^ 63" and "closeInfo d = (code, reason)" and "closeInfo d' = (code', reason')"
    and "t_rxbuf t = frameBytes m key CLOSE True False d @ frameBytes m' key' CLOSE True False d'"
  shows "\<exists>n n'. t_out (dispatch sk Succeeded t) =
           t_out t @ [OutClose code reason n True, OutClose code' reason' n' True]"
proof -
  from dispatch_close_frame [OF assms(2,3,1,6,8), of sk] obtain t1 where
    t1: "dispatchFrames sk (length (t_rxbuf t)) t = dispatchFrames sk (length (t_rxbuf t1)) t1"
      "t_rxbuf t1 = frameBytes m' key' CLOSE True False d' @ []" "t_readyState t1 = CLOSED"
      "t_out t1 = t_out t @ [OutClose code reason (length (t_rxbuf t)) True]" by auto
  from dispatch_close_frame [OF assms(4,5) _ assms(7) t1(2), of sk] t1(3) obtain t2 where
    t2: "dispatchFrames sk (length (t_rxbuf t1)) t1 = dispatchFrames sk 0 t2"
      "t_out t2 = t_out t1 @ [OutClose code' reason' (length (t_rxbuf t1)) True]" by auto
  have "dispatch sk Succeeded t = t2" using t1(1) t2(1) by (intro dispatch_all_consumed) simp
  with t1(4) t2(2) show ?thesis by simp
qed

theorem two_close_frames_reported_twice_witness:
  "\<exists>n n'. t_out (dispatch demo_socket Succeeded
     (demo_connection\<lparr>t_rxbuf := frameBytes False [0, 0, 0, 0] CLOSE True False [0x03, 0xE8] @
                          frameBytes False [0, 0, 0, 0] CLOSE True False [0x03, 0xE8]\<rparr>)) =
     [OutClose 1000 [] n True, OutClose 1000 [] n' True]"
proof -
  have info: "closeInfo [0x03, 0xE8] = (1000, [])"
    by (simp add: closeInfo_def validateUtf8_wf validCloseCode_def Let_def)
  define t where "t = demo_connection\<lparr>t_rxbuf := frameBytes False [0, 0, 0, 0] CLOSE True False [0x03, 0xE8] @
                          frameBytes False [0, 0, 0, 0] CLOSE True False [0x03, 0xE8]\<rparr>"
  have "t_readyState t \<noteq> CLOSING" "t_out t = []" by (simp_all add: t_def)
  with two_close_frames_reported_twice [OF _ _ _ _ _ info info, of t "[0, 0, 0, 0]" "[0, 0, 0, 0]" False False demo_socket]
  show ?thesis by (simp add: t_def)
qed

end
