(* ===== verification/IxUrlParser.thy ===== *)
theory IxUrlParser
  imports AisPrelude "HOL-Library.Char_ord"
begin

text \<open>
  The URL parser of the WebSocket library (\<open>IXUrlParser.cpp\<close>), by which the address of the
  service and every redirection are taken apart. Positions are kept as the code keeps them:
  indexes into the whole text.
\<close>

section \<open>Characters in the C locale\<close>

definition isalpha :: "char \<Rightarrow> bool" where
  "isalpha c \<longleftrightarrow> (65 \<le> charCode c \<and> charCode c \<le> 90) \<or> (97 \<le> charCode c \<and> charCode c \<le> 122)"

definition to_lower :: "char \<Rightarrow> char" where
  "to_lower c = (if 65 \<le> charCode c \<and> charCode c \<le> 90 then char_of (charCode c + 32) else c)"

section \<open>Results\<close>

datatype LUrlParserError =
    Uninitialized | NoUrlCharacter | InvalidSchemeName | NoDoubleSlash | NoSlash
  | MissingClosingBracketForIPv6 | InvalidCharacterAfterIPv6Host | MissingHost | InvalidPort
  | UnmatchedClosingBracketInHost | InvalidOpeningBracketInHost | InvalidPortSeparator
  | MissingPortAfterColon | EmptyIPv6Host | UnbracketedIPv6Host | MultipleAtSignsInAuthority

record clParseURL =
  u_Scheme :: string
  u_Host :: string
  u_Port :: string
  u_Path :: string
  u_Query :: string
  u_Fragment :: string
  u_UserName :: string
  u_Password :: string

definition IsSchemeValid :: "string \<Rightarrow> bool" where
  "IsSchemeValid s \<longleftrightarrow> list_all (\<lambda>c. isalpha c \<or> c = CHR ''+'' \<or> c = CHR ''-'' \<or> c = CHR ''.'') s"

section \<open>The steps of ParseURL\<close>

text \<open>Step 1 and 2: the scheme and the double slash; what is returned is where the authority starts.\<close>

definition parseScheme :: "string \<Rightarrow> (LUrlParserError, string \<times> nat) result" where
  "parseScheme url =
     (case find_from (\<lambda>c. c = CHR '':'') url 0 of
        None \<Rightarrow> Inl NoUrlCharacter
      | Some schemeEnd \<Rightarrow>
          if \<not> IsSchemeValid (take schemeEnd url) then Inl InvalidSchemeName
          else
            (let current = schemeEnd + 1 in
             if current + 1 \<ge> length url \<or> url ! current \<noteq> CHR ''/'' \<or> url ! (current + 1) \<noteq> CHR ''/''
             then Inl NoDoubleSlash
             else Inr (map to_lower (take schemeEnd url), current + 2)))"

text \<open>Where the authority ends: at the next slash or question mark, or with the text.\<close>

definition authorityEnd :: "string \<Rightarrow> nat \<Rightarrow> nat" where
  "authorityEnd url current =
     (case find_from (\<lambda>c. c = CHR ''/'' \<or> c = CHR ''?'') url current of None \<Rightarrow> length url | Some e \<Rightarrow> e)"

text \<open>A position found before a bound.\<close>

definition before :: "nat option \<Rightarrow> nat \<Rightarrow> bool" where
  "before p bound = (case p of None \<Rightarrow> False | Some i \<Rightarrow> i < bound)"

text \<open>Step 4: user and password, and where the host starts.\<close>

definition parseUserInfo ::
  "string \<Rightarrow> nat \<Rightarrow> (LUrlParserError, string \<times> string \<times> nat) result" where
  "parseUserInfo url current =
     (let atEnd = authorityEnd url current in
      case find_from (\<lambda>c. c = CHR ''@'') url current of
        None \<Rightarrow> Inr ([], [], current)
      | Some atPos \<Rightarrow>
          if \<not> atPos < atEnd then Inr ([], [], current)
          else if before (find_from (\<lambda>c. c = CHR ''@'') url (atPos + 1)) atEnd
          then Inl MultipleAtSignsInAuthority
          else
            (case find_from (\<lambda>c. c = CHR '':'') url current of
               Some colonPos \<Rightarrow>
                 if colonPos < atPos
                 then Inr (substr url current (colonPos - current),
                           substr url (colonPos + 1) (atPos - colonPos - 1), atPos + 1)
                 else Inr (substr url current (atPos - current), [], atPos + 1)
             | None \<Rightarrow> Inr (substr url current (atPos - current), [], atPos + 1)))"

text \<open>Step 5, first part: brackets and colons that cannot be right.\<close>

definition hexOrColon :: "char \<Rightarrow> bool" where
  "hexOrColon c \<longleftrightarrow> isdigit c \<or> (97 \<le> charCode c \<and> charCode c \<le> 102) \<or> (65 \<le> charCode c \<and> charCode c \<le> 70) \<or> c = CHR '':''"

definition malformedAuthority :: "string \<Rightarrow> LUrlParserError option" where
  "malformedAuthority authority =
     (let opening = find_from (\<lambda>c. c = CHR ''['') authority 0;
          closing = find_from (\<lambda>c. c = CHR '']'') authority 0
      in if closing \<noteq> None \<and> opening = None then Some UnmatchedClosingBracketInHost
         else if opening \<noteq> None \<and> opening \<noteq> Some 0 then Some InvalidOpeningBracketInHost
         else if opening = None \<and> length (filter (\<lambda>c. c = CHR '':'') authority) > 1 then
           (if CHR ''.'' \<notin> set authority \<and> list_all hexOrColon authority
            then Some UnbracketedIPv6Host else Some InvalidPortSeparator)
         else None)"

text \<open>Step 5a and 5b: host and port.\<close>

definition parseHost :: "string \<Rightarrow> nat \<Rightarrow> nat \<Rightarrow> (LUrlParserError, string \<times> string) result" where
  "parseHost url current authEnd =
     (if current < authEnd \<and> url ! current = CHR ''['' then
        (case find_from (\<lambda>c. c = CHR '']'') url (current + 1) of
           None \<Rightarrow> Inl MissingClosingBracketForIPv6
         | Some closeBracket \<Rightarrow>
             if closeBracket \<ge> authEnd then Inl MissingClosingBracketForIPv6
             else
               (let host = substr url (current + 1) (closeBracket - current - 1);
                    afterBracket = closeBracket + 1
                in if host = [] then Inl EmptyIPv6Host
                   else if afterBracket < authEnd then
                     (if url ! afterBracket \<noteq> CHR '':'' then Inl InvalidCharacterAfterIPv6Host
                      else
                        (let port = substr url (afterBracket + 1) (authEnd - afterBracket - 1) in
                         if port = [] then Inl MissingPortAfterColon else Inr (host, port)))
                   else Inr (host, [])))
      else
        (case find_from (\<lambda>c. c = CHR '':'') url current of
           Some colonPos \<Rightarrow>
             if colonPos < authEnd then
               (let port = substr url (colonPos + 1) (authEnd - colonPos - 1) in
                if port = [] then Inl MissingPortAfterColon
                else Inr (substr url current (colonPos - current), port))
             else Inr (substr url current (authEnd - current), [])
         | None \<Rightarrow> Inr (substr url current (authEnd - current), [])))"

text \<open>Step 6 to 10: path, query and fragment, from the end of the authority.\<close>

definition parseTail :: "string \<Rightarrow> nat \<Rightarrow> clParseURL \<Rightarrow> (LUrlParserError, clParseURL) result" where
  "parseTail url current r =
     (if current \<ge> length url then Inr r
      else if url ! current \<noteq> CHR ''/'' \<and> url ! current \<noteq> CHR ''?'' then Inl NoSlash
      else
        (let current = (if url ! current = CHR ''/'' then current + 1 else current) in
         case find_from (\<lambda>c. c = CHR ''?'' \<or> c = CHR ''#'') url current of
           None \<Rightarrow> Inr (r\<lparr>u_Path := drop current url\<rparr>)
         | Some pathEnd \<Rightarrow>
             (let r = r\<lparr>u_Path := substr url current (pathEnd - current)\<rparr> in
              if url ! pathEnd = CHR ''?'' then
                (case find_from (\<lambda>c. c = CHR ''#'') url (pathEnd + 1) of
                   None \<Rightarrow> Inr (r\<lparr>u_Query := drop (pathEnd + 1) url\<rparr>)
                 | Some queryEnd \<Rightarrow>
                     Inr (r\<lparr>u_Query := substr url (pathEnd + 1) (queryEnd - pathEnd - 1),
                            u_Fragment := drop (queryEnd + 1) url\<rparr>))
              else Inr (r\<lparr>u_Fragment := drop (pathEnd + 1) url\<rparr>))))"

definition ParseURL :: "string \<Rightarrow> (LUrlParserError, clParseURL) result" where
  "ParseURL url =
     rbind (parseScheme url) (\<lambda>(scheme, current).
     rbind (parseUserInfo url current) (\<lambda>(user, password, current).
       (let authEnd = authorityEnd url current in
        case malformedAuthority (substr url current (authEnd - current)) of
          Some e \<Rightarrow> Inl e
        | None \<Rightarrow>
            rbind (parseHost url current authEnd) (\<lambda>(host, port).
              if host = [] then Inl MissingHost
              else if \<not> list_all isdigit port then Inl InvalidPort
              else parseTail url authEnd
                     \<lparr>u_Scheme = scheme, u_Host = host, u_Port = port, u_Path = [], u_Query = [],
                      u_Fragment = [], u_UserName = user, u_Password = password\<rparr>))))"

section \<open>The port and the result\<close>

definition GetPort :: "clParseURL \<Rightarrow> int option" where
  "GetPort r =
     (let Port = atoi (c_str (u_Port r)) in if Port \<le> 0 \<or> Port > 65535 then None else Some Port)"

definition getProtocolPort :: "string \<Rightarrow> int" where
  "getProtocolPort protocol =
     (if protocol = ''ws'' \<or> protocol = ''http'' then 80
      else if protocol = ''wss'' \<or> protocol = ''https'' then 443 else - 1)"

record url_parts =
  up_protocol :: string
  up_host :: string
  up_path :: string
  up_query :: string
  up_port :: int
  up_isDefaultPort :: bool

definition requestPath :: "string \<Rightarrow> string \<Rightarrow> string" where
  "requestPath path query =
     (let path = (if path = [] then ''/'' else if hd path \<noteq> CHR ''/'' then CHR ''/'' # path else path)
      in if query \<noteq> [] then path @ ''?'' @ query else path)"

definition parse :: "string \<Rightarrow> url_parts option" where
  "parse url =
     (case ParseURL url of
        Inl e \<Rightarrow> None
      | Inr res \<Rightarrow>
          (let protocolPort = getProtocolPort (u_Scheme res);
               port = (case GetPort res of Some p \<Rightarrow> p | None \<Rightarrow> protocolPort)
           in Some \<lparr>up_protocol = u_Scheme res, up_host = u_Host res,
                    up_path = requestPath (u_Path res) (u_Query res), up_query = u_Query res,
                    up_port = port, up_isDefaultPort = (port = protocolPort)\<rparr>))"

end
