(* ===== verification/IxUrlProofs.thy ===== *)
theory IxUrlProofs
  imports IxUrlParser
begin

text \<open>
  Lemmas on the URL parser: searching past a known prefix, and each step of the parser on a URL
  put together from its parts.
\<close>

section \<open>Searching past a prefix\<close>

lemma find_from_skip:
  "\<forall>x \<in> set xs. \<not> p x \<Longrightarrow> p y \<Longrightarrow> find_from p (pre @ xs @ y # r) (length pre) = Some (length pre + length xs)"
  by (simp add: find_from_def find_idx_append)

lemma find_from_none:
  "\<forall>x \<in> set xs. \<not> p x \<Longrightarrow> find_from p (pre @ xs) (length pre) = None"
  by (simp add: find_from_def find_idx_None)

lemma find_from_past:
  assumes "\<forall>x \<in> set xs. \<not> p x" and "find_from p (pre @ xs @ r) (length pre) = Some i"
  shows "length pre + length xs \<le> i"
  using assms by (auto simp: find_from_def find_idx_append)

lemma substr_middle [simp]: "substr (pre @ xs @ r) (length pre) (length xs) = xs"
  by (simp add: substr_def)

section \<open>The parts of a URL\<close>

definition authorityChar :: "char \<Rightarrow> bool" where
  "authorityChar c \<longleftrightarrow> c \<notin> set ''/?:@[]''"

definition portPart :: "string \<Rightarrow> string" where
  "portPart port = (if port = [] then [] else CHR '':'' # port)"

definition queryPart :: "string \<Rightarrow> string" where
  "queryPart query = (if query = [] then [] else CHR ''?'' # query)"

definition url_of :: "string \<Rightarrow> string \<Rightarrow> string \<Rightarrow> string \<Rightarrow> string \<Rightarrow> string" where
  "url_of scheme host port path query =
     scheme @ ''://'' @ host @ portPart port @ ''/'' @ path @ queryPart query"

lemma digit_free: "isdigit c \<Longrightarrow> c \<notin> set ''/?:@[]''"
  by (auto simp: isdigit_def charCode_def of_char_def)

lemma authority_free:
  assumes "list_all authorityChar host" and "list_all isdigit port"
  shows "\<forall>c \<in> set (host @ portPart port). c \<notin> set ''/?@[]''"
proof -
  have "c \<notin> set ''/?@[]''" if "c \<in> set host" for c
    using assms(1) that by (simp add: list_all_iff authorityChar_def)
  moreover have "c \<notin> set ''/?@[]''" if "c \<in> set port" for c
    using assms(2) digit_free [of c] that by (simp add: list_all_iff)
  ultimately show ?thesis by (auto simp: portPart_def split: if_splits)
qed

section \<open>The steps\<close>

lemma scheme_free: "IsSchemeValid s \<Longrightarrow> CHR '':'' \<notin> set s"
  by (auto simp: IsSchemeValid_def list_all_iff isalpha_def charCode_def of_char_def)

lemma parseScheme_ok:
  assumes "IsSchemeValid s" and "r \<noteq> []"
  shows "parseScheme (s @ ''://'' @ r) = Inr (map to_lower s, length s + 3)"
proof -
  have "find_from (\<lambda>c. c = CHR '':'') (s @ ''://'' @ r) 0 = Some (length s)"
    using find_from_skip [of s "\<lambda>c. c = CHR '':''" "CHR '':''" "[]" "''//'' @ r"] scheme_free [OF assms(1)] by auto
  moreover have "(s @ ''://'' @ r) ! (length s + 1) = CHR ''/''" "(s @ ''://'' @ r) ! (length s + 2) = CHR ''/''"
    by (simp_all add: nth_append)
  ultimately show ?thesis using assms by (simp add: parseScheme_def Let_def)
qed

lemma authorityEnd_ok:
  assumes "\<forall>c \<in> set a. c \<notin> set ''/?@[]''"
  shows "authorityEnd (pre @ a @ CHR ''/'' # r) (length pre) = length pre + length a"
  using find_from_skip [of a "\<lambda>c. c = CHR ''/'' \<or> c = CHR ''?''" "CHR ''/''" pre r] assms
  by (auto simp: authorityEnd_def)

lemma parseUserInfo_none:
  assumes "\<forall>c \<in> set a. c \<notin> set ''/?@[]''"
  shows "parseUserInfo (pre @ a @ CHR ''/'' # r) (length pre) = Inr ([], [], length pre)"
proof (cases "find_from (\<lambda>c. c = CHR ''@'') (pre @ a @ CHR ''/'' # r) (length pre)")
  case (Some i)
  with find_from_past [of a "\<lambda>c. c = CHR ''@''" pre "CHR ''/'' # r" i] assms
  have "\<not> i < length pre + length a" by auto
  with Some authorityEnd_ok [OF assms] show ?thesis by (simp add: parseUserInfo_def)
qed (simp add: parseUserInfo_def)

lemma malformedAuthority_none:
  assumes "list_all authorityChar host" and "list_all isdigit port"
  shows "malformedAuthority (host @ portPart port) = None"
proof -
  have none: "find_from (\<lambda>c. c = x) (host @ portPart port) 0 = None" if "x \<in> set ''[]''" for x
    using find_from_none [of "host @ portPart port" "\<lambda>c. c = x" "[]"] authority_free [OF assms] that by auto
  have "CHR '':'' \<notin> set host" using assms(1) by (auto simp: list_all_iff authorityChar_def)
  moreover have "CHR '':'' \<notin> set port" using assms(2) digit_free [of "CHR '':''"] by (auto simp: list_all_iff)
  ultimately have "filter (\<lambda>c. c = CHR '':'') host = []" "filter (\<lambda>c. c = CHR '':'') port = []"
    by (auto simp: filter_empty_conv)
  with none show ?thesis by (simp add: malformedAuthority_def portPart_def)
qed

lemma parseHost_ok:
  assumes "list_all authorityChar host" and "host \<noteq> []" and "list_all isdigit port"
  shows "parseHost (pre @ (host @ portPart port) @ CHR ''/'' # r) (length pre)
           (length pre + length (host @ portPart port)) = Inr (host, port)"
proof -
  have "hd host \<noteq> CHR ''[''" using assms(1,2) by (cases host) (auto simp: authorityChar_def)
  then have bracket: "(pre @ (host @ portPart port) @ CHR ''/'' # r) ! length pre \<noteq> CHR ''[''"
    using assms(2) by (cases host) (simp_all add: nth_append)
  have free: "\<forall>x \<in> set host. \<not> x = CHR '':''" using assms(1) by (auto simp: list_all_iff authorityChar_def)
  show ?thesis
  proof (cases "port = []")
    case True
    have past: "length pre + length host \<le> i"
      if "find_from (\<lambda>c. c = CHR '':'') (pre @ host @ CHR ''/'' # r) (length pre) = Some i" for i
      using find_from_past [OF free that] .
    have "substr (pre @ host @ CHR ''/'' # r) (length pre) (length host) = host" by (rule substr_middle)
    with True bracket past show ?thesis
      by (auto simp: parseHost_def portPart_def Let_def split: option.split)
  next
    case False
    have colon: "find_from (\<lambda>c. c = CHR '':'') (pre @ host @ CHR '':'' # port @ CHR ''/'' # r) (length pre) =
        Some (length pre + length host)"
      by (rule find_from_skip) (use free in auto)
    have "substr (pre @ host @ CHR '':'' # port @ CHR ''/'' # r) (length pre) (length host) = host"
      by (rule substr_middle)
    moreover have "substr (pre @ host @ CHR '':'' # port @ CHR ''/'' # r) (length pre + length host + 1) (length port) = port"
      using substr_middle [of "pre @ host @ [CHR '':'']" port "CHR ''/'' # r"] by simp
    ultimately show ?thesis
      using False bracket by (simp add: parseHost_def portPart_def Let_def colon)
  qed
qed

lemma parseTail_ok:
  assumes "\<forall>c \<in> set path. c \<noteq> CHR ''?'' \<and> c \<noteq> CHR ''#''" and "CHR ''#'' \<notin> set query"
    and "u_Query u = []"
  shows "parseTail (pre @ CHR ''/'' # path @ queryPart query) (length pre) u =
           Inr (u\<lparr>u_Path := path, u_Query := query\<rparr>)"
proof (cases "query = []")
  case True
  have "find_from (\<lambda>c. c = CHR ''?'' \<or> c = CHR ''#'') ((pre @ ''/'') @ path) (length (pre @ ''/'')) = None"
    by (rule find_from_none) (use assms in auto)
  with True assms(3) show ?thesis by (simp add: parseTail_def queryPart_def Let_def)
next
  case False
  have "find_from (\<lambda>c. c = CHR ''?'' \<or> c = CHR ''#'') ((pre @ ''/'') @ path @ CHR ''?'' # query) (length (pre @ ''/'')) =
      Some (length (pre @ ''/'') + length path)"
    by (rule find_from_skip) (use assms in auto)
  moreover have "find_from (\<lambda>c. c = CHR ''#'') ((pre @ ''/'' @ path @ ''?'') @ query) (length (pre @ ''/'' @ path @ ''?'')) = None"
    by (rule find_from_none) (use assms in auto)
  moreover have "substr (pre @ CHR ''/'' # path @ CHR ''?'' # query) (Suc (length pre)) (length path) = path"
    using substr_middle [of "pre @ ''/''" path "CHR ''?'' # query"] by simp
  ultimately show ?thesis
    using False by (simp add: parseTail_def queryPart_def Let_def nth_append)
qed

lemma ParseURL_ok:
  assumes "IsSchemeValid scheme" and "list_all authorityChar host" and "host \<noteq> []" and "list_all isdigit port"
    and "\<forall>c \<in> set path. c \<noteq> CHR ''?'' \<and> c \<noteq> CHR ''#''" and "CHR ''#'' \<notin> set query"
  shows "ParseURL (url_of scheme host port path query) = Inr
           \<lparr>u_Scheme = map to_lower scheme, u_Host = host, u_Port = port, u_Path = path, u_Query = query,
            u_Fragment = [], u_UserName = [], u_Password = []\<rparr>"
proof -
  define pre where "pre = scheme @ ''://''"
  define a where "a = host @ portPart port"
  define r where "r = path @ queryPart query"
  have url: "url_of scheme host port path query = pre @ a @ CHR ''/'' # r"
    by (simp add: url_of_def pre_def a_def r_def)
  have free: "\<forall>c \<in> set a. c \<notin> set ''/?@[]''" unfolding a_def by (rule authority_free [OF assms(2,4)])
  have len: "length scheme + 3 = length pre" by (simp add: pre_def)
  have s1: "parseScheme (pre @ a @ CHR ''/'' # r) = Inr (map to_lower scheme, length pre)"
    using parseScheme_ok [OF assms(1), of "a @ CHR ''/'' # r"] len by (simp add: pre_def)
  note s2 = parseUserInfo_none [OF free, of pre r]
  note s3 = authorityEnd_ok [OF free, of pre r]
  have s4: "malformedAuthority (substr (pre @ a @ CHR ''/'' # r) (length pre) (length a)) = None"
    unfolding substr_middle using malformedAuthority_none [OF assms(2,4)] by (simp add: a_def)
  have s5: "parseHost (pre @ a @ CHR ''/'' # r) (length pre) (length pre + length a) = Inr (host, port)"
    unfolding a_def by (rule parseHost_ok [OF assms(2-4)])
  have s6: "parseTail (pre @ a @ CHR ''/'' # r) (length pre + length a)
      \<lparr>u_Scheme = map to_lower scheme, u_Host = host, u_Port = port, u_Path = [], u_Query = [],
       u_Fragment = [], u_UserName = [], u_Password = []\<rparr> = Inr
      \<lparr>u_Scheme = map to_lower scheme, u_Host = host, u_Port = port, u_Path = path, u_Query = query,
       u_Fragment = [], u_UserName = [], u_Password = []\<rparr>"
    using parseTail_ok [OF assms(5,6), of
        "\<lparr>u_Scheme = map to_lower scheme, u_Host = host, u_Port = port, u_Path = [], u_Query = [],
          u_Fragment = [], u_UserName = [], u_Password = []\<rparr>" "pre @ a"] by (simp add: r_def)
  show ?thesis
    using assms(3,4) s4 by (simp add: url ParseURL_def s1 s2 s3 s5 s6 Let_def)
qed

text \<open>Whatever is parsed, a port that is not the scheme's own lies in the range of ports.\<close>

lemma parse_port_range:
  "parse url = Some p \<Longrightarrow> up_port p = getProtocolPort (up_protocol p) \<or> (0 < up_port p \<and> up_port p \<le> 65535)"
  by (auto simp: parse_def GetPort_def Let_def split: sum.splits option.splits if_splits)

lemma parse_path_slash: "parse url = Some p \<Longrightarrow> up_path p \<noteq> [] \<and> hd (up_path p) = CHR ''/''"
proof -
  have path: "requestPath path query \<noteq> [] \<and> hd (requestPath path query) = CHR ''/''" for path query
    by (auto simp: requestPath_def Let_def hd_append)
  show "parse url = Some p \<Longrightarrow> up_path p \<noteq> [] \<and> hd (up_path p) = CHR ''/''"
    using path by (auto simp: parse_def Let_def split: sum.splits)
qed

text \<open>
  A port that no \<open>int\<close> holds is not refused: where \<open>atoi\<close> keeps the low 32 bits of what
  \<open>strtol\<close> reads, it can come out as another port.
\<close>

lemma large_port_wraps:
  assumes "list_all isdigit (u_Port r)" and "decimalValue (u_Port r) < 2 ^ 63"
    and "decimalValue (u_Port r) mod 2 ^ 32 = p" and "0 < p" and "p \<le> 65535"
  shows "GetPort r = Some (int p)"
proof -
  have "c_str (u_Port r) = u_Port r"
    using assms(1) by (intro c_str_id) (auto simp: list_all_iff isdigit_def charCode_def of_char_def)
  moreover have "strtol (u_Port r) = int (decimalValue (u_Port r))"
    using strtol_digits [OF assms(1)] assms(2) by simp
  moreover have "(of_int (int (decimalValue (u_Port r))) :: 32 word) = of_int (int p)"
    unfolding assms(3) [symmetric] of_int_of_nat_eq by (simp add: word_of_nat_eq_iff take_bit_nat_def)
  ultimately show ?thesis
    using assms(4,5) sint_int32 [of "int p"] by (simp add: GetPort_def atoi_def)
qed

end
