(* ===== verification/IxKeyGenProofs.thy ===== *)
theory IxKeyGenProofs
  imports IxKeyGen
begin

text \<open>
  SHA-1 as its standard defines it (FIPS 180-4), and the proof that the unrolled computation in
  place is that function. Before round \<open>t\<close> the five working variables stand in the array rotated
  by \<open>t\<close>, and the ring holds the last sixteen words of the message schedule.
\<close>

section \<open>The standard\<close>

fun schedule :: "uint32 list \<Rightarrow> nat \<Rightarrow> uint32" where
  "schedule m t =
     (if t < 16 then m ! t
      else rol (schedule m (t - 3) XOR schedule m (t - 8) XOR schedule m (t - 14) XOR schedule m (t - 16)) 1)"

declare schedule.simps [simp del]

definition fips_f :: "nat \<Rightarrow> uint32 \<Rightarrow> uint32 \<Rightarrow> uint32 \<Rightarrow> uint32" where
  "fips_f t x y z =
     (if t < 20 then (x AND y) XOR (NOT x AND z)
      else if t < 40 then x XOR y XOR z
      else if t < 60 then (x AND y) XOR (x AND z) XOR (y AND z)
      else x XOR y XOR z)"

definition fips_K :: "nat \<Rightarrow> uint32" where
  "fips_K t = (if t < 20 then 0x5a827999 else if t < 40 then 0x6ed9eba1 else if t < 60 then 0x8f1bbcdc else 0xca62c1d6)"

type_synonym working = "uint32 \<times> uint32 \<times> uint32 \<times> uint32 \<times> uint32"

fun fips_round :: "uint32 list \<Rightarrow> working \<Rightarrow> nat \<Rightarrow> working" where
  "fips_round m (a, b, c, d, e) t =
     (rol a 5 + fips_f t b c d + e + fips_K t + schedule m t, a, rol b 30, c, d)"

fun fips_add :: "working \<Rightarrow> working \<Rightarrow> working" where
  "fips_add (a, b, c, d, e) (a', b', c', d', e') = (a + a', b + b', c + c', d + d', e + e')"

definition fips_block :: "working \<Rightarrow> uint32 list \<Rightarrow> working" where
  "fips_block h m = fips_add h (foldl (fips_round m) h [0..<80])"

text \<open>The message in blocks: a one bit, zeros, and its length in bits as eight bytes.\<close>

definition bytes64 :: "nat \<Rightarrow> byte list" where
  "bytes64 n = map (\<lambda>i. of_nat (n div 256 ^ (7 - i))) [0..<8]"

definition fips_pad :: "byte list \<Rightarrow> byte list" where
  "fips_pad m = m @ 0x80 # replicate ((119 - length m mod 64) mod 64) 0 @ bytes64 (8 * length m)"

definition fips_words :: "byte list \<Rightarrow> uint32 list" where
  "fips_words bs = map (wordOf bs) [0..<16]"

definition fips_blocks :: "byte list \<Rightarrow> uint32 list list" where
  "fips_blocks bs = map (\<lambda>i. fips_words (drop (64 * i) bs)) [0..<length bs div 64]"

fun words_of :: "working \<Rightarrow> uint32 list" where
  "words_of (a, b, c, d, e) = [a, b, c, d, e]"

definition fips_sha1 :: "byte list \<Rightarrow> byte list" where
  "fips_sha1 m =
     concat (map bytesOf (words_of
       (foldl fips_block (0x67452301, 0xefcdab89, 0x98badcfe, 0x10325476, 0xc3d2e1f0) (fips_blocks (fips_pad m)))))"

section \<open>One round\<close>

text \<open>The working variables before round \<open>t\<close>, read from the rotated array.\<close>

definition vars :: "nat \<Rightarrow> uint32 list \<Rightarrow> working" where
  "vars t a = (a ! ((4 + t) mod 5), a ! ((3 + t) mod 5), a ! ((2 + t) mod 5), a ! ((1 + t) mod 5), a ! (t mod 5))"

text \<open>All rounds alike, numbered through.\<close>

definition logic :: "nat \<Rightarrow> uint32 list \<Rightarrow> uint32" where
  "logic t a = (if t < 20 then choice a t else if t < 40 then parity3 a t else if t < 60 then majority a t else parity3 a t)"

definition anyRound :: "uint32 list \<times> uint32 list \<Rightarrow> nat \<Rightarrow> uint32 list \<times> uint32 list" where
  "anyRound ab t =
     (case ab of (a, b) \<Rightarrow>
        (let b = (if t < 16 then b else b[t mod 16 := blk b (t mod 16)])
         in (mix a t (logic t a) (b ! (t mod 16) + fips_K t), b)))"

lemma mod5_shift:
  assumes "(i::nat) mod 5 = j mod 5"
  shows "(4 + i) mod 5 = (4 + j) mod 5" "(3 + i) mod 5 = (3 + j) mod 5" "(2 + i) mod 5 = (2 + j) mod 5"
    "(1 + i) mod 5 = (1 + j) mod 5"
  by (rule mod_add_cong [OF refl assms])+

lemma index_eq:
  assumes "(i::nat) mod 5 = j mod 5"
  shows "mix a i f w = mix a j f w" "choice a i = choice a j" "parity3 a i = parity3 a j" "majority a i = majority a j"
  by (simp_all only: mix_def choice_def parity3_def majority_def assms mod5_shift [OF assms])

lemma Sha1Loop_anyRound:
  "i < 16 \<Longrightarrow> Sha1Loop 1 ab i = anyRound ab i"
  "i < 4 \<Longrightarrow> Sha1Loop 2 ab i = anyRound ab (16 + i)"
  "i < 20 \<Longrightarrow> Sha1Loop 3 ab i = anyRound ab (20 + i)"
  "i < 20 \<Longrightarrow> Sha1Loop 4 ab i = anyRound ab (40 + i)"
  "i < 20 \<Longrightarrow> Sha1Loop 5 ab i = anyRound ab (60 + i)"
proof -
  obtain a b where ab: "ab = (a, b)" by fastforce
  show "i < 16 \<Longrightarrow> Sha1Loop 1 ab i = anyRound ab i"
    by (simp add: ab Sha1Loop_def anyRound_def logic_def fips_K_def)
  have m: "(16 + i) mod 5 = (1 + i) mod 5" using mod_mult_self1 [of "1 + i" 3 5] by simp
  show "i < 4 \<Longrightarrow> Sha1Loop 2 ab i = anyRound ab (16 + i)"
    unfolding anyRound_def logic_def index_eq [OF m]
    by (simp add: ab Sha1Loop_def fips_K_def Let_def)
  have n: "(20 + i) mod 5 = i mod 5" "(40 + i) mod 5 = i mod 5" "(60 + i) mod 5 = i mod 5"
    using mod_mult_self1 [of i 4 5] mod_mult_self1 [of i 8 5] mod_mult_self1 [of i 12 5] by (simp_all add: add.commute)
  have k: "(i + 4) mod 16 = (20 + i) mod 16" "(i + 8) mod 16 = (40 + i) mod 16" "(i + 12) mod 16 = (60 + i) mod 16"
    using mod_mult_self1 [of "i + 4" 1 16] mod_mult_self1 [of "i + 8" 2 16] mod_mult_self1 [of "i + 12" 3 16]
    by (simp_all add: add.commute)
  show "i < 20 \<Longrightarrow> Sha1Loop 3 ab i = anyRound ab (20 + i)"
    unfolding anyRound_def logic_def index_eq [OF n(1)] Sha1Loop_def Let_def k(1) by (simp add: ab fips_K_def)
  show "i < 20 \<Longrightarrow> Sha1Loop 4 ab i = anyRound ab (40 + i)"
    unfolding anyRound_def logic_def index_eq [OF n(2)] Sha1Loop_def Let_def k(2) by (simp add: ab fips_K_def)
  show "i < 20 \<Longrightarrow> Sha1Loop 5 ab i = anyRound ab (60 + i)"
    unfolding anyRound_def logic_def index_eq [OF n(3)] Sha1Loop_def Let_def k(3) by (simp add: ab fips_K_def)
qed

lemma foldl_shift:
  "(\<And>x i. i < n \<Longrightarrow> f x i = g x (k + i)) \<Longrightarrow> foldl f x [0..<n] = foldl g x [k..<k + n]"
  by (induction n) (simp_all add: upt_Suc_append)

lemma all_rounds:
  "static_for 20 5 (static_for 20 4 (static_for 20 3 (static_for 4 2 (static_for 16 1 ab)))) =
     foldl anyRound ab [0..<80]"
proof -
  have "[0..<80::nat] = [0..<16] @ [16..<20] @ [20..<40] @ [40..<60] @ [60..<80]"
    using upt_add_eq_append [of 0 16 64] upt_add_eq_append [of 16 20 60] upt_add_eq_append [of 20 40 40]
      upt_add_eq_append [of 40 60 20] by simp
  moreover have "static_for 16 1 ab = foldl anyRound ab [0..<16]" for ab
    unfolding static_for_def using foldl_shift [of 16 "Sha1Loop 1" anyRound 0] Sha1Loop_anyRound(1) by simp
  moreover have "static_for 4 2 ab = foldl anyRound ab [16..<20]" for ab
    unfolding static_for_def using foldl_shift [of 4 "Sha1Loop 2" anyRound 16] Sha1Loop_anyRound(2) by simp
  moreover have "static_for 20 3 ab = foldl anyRound ab [20..<40]" for ab
    unfolding static_for_def using foldl_shift [of 20 "Sha1Loop 3" anyRound 20] Sha1Loop_anyRound(3) by simp
  moreover have "static_for 20 4 ab = foldl anyRound ab [40..<60]" for ab
    unfolding static_for_def using foldl_shift [of 20 "Sha1Loop 4" anyRound 40] Sha1Loop_anyRound(4) by simp
  moreover have "static_for 20 5 ab = foldl anyRound ab [60..<80]" for ab
    unfolding static_for_def using foldl_shift [of 20 "Sha1Loop 5" anyRound 60] Sha1Loop_anyRound(5) by simp
  ultimately show ?thesis by simp
qed

lemma logic_fips:
  "vars t a = (A, B, C, D, E) \<Longrightarrow> logic t a = fips_f t B C D"
proof -
  have "(x AND (y XOR z)) XOR z = (x AND y) XOR (NOT x AND z)" for x y z :: uint32
    by (rule bit_eqI) (auto simp: bit_simps)
  moreover have "((x OR y) AND z) OR (x AND y) = (x AND y) XOR (x AND z) XOR (y AND z)" for x y z :: uint32
    by (rule bit_eqI) (auto simp: bit_simps)
  ultimately show "vars t a = (A, B, C, D, E) \<Longrightarrow> logic t a = fips_f t B C D"
    by (auto simp: vars_def logic_def fips_f_def choice_def majority_def parity3_def)
qed

lemma vars_mix:
  assumes "length a = 5" and "vars t a = (A, B, C, D, E)"
  shows "vars (Suc t) (mix a t f w) = (E + (f + w + rol A 5), A, rol B 30, C, D)" and "length (mix a t f w) = 5"
proof -
  have "length (take 5 a) = 5" using assms(1) by simp
  then obtain a0 a1 a2 a3 a4 where a: "a = [a0, a1, a2, a3, a4]"
    using assms(1) by (auto simp: length_Suc_conv eval_nat_numeral)
  define r where "r = t mod 5"
  have "r < 5" by (simp add: r_def)
  have i: "(k + t) mod 5 = (k + r) mod 5" for k by (simp add: r_def mod_add_right_eq)
  have j: "(k + Suc t) mod 5 = (Suc k + r) mod 5" for k using i [of "Suc k"] by simp
  have t: "t mod 5 = r" "Suc t mod 5 = Suc r mod 5" using i [of 1] by (simp_all add: r_def)
  consider "r = 0" | "r = 1" | "r = 2" | "r = 3" | "r = 4" using \<open>r < 5\<close> by linarith
  then show "vars (Suc t) (mix a t f w) = (E + (f + w + rol A 5), A, rol B 30, C, D)"
    by cases (use assms(2) in \<open>simp_all only: vars_def mix_def Let_def i j t, simp_all add: a\<close>)
  show "length (mix a t f w) = 5" using assms(1) by (simp add: mix_def Let_def)
qed

section \<open>All rounds of a block\<close>

definition sha_inv :: "working \<Rightarrow> uint32 list \<Rightarrow> nat \<Rightarrow> uint32 list \<times> uint32 list \<Rightarrow> bool" where
  "sha_inv h m t ab \<longleftrightarrow>
     length (fst ab) = 5 \<and> length (snd ab) = 16 \<and> vars t (fst ab) = foldl (fips_round m) h [0..<t] \<and>
     (\<forall>s. s < max 16 t \<longrightarrow> t \<le> s + 16 \<longrightarrow> snd ab ! (s mod 16) = schedule m s)"

lemma ring_step:
  assumes ring: "\<forall>s. s < max 16 t \<longrightarrow> t \<le> s + 16 \<longrightarrow> b ! (s mod 16) = schedule m s" and "length b = 16"
    and b': "b' = (if t < 16 then b else b[t mod 16 := blk b (t mod 16)])"
  shows "b' ! (t mod 16) = schedule m t" and "length b' = 16"
    and "\<forall>s. s < max 16 (Suc t) \<longrightarrow> Suc t \<le> s + 16 \<longrightarrow> b' ! (s mod 16) = schedule m s"
proof -
  show new: "b' ! (t mod 16) = schedule m t"
  proof (cases "t < 16")
    case True
    with ring b' show ?thesis by auto
  next
    case False
    have old: "b ! ((t mod 16 + k) mod 16) = schedule m (t - d)" if "k + d = 16" "0 < d" for k d
    proof -
      have "(t mod 16 + k) mod 16 = (t + k) mod 16" by (rule mod_add_left_eq)
      also have "t + k = (t - d) + 16" using False that by simp
      also have "\<dots> mod 16 = (t - d) mod 16" by (rule mod_add_self2)
      finally have "(t mod 16 + k) mod 16 = (t - d) mod 16" .
      moreover have "t - d < max 16 t" "t \<le> t - d + 16" using False that by auto
      ultimately show ?thesis using ring by metis
    qed
    have "b ! ((t mod 16 + 13) mod 16) = schedule m (t - 3)" by (rule old) simp_all
    moreover have "b ! ((t mod 16 + 8) mod 16) = schedule m (t - 8)" by (rule old) simp_all
    moreover have "b ! ((t mod 16 + 2) mod 16) = schedule m (t - 14)" by (rule old) simp_all
    moreover have "b ! (t mod 16) = schedule m (t - 16)" using old [of 0 16] by simp
    ultimately have "blk b (t mod 16) = schedule m t"
      using False unfolding blk_def by (simp only: schedule.simps [of m t] if_False)
    with False b' assms(2) show ?thesis by simp
  qed
  show "length b' = 16" using assms(2) b' by simp
  show "\<forall>s. s < max 16 (Suc t) \<longrightarrow> Suc t \<le> s + 16 \<longrightarrow> b' ! (s mod 16) = schedule m s"
  proof (intro allI impI)
    fix s assume s: "s < max 16 (Suc t)" "Suc t \<le> s + 16"
    show "b' ! (s mod 16) = schedule m s"
    proof (cases "t < 16 \<or> s = t")
      case True
      with new s ring b' show ?thesis by auto
    next
      case False
      with s have lt: "s < t" "t < s + 16" "\<not> t < 16" by auto
      have "s mod 16 \<noteq> t mod 16"
      proof
        assume "s mod 16 = t mod 16"
        then have "16 dvd (t - s)" using lt(1) by (metis mod_eq_dvd_iff_nat less_imp_le)
        with lt show False by (auto dest!: dvd_imp_le)
      qed
      with lt ring b' show ?thesis by simp
    qed
  qed
qed

lemma sha_inv_step:
  assumes "sha_inv h m t ab"
  shows "sha_inv h m (Suc t) (anyRound ab t)"
proof -
  obtain a b where ab: "ab = (a, b)" by fastforce
  obtain A B C D E where v: "vars t a = (A, B, C, D, E)" by (metis prod_cases5)
  define b' where "b' = (if t < 16 then b else b[t mod 16 := blk b (t mod 16)])"
  have inv: "length a = 5" "length b = 16" "foldl (fips_round m) h [0..<t] = (A, B, C, D, E)"
    "\<forall>s. s < max 16 t \<longrightarrow> t \<le> s + 16 \<longrightarrow> b ! (s mod 16) = schedule m s"
    using assms v by (simp_all add: sha_inv_def ab)
  note ring = ring_step [OF inv(4,2) b'_def]
  have "anyRound ab t = (mix a t (logic t a) (schedule m t + fips_K t), b')"
    using ring(1) by (simp add: ab anyRound_def Let_def b'_def)
  moreover have "E + (logic t a + (schedule m t + fips_K t) + rol A 5) = rol A 5 + fips_f t B C D + E + fips_K t + schedule m t"
    by (simp add: logic_fips [OF v] ac_simps)
  ultimately show ?thesis
    using vars_mix [OF inv(1) v] ring inv(3) by (simp add: sha_inv_def)
qed

lemma sha_inv_run: "sha_inv h m 0 ab \<Longrightarrow> sha_inv h m n (foldl anyRound ab [0..<n])"
  by (induction n) (simp_all add: sha_inv_step)

lemma sha1_block:
  assumes "length m = 16"
  shows "sha1 (words_of h) m = words_of (fips_block h m)"
proof -
  obtain A B C D E where h: "h = (A, B, C, D, E)" by (metis prod_cases5)
  define r where "r = foldl anyRound (rev (words_of h), m) [0..<80]"
  have "sha_inv h m 0 (rev (words_of h), m)"
    using assms by (simp add: sha_inv_def h vars_def schedule.simps)
  from sha_inv_run [OF this, of 80] have inv: "sha_inv h m 80 r" unfolding r_def .
  obtain a b where ab: "r = (a, b)" by fastforce
  have "length a = 5" using inv by (simp add: sha_inv_def ab)
  then obtain a0 a1 a2 a3 a4 where a: "a = [a0, a1, a2, a3, a4]"
    by (auto simp: length_Suc_conv eval_nat_numeral)
  have rounds: "foldl (fips_round m) h [0..<80] = (a4, a3, a2, a1, a0)"
    using inv unfolding sha_inv_def ab by (simp add: vars_def a)
  have "fips_block h m = (A + a4, B + a3, C + a2, D + a1, E + a0)"
    unfolding fips_block_def rounds by (simp add: h)
  moreover have "[0..<5] = [0, 1, 2, 3, 4 :: nat]" by (simp add: upt_rec)
  ultimately show ?thesis
    unfolding sha1_def Let_def all_rounds r_def [symmetric] ab by (simp add: h a)
qed

section \<open>The whole message\<close>

text \<open>The number that the protocol appends to every key (RFC 6455, section 1.3).\<close>

definition websocketGuid :: "byte list" where
  "websocketGuid = map (\<lambda>c. of_nat (of_char c)) ''258EAFA5-E914-47DA-95CA-C5AB0DC85B11''"

lemma websocketGuid_bytes:
  "websocketGuid =
     [0x32, 0x35, 0x38, 0x45, 0x41, 0x46, 0x41, 0x35, 0x2d, 0x45, 0x39, 0x31, 0x34, 0x2d, 0x34, 0x37, 0x44, 0x41,
      0x2d, 0x39, 0x35, 0x43, 0x41, 0x2d, 0x43, 0x35, 0x41, 0x42, 0x30, 0x44, 0x43, 0x38, 0x35, 0x42, 0x31, 0x31]"
  by (simp add: websocketGuid_def)

lemma wordOf_append: "4 * i + 3 < length xs \<Longrightarrow> wordOf (xs @ ys) i = wordOf xs i"
  by (simp add: wordOf_def nth_append)

lemma wordOf_shift: "length xs = 4 * j \<Longrightarrow> wordOf (xs @ ys) (j + i) = wordOf ys i"
  by (simp add: wordOf_def nth_append)

lemma first_block:
  assumes "length key = 24"
  shows "fips_words (key @ websocketGuid @ 0x80 # replicate 3 0 @ r) = map (wordOf key) [0..<6] @
    [0x32353845, 0x41464135, 0x2d453931, 0x342d3437, 0x44412d39, 0x3543412d, 0x43354142,
             0x30444338, 0x35423131, 0x80000000]"
proof -
  define tl where "tl = websocketGuid @ 0x80 # replicate 3 0 @ r"
  have lo: "wordOf (key @ tl) i = wordOf key i" if "i < 6" for i
    using that assms by (intro wordOf_append) simp
  have hi: "wordOf (key @ tl) (6 + i) = wordOf tl i" for i
    using assms by (intro wordOf_shift) simp
  have "[0..<16] = [0..<6] @ map ((+) 6) [0..<10::nat]"
    by (simp add: upt_rec)
  then have "fips_words (key @ tl) = map (wordOf key) [0..<6] @ map (wordOf tl) [0..<10]"
    using lo hi by (simp add: fips_words_def)
  moreover have tl: "tl = [0x32, 0x35, 0x38, 0x45, 0x41, 0x46, 0x41, 0x35, 0x2d, 0x45, 0x39, 0x31, 0x34, 0x2d, 0x34, 0x37, 0x44, 0x41,
      0x2d, 0x39, 0x35, 0x43, 0x41, 0x2d, 0x43, 0x35, 0x41, 0x42, 0x30, 0x44, 0x43, 0x38, 0x35, 0x42, 0x31, 0x31, 0x80, 0, 0, 0] @ r"
    by (simp add: tl_def websocketGuid_bytes numeral_3_eq_3)
  have "wordOf tl 0 = 0x32353845" "wordOf tl 1 = 0x41464135" "wordOf tl 2 = 0x2d453931" "wordOf tl 3 = 0x342d3437"
    "wordOf tl 4 = 0x44412d39" "wordOf tl 5 = 0x3543412d" "wordOf tl 6 = 0x43354142" "wordOf tl 7 = 0x30444338"
    "wordOf tl 8 = 0x35423131" "wordOf tl 9 = 0x80000000"
    by (simp_all add: wordOf_def tl)
  moreover have "[0..<10] = [0, 1, 2, 3, 4, 5, 6, 7, 8, 9 :: nat]" by (simp add: upt_rec)
  ultimately show ?thesis by (simp add: tl_def)
qed

lemma second_block: "fips_words (replicate 56 0 @ bytes64 480) = replicate 15 0 @ [480]"
proof -
  have "wordOf (replicate 56 0 @ bytes64 480) i = 0" if "i < 14" for i
    using that by (simp add: wordOf_def nth_append)
  moreover have "bytes64 480 = [0, 0, 0, 0, 0, 0, 1, 0xE0]"
    by (simp add: bytes64_def upt_rec)
  then have "wordOf (replicate 56 0 @ bytes64 480) 14 = 0" "wordOf (replicate 56 0 @ bytes64 480) 15 = 480"
    by (simp_all add: wordOf_def nth_append)
  moreover have "[0..<16] = [0..<14] @ [14, 15 :: nat]" by (simp add: upt_rec)
  moreover have "map (wordOf (replicate 56 0 @ bytes64 480)) [0..<14] = replicate 14 0"
    using calculation(1) by (intro nth_equalityI) simp_all
  moreover have "replicate 15 0 = replicate 14 0 @ [0 :: uint32]"
    using replicate_add [of 14 1 "0 :: uint32"] by simp
  ultimately show ?thesis unfolding fips_words_def by simp
qed

lemma generate_sha1:
  assumes "length key = 24" and "0 \<notin> set key"
  shows "generate key = base64 (fips_sha1 (key @ websocketGuid))"
proof -
  define h0 :: working where "h0 = (0x67452301, 0xefcdab89, 0x98badcfe, 0x10325476, 0xc3d2e1f0)"
  define m1 where "m1 = key @ websocketGuid @ 0x80 # replicate 3 0"
  define m2 where "m2 = replicate 56 0 @ bytes64 480"
  have len: "length websocketGuid = 36" by (simp add: websocketGuid_def)
  have l1: "length m1 = 64" using assms(1) len by (simp add: m1_def)
  have l2: "length m2 = 64" by (simp add: m2_def bytes64_def)
  have "replicate 59 0 = replicate 3 0 @ replicate 56 (0::byte)" by (simp add: replicate_add [symmetric])
  then have pad: "fips_pad (key @ websocketGuid) = m1 @ m2"
    using assms(1) len by (simp add: fips_pad_def m1_def m2_def)
  have input: "keyInput key = key"
  proof -
    have "takeWhile (\<lambda>c. c \<noteq> 0) key = key"
      unfolding takeWhile_eq_all_conv using assms(2) by blast
    show ?thesis unfolding keyInput_def \<open>takeWhile (\<lambda>c. c \<noteq> 0) key = key\<close> by (simp add: assms(1))
  qed
  have "fips_words (m1 @ m2) = fips_words m1"
    unfolding fips_words_def using l1 by (intro map_cong refl wordOf_append) simp
  then have blocks: "fips_blocks (m1 @ m2) = [fips_words m1, fips_words m2]"
    using l1 l2 by (simp add: fips_blocks_def upt_rec)
  have w1: "fips_words m1 = map (wordOf key) [0..<6] @
      [0x32353845, 0x41464135, 0x2d453931, 0x342d3437, 0x44412d39, 0x3543412d, 0x43354142,
             0x30444338, 0x35423131, 0x80000000]"
    using first_block [OF assms(1), of "[]"] by (simp add: m1_def)
  have w2: "fips_words m2 = replicate 15 0 @ [480]" unfolding m2_def by (rule second_block)
  have l: "length (fips_words m) = 16" for m by (simp add: fips_words_def)
  have "words_of h0 = [0x67452301, 0xefcdab89, 0x98badcfe, 0x10325476, 0xc3d2e1f0]" by (simp add: h0_def)
  then have "generate key = base64 (concat (map bytesOf (sha1 (sha1 (words_of h0) (fips_words m1)) (fips_words m2))))"
    by (simp only: generate_def Let_def input w1 w2)
  also have "\<dots> = base64 (concat (map bytesOf (words_of (fips_block (fips_block h0 (fips_words m1)) (fips_words m2)))))"
    by (simp only: sha1_block [OF l])
  also have "\<dots> = base64 (fips_sha1 (key @ websocketGuid))"
    by (simp add: fips_sha1_def pad blocks h0_def)
  finally show ?thesis .
qed

section \<open>The key\<close>

text \<open>Base64 of sixteen bytes is a key of twenty-four characters without a NUL.\<close>

lemma b64char_safe:
  assumes "take_bit 6 x = x"
  shows "b64char x \<in> set b64"
proof -
  have "unat x = take_bit 6 (unat x)" using assms by (metis unsigned_take_bit_eq)
  then have "unat x < 64" using take_bit_nat_less_exp [of 6 "unat x"] by simp
  moreover have "length b64 = 64" by (simp add: b64_def)
  ultimately show ?thesis unfolding b64char_def by (metis nth_mem)
qed

lemma sextets:
  "take_bit 6 (drop_bit 2 x AND 63) = drop_bit 2 x AND 63" "take_bit 6 (x AND 63) = x AND 63"
  "take_bit 6 (push_bit 4 (x AND 3) OR drop_bit 4 y) = push_bit 4 (x AND 3) OR drop_bit 4 y"
  "take_bit 6 (push_bit 2 (x AND 15) OR drop_bit 6 y) = push_bit 2 (x AND 15) OR drop_bit 6 y"
  "take_bit 6 (push_bit 4 (x AND 3)) = push_bit 4 (x AND 3)"
  "take_bit 6 (push_bit 2 (x AND 15)) = push_bit 2 (x AND 15)" for x y :: byte
proof -
  have m: "63 = (mask 6 :: byte)" "3 = (mask 2 :: byte)" "15 = (mask 4 :: byte)" by (simp_all add: mask_eq_exp_minus_1)
  show "take_bit 6 (drop_bit 2 x AND 63) = drop_bit 2 x AND 63" "take_bit 6 (x AND 63) = x AND 63"
    "take_bit 6 (push_bit 4 (x AND 3) OR drop_bit 4 y) = push_bit 4 (x AND 3) OR drop_bit 4 y"
    "take_bit 6 (push_bit 2 (x AND 15) OR drop_bit 6 y) = push_bit 2 (x AND 15) OR drop_bit 6 y"
    "take_bit 6 (push_bit 4 (x AND 3)) = push_bit 4 (x AND 3)"
    "take_bit 6 (push_bit 2 (x AND 15)) = push_bit 2 (x AND 15)"
    unfolding m by (rule bit_eqI; auto simp: bit_simps dest: bit_imp_le_length; fail)+
qed

lemmas b64_safe = sextets [THEN b64char_safe]

lemma b64group_safe: "set (b64group x y z) \<subseteq> set b64"
  unfolding b64group_def by (simp only: list.set insert_subset empty_subsetI b64_safe simp_thms)

lemma Encode_safe: "set (Encode bs) \<subseteq> insert (CHR ''='') (set b64)"
proof (induction bs rule: Encode.induct)
  case (1 x y z rest)
  then show ?case using b64group_safe [of x y z] by auto
qed (simp_all only: Encode.simps list.set insert_subset empty_subsetI b64_safe insert_iff simp_thms)

lemma length_Encode: "length bs = 16 \<Longrightarrow> length (Encode bs) = 24"
proof -
  have "length (Encode bs) = 4 * ((length bs + 2) div 3)" for bs
    by (induction bs rule: Encode.induct) (simp_all add: b64group_def, presburger)
  then show "length bs = 16 \<Longrightarrow> length (Encode bs) = 24" by simp
qed

lemma bytes_of_Encode: "length bs = 16 \<Longrightarrow> length (map (\<lambda>c. of_nat (of_char c)) (Encode bs) :: byte list) = 24"
  "0 \<notin> set (map (\<lambda>c. of_nat (of_char c)) (Encode bs) :: byte list)"
proof -
  have "\<forall>c \<in> insert (CHR ''='') (set b64). (of_nat (of_char c) :: byte) \<noteq> 0"
    by (simp add: b64_def)
  with Encode_safe [of bs] show "0 \<notin> set (map (\<lambda>c. of_nat (of_char c)) (Encode bs) :: byte list)" by fastforce
qed (simp add: length_Encode)

end
