(* ===== verification/IxHttp.thy ===== *)
theory IxHttp
  imports IxUrlParser
begin

text \<open>
  Text of the HTTP upgrade: the case-insensitive order of header names
  (\<open>IXStrCaseCompare.cpp\<close>), the header map over it, the status line (\<open>IXHttp.cpp\<close>), a header
  line (\<open>IXWebSocketHttpHeaders.cpp\<close>), and numbers as streams print and read them.
\<close>

section \<open>Header names\<close>

fun ciLess :: "string \<Rightarrow> string \<Rightarrow> bool" where
  "ciLess s [] = False"
| "ciLess [] (y # ys) = True"
| "ciLess (x # xs) (y # ys) =
     (if charCode (to_lower x) < charCode (to_lower y) then True
      else if charCode (to_lower y) < charCode (to_lower x) then False
      else ciLess xs ys)"

definition insensitiveStringCompare :: "string \<Rightarrow> string \<Rightarrow> bool" where
  "insensitiveStringCompare a b \<longleftrightarrow> \<not> ciLess a b \<and> \<not> ciLess b a"

text \<open>A \<open>std::map\<close> ordered by \<open>ciLess\<close>: \<open>operator[]\<close> keeps the key that came first.\<close>

type_synonym http_headers = "(string \<times> string) list"

fun headerSet :: "string \<Rightarrow> string \<Rightarrow> http_headers \<Rightarrow> http_headers" where
  "headerSet k v [] = [(k, v)]"
| "headerSet k v ((k', v') # hs) =
     (if ciLess k k' then (k, v) # (k', v') # hs
      else if ciLess k' k then (k', v') # headerSet k v hs
      else (k', v) # hs)"

fun headerFind :: "string \<Rightarrow> http_headers \<Rightarrow> string option" where
  "headerFind k [] = None"
| "headerFind k ((k', v') # hs) = (if insensitiveStringCompare k k' then Some v' else headerFind k hs)"

text \<open>\<open>headers[k]\<close> read: an absent name reads as the empty text.\<close>

definition headerGet :: "string \<Rightarrow> http_headers \<Rightarrow> string" where
  "headerGet k hs = (case headerFind k hs of None \<Rightarrow> [] | Some v \<Rightarrow> v)"

section \<open>Numbers\<close>

fun showNat :: "nat \<Rightarrow> string" where
  "showNat n = (if n < 10 then [char_of (48 + n)] else showNat (n div 10) @ [char_of (48 + n mod 10)])"

declare showNat.simps [simp del]

definition showInt :: "int \<Rightarrow> string" where
  "showInt i = (if i < 0 then CHR ''-'' # showNat (nat (- i)) else showNat (nat i))"

text \<open>
  \<open>stream >> i\<close> for an \<open>int\<close> that held \<open>old\<close>: an exhausted stream leaves it, text that is no
  number gives 0, and a number out of range the nearest bound.
\<close>

definition extractInt :: "int \<Rightarrow> string \<Rightarrow> int" where
  "extractInt old s =
     (let s = dropWhile isspace s;
          negative = (s \<noteq> [] \<and> hd s = CHR ''-'');
          digits = takeWhile isdigit (if s \<noteq> [] \<and> (hd s = CHR ''-'' \<or> hd s = CHR ''+'') then tl s else s);
          n = int (decimalValue digits)
      in if s = [] then old else if digits = [] then 0
         else if negative then max (- 2147483648) (- n) else min 2147483647 n)"

section \<open>Lines\<close>

definition cr :: char where "cr = CHR 0x0D"
definition lf :: char where "lf = CHR 0x0A"

definition httpTrim :: "string \<Rightarrow> string" where
  "httpTrim s = filter (\<lambda>c. c \<noteq> CHR '' '' \<and> c \<noteq> lf \<and> c \<noteq> cr) s"

text \<open>\<open>std::getline\<close> in a loop: no token after a separator that ends the text.\<close>

definition tokens :: "char \<Rightarrow> string \<Rightarrow> string list" where
  "tokens sep s = (let ts = split_on sep s in if last ts = [] then butlast ts else ts)"

definition parseStatusLine :: "string \<Rightarrow> string \<times> int" where
  "parseStatusLine line =
     (let ts = tokens (CHR '' '') line in
      (if length ts \<ge> 1 then httpTrim (ts ! 0) else [],
       if length ts \<ge> 2 then extractInt (- 1) (httpTrim (ts ! 1)) else - 1))"

text \<open>
  One line of the header, as it was read: the name before the first colon that is not the first
  character, and the value after the blanks that follow it, without blanks at its end.
\<close>

definition trimEnd :: "string \<Rightarrow> string" where
  "trimEnd s = rev (dropWhile isspace (rev s))"

definition headerLine :: "string \<Rightarrow> http_headers \<Rightarrow> http_headers" where
  "headerLine line hs =
     (case find_from (\<lambda>c. c = CHR '':'') line 1 of
        None \<Rightarrow> hs
      | Some colon \<Rightarrow>
          (let lineStr = c_str line in
           headerSet (take colon lineStr)
             (trimEnd (dropWhile (\<lambda>c. c = CHR '' '') (drop (colon + 1) lineStr))) hs))"

section \<open>Names are compared without case\<close>

lemma ciLess_irrefl [simp]: "\<not> ciLess a a"
  by (induction a) auto

lemma charCode_inject: "charCode c = charCode d \<longleftrightarrow> c = d"
  by (simp add: charCode_def)

lemma insensitive_lower: "insensitiveStringCompare a b \<longleftrightarrow> map to_lower a = map to_lower b"
proof (induction a b rule: ciLess.induct)
  case (1 s)
  then show ?case by (cases s) (auto simp: insensitiveStringCompare_def)
next
  case (2 y ys)
  then show ?case by (simp add: insensitiveStringCompare_def)
next
  case (3 x xs y ys)
  show ?case
  proof (cases "to_lower x = to_lower y")
    case True
    with 3 show ?thesis by (simp add: insensitiveStringCompare_def)
  next
    case False
    then have "charCode (to_lower x) < charCode (to_lower y) \<or> charCode (to_lower y) < charCode (to_lower x)"
      by (metis charCode_inject linorder_neqE_nat)
    with False show ?thesis by (auto simp: insensitiveStringCompare_def)
  qed
qed

lemma ciLess_lower: "map to_lower a = map to_lower a' \<Longrightarrow> ciLess a b = ciLess a' b"
proof (induction a b arbitrary: a' rule: ciLess.induct)
  case (2 y ys)
  then show ?case by (cases a') auto
next
  case (3 x xs y ys)
  then show ?case by (cases a') auto
qed simp

lemma ciLess_same: "map to_lower a = map to_lower b \<Longrightarrow> \<not> ciLess a b \<and> \<not> ciLess b a"
  using insensitive_lower [of a b] by (simp add: insensitiveStringCompare_def)

lemma ciLess_neither: "\<not> ciLess a b \<Longrightarrow> \<not> ciLess b a \<Longrightarrow> map to_lower a = map to_lower b"
  using insensitive_lower [of a b] by (simp add: insensitiveStringCompare_def)

text \<open>What is stored under a name is found under every spelling of it.\<close>

lemma headerFind_headerSet:
  "headerFind k (headerSet k' v hs) =
     (if map to_lower k = map to_lower k' then Some v else headerFind k hs)"
proof (induction k' v hs rule: headerSet.induct)
  case (2 k' v k'' v'' hs)
  consider "ciLess k' k''" | "\<not> ciLess k' k''" "ciLess k'' k'" | "\<not> ciLess k' k''" "\<not> ciLess k'' k'" by blast
  then show ?case
  proof cases
    case 1
    then show ?thesis by (simp add: insensitive_lower)
  next
    case 2
    with ciLess_same [of k' k''] have "map to_lower k' \<noteq> map to_lower k''" by blast
    with 2 "2.IH" show ?thesis by (auto simp: insensitive_lower)
  next
    case 3
    with ciLess_neither have "map to_lower k' = map to_lower k''" by blast
    with 3 show ?thesis by (simp add: insensitive_lower)
  qed
qed (simp add: insensitive_lower)

end
