(* ===== verification/IxHandshake.thy ===== *)
theory IxHandshake
  imports IxTransport IxHttp IxKeyGen
begin

text \<open>
  Connecting: the blocking reads and writes of \<open>Socket\<close> (\<open>IXSocket.cpp\<close>), the header of the
  answer (\<open>IXWebSocketHttpHeaders.cpp\<close>), the client's side of the upgrade
  (\<open>IXWebSocketHandshake.cpp\<close>), and \<open>WebSocketTransport::connectToUrl\<close> with its redirections.
  Sockets are made and connected by parameters. The library is built without zlib here: an
  extension header is empty and no answer enables compression.
\<close>

section \<open>Parameters\<close>

text \<open>
  \<open>nt_create\<close> is \<open>createSocket\<close>, given whether TLS is wanted, with the socket that it replaces even when it fails;
  \<open>nt_connect\<close> is \<open>Socket::connect\<close> under a deadline, \<open>None\<close> where it does not return;
  \<open>nt_clock\<close> is the system clock in milliseconds; \<open>nt_random\<close> is \<open>genRandomString(16)\<close>;
  \<open>nt_requested\<close> tells whether another thread has set \<open>_requestInitCancellation\<close> by then.
\<close>

record 'k net_api =
  nt_sock :: "'k sock_api"
  nt_create :: "bool \<Rightarrow> 'k \<Rightarrow> (string, unit) result \<times> 'k"
  nt_connect :: "int \<times> int \<Rightarrow> string \<Rightarrow> int \<Rightarrow> 'k \<Rightarrow> ((bool \<times> string) \<times> 'k) option"
  nt_clock :: "'k \<Rightarrow> int"
  nt_random :: "'k \<Rightarrow> string"
  nt_requested :: "'k \<Rightarrow> bool"
  nt_userAgent :: string

definition chars_of :: "byte list \<Rightarrow> string" where
  "chars_of bs = map (\<lambda>b. char_of (unat b)) bs"

section \<open>Blocking reads and writes\<close>

text \<open>\<open>makeCancellationRequestWithTimeout\<close>: when it was made, and the seconds allowed.\<close>

definition isCancellationRequested :: "'k net_api \<Rightarrow> int \<times> int \<Rightarrow> 'k \<Rightarrow> bool" where
  "isCancellationRequested nt deadline k \<longleftrightarrow>
     nt_requested nt k \<or> nt_clock nt k - fst deadline > 1000 * snd deadline"

text \<open>They wait as long as nothing can be finish, so that they may not return: then they are \<open>None\<close>.\<close>

partial_function (option) writeBytes ::
  "'k net_api \<Rightarrow> int \<times> int \<Rightarrow> byte list \<Rightarrow> 'k \<Rightarrow> (bool \<times> 'k) option" where
  "writeBytes nt deadline str k =
     (if isCancellationRequested nt deadline k then Some (False, k)
      else
        (let (ret, k1) = sk_send (nt_sock nt) str k in
         if ret > 0 then
           (if ret = int (length str) then Some (True, k1) else writeBytes nt deadline (drop (nat ret) str) k1)
         else if ret < 0 \<and> sk_isWaitNeeded (nt_sock nt) k1 then writeBytes nt deadline str k1
         else Some (False, k1)))"

partial_function (option) readByte :: "'k net_api \<Rightarrow> int \<times> int \<Rightarrow> 'k \<Rightarrow> (byte option \<times> 'k) option" where
  "readByte nt deadline k =
     (if isCancellationRequested nt deadline k then Some (None, k)
      else
        (case sk_recv (nt_sock nt) 1 k of
           (Inr bytes, k1) \<Rightarrow> Some (if bytes = [] then None else Some (hd bytes), k1)
         | (Inl ret, k1) \<Rightarrow>
             if ret < 0 \<and> sk_isWaitNeeded (nt_sock nt) k1 then
               (case sk_isReadyToRead (nt_sock nt) 1 k1 of
                  None \<Rightarrow> None
                | Some (r, k2) \<Rightarrow> if r = PollError then Some (None, k2) else readByte nt deadline k2)
             else Some (None, k1)))"

text \<open>
  The test of both line loops: before the second character, or as long as the last but one is no
  carriage return and the last no line feed.
\<close>

definition lineGoesOn :: "string \<Rightarrow> bool" where
  "lineGoesOn line \<longleftrightarrow>
     length line < 2 \<or> (line ! (length line - 2) \<noteq> cr \<and> line ! (length line - 1) \<noteq> lf)"

text \<open>\<open>bound\<close> is the size of the header's line buffer; \<open>readLine\<close> has none.\<close>

partial_function (option) readUntil ::
  "'k net_api \<Rightarrow> int \<times> int \<Rightarrow> nat option \<Rightarrow> string \<Rightarrow> 'k \<Rightarrow> ((bool \<times> string) \<times> 'k) option" where
  "readUntil nt deadline bound line k =
     (if lineGoesOn line \<and> (length line < 2 \<or> bound = None \<or> length line < the bound) then
        (case readByte nt deadline k of
           None \<Rightarrow> None
         | Some (c, k1) \<Rightarrow>
             if c = None then Some ((False, line), k1)
             else readUntil nt deadline bound (line @ chars_of [the c]) k1)
      else Some ((True, line), k))"

definition readLine :: "'k net_api \<Rightarrow> int \<times> int \<Rightarrow> 'k \<Rightarrow> ((bool \<times> string) \<times> 'k) option" where
  "readLine nt deadline k = readUntil nt deadline None [] k"

partial_function (option) parseHttpHeaders ::
  "'k net_api \<Rightarrow> int \<times> int \<Rightarrow> http_headers \<Rightarrow> 'k \<Rightarrow> ((bool \<times> http_headers) \<times> 'k) option" where
  "parseHttpHeaders nt deadline headers k =
     (case readUntil nt deadline (Some 1023) [] k of
        None \<Rightarrow> None
      | Some (l, k1) \<Rightarrow>
          if \<not> fst l then Some ((False, headers), k1)
          else if snd l ! 0 = cr \<and> snd l ! 1 = lf then Some ((True, headers), k1)
          else parseHttpHeaders nt deadline (headerLine (snd l) headers) k1)"

section \<open>The upgrade\<close>

record ws_init_result =
  in_success :: bool
  in_http_status :: int
  in_errorStr :: string
  in_headers :: http_headers
  in_uri :: string
  in_protocol :: string

definition initResult :: "bool \<Rightarrow> int \<Rightarrow> string \<Rightarrow> http_headers \<Rightarrow> string \<Rightarrow> ws_init_result" where
  "initResult success status error headers uri =
     \<lparr>in_success = success, in_http_status = status, in_errorStr = error, in_headers = headers,
      in_uri = uri, in_protocol = headerGet ''Sec-WebSocket-Protocol'' headers\<rparr>"

definition bracketedHost :: "string \<Rightarrow> string" where
  "bracketedHost host = (if CHR '':'' \<in> set host then ''['' @ host @ '']'' else host)"

definition upgradeRequest ::
  "string \<Rightarrow> http_headers \<Rightarrow> string \<Rightarrow> string \<Rightarrow> string \<Rightarrow> int \<Rightarrow> string \<Rightarrow> string" where
  "upgradeRequest userAgent extraHeaders protocol host path port key =
     ''GET '' @ path @ '' HTTP/1.1'' @ crlf @
     (if headerFind ''Host'' extraHeaders = None
      then ''Host: '' @ bracketedHost host @ '':'' @ showInt port @ crlf else []) @
     ''Upgrade: websocket'' @ crlf @ ''Connection: Upgrade'' @ crlf @ ''Sec-WebSocket-Version: 13'' @ crlf @
     ''Sec-WebSocket-Key: '' @ key @ crlf @
     (if headerFind ''User-Agent'' extraHeaders = None then ''User-Agent: '' @ userAgent @ crlf else []) @
     (if headerFind ''Origin'' extraHeaders = None
      then ''Origin: '' @ protocol @ ''://'' @ bracketedHost host @ '':'' @ showInt port @ crlf else []) @
     concat (map (\<lambda>(k, v). k @ '': '' @ v @ crlf) extraHeaders) @ crlf"

text \<open>What is made of a status line and header that were read; \<open>deflate\<close> is \<open>_enablePerMessageDeflate\<close>.\<close>

definition checkAnswer ::
  "string \<Rightarrow> string \<Rightarrow> string \<Rightarrow> string \<Rightarrow> bool \<Rightarrow> bool \<Rightarrow> http_headers \<Rightarrow> ws_init_result" where
  "checkAnswer url path key line deflate headersValid headers =
     (let status = snd (parseStatusLine line) in
      if \<not> headersValid then initResult False status ''Error parsing HTTP headers'' [] []
      else if status \<noteq> 101
      then initResult False status
             (''Expecting status 101 (Switching Protocol), got '' @ showInt status @
              '' status connecting to '' @ url @ '', HTTP Status line: '' @ line) headers path
      else if headerFind ''connection'' headers = None
      then initResult False status ''Missing connection value'' [] []
      else if \<not> insensitiveStringCompare (headerGet ''connection'' headers) ''Upgrade''
      then initResult False status (''Invalid connection value: '' @ headerGet ''connection'' headers) [] []
      else if generate (bytes_of key) \<noteq> headerGet ''sec-websocket-accept'' headers
      then initResult False status ''Invalid Sec-WebSocket-Accept value'' [] []
      else initResult True status []
             (if deflate \<and> headerFind ''sec-websocket-extensions'' headers = None
              then headerSet ''sec-websocket-extensions'' [] headers else headers) path)"

definition tooOld :: "string \<Rightarrow> string \<Rightarrow> ws_init_result" where
  "tooOld url line =
     (let (httpVersion, status) = parseStatusLine line in
      initResult False status
        (''Expecting HTTP/1.1, got '' @ httpVersion @ ''. Rejecting connection to '' @ url @
         '', status: '' @ showInt status @ '', HTTP Status line: '' @ line) [] [])"

text \<open>The exchange on a connected socket.\<close>

definition exchange ::
  "'k net_api \<Rightarrow> int \<times> int \<Rightarrow> string \<Rightarrow> http_headers \<Rightarrow> url_parts \<Rightarrow> bool \<Rightarrow> 'k \<Rightarrow> (ws_init_result \<times> 'k) option" where
  "exchange nt deadline url extraHeaders p deflate k =
     (let key = Encode (bytes_of (nt_random nt k));
          request = upgradeRequest (nt_userAgent nt) extraHeaders (up_protocol p) (up_host p) (up_path p) (up_port p) key
      in case writeBytes nt deadline (bytes_of request) k of
           None \<Rightarrow> None
         | Some (False, k1) \<Rightarrow> Some (initResult False 0 (''Failed sending GET request to '' @ url) [] [], k1)
         | Some (True, k1) \<Rightarrow>
             (case readLine nt deadline k1 of
                None \<Rightarrow> None
              | Some ((False, line), k2) \<Rightarrow>
                  Some (initResult False 0 (''Failed reading HTTP status line from '' @ url) [] [], k2)
              | Some ((True, line), k2) \<Rightarrow>
                  if fst (parseStatusLine line) \<noteq> ''HTTP/1.1'' then Some (tooOld url line, k2)
                  else
                    (case parseHttpHeaders nt deadline [] k2 of
                       None \<Rightarrow> None
                     | Some ((valid, headers), k3) \<Rightarrow>
                         Some (checkAnswer url (up_path p) key line deflate valid headers, k3))))"

definition clientHandshake ::
  "'k net_api \<Rightarrow> string \<Rightarrow> http_headers \<Rightarrow> url_parts \<Rightarrow> int \<Rightarrow> 'k transport \<Rightarrow> (ws_init_result \<times> 'k transport) option" where
  "clientHandshake nt url extraHeaders p timeoutSecs t =
     (let deadline = (nt_clock nt (t_socket t), timeoutSecs);
          finish = (\<lambda>(r, k). (r, t\<lparr>t_socket := k, t_requestInitCancellation := nt_requested nt k,
                                 t_enablePerMessageDeflate := t_enablePerMessageDeflate t \<and> \<not> in_success r\<rparr>))
      in case nt_connect nt deadline (up_host p) (up_port p) (t_socket t) of
           None \<Rightarrow> None
         | Some ((success, errMsg), k) \<Rightarrow>
             if \<not> success
             then Some (finish (initResult False 0
                    (''Unable to connect to '' @ up_host p @ '' on port '' @ showInt (up_port p) @ '', error: '' @ errMsg) [] [], k))
             else map_option finish (exchange nt deadline url extraHeaders p (t_enablePerMessageDeflate t) k))"

section \<open>Connecting to a URL\<close>

definition isRedirect :: "ws_init_result \<Rightarrow> bool" where
  "isRedirect r \<longleftrightarrow> 300 \<le> in_http_status r \<and> in_http_status r < 400"

text \<open>The loop over at most \<open>n\<close> redirections; \<open>prev\<close> is what the previous one came back with.\<close>

fun connectLoop ::
  "'k net_api \<Rightarrow> string \<Rightarrow> http_headers \<Rightarrow> int \<Rightarrow> nat \<Rightarrow> string \<Rightarrow> ws_init_result \<Rightarrow> 'k transport \<Rightarrow>
     (ws_init_result \<times> 'k transport) option" where
  "connectLoop nt url headers timeoutSecs 0 remoteUrl prev t = Some (prev, t)"
| "connectLoop nt url headers timeoutSecs (Suc n) remoteUrl prev t =
     (case parse remoteUrl of
        None \<Rightarrow> Some (initResult False 0 (''Could not parse url: '' @ [CHR 0x27] @ url @ [CHR 0x27]) [] [], t)
      | Some p \<Rightarrow>
          (case nt_create nt (up_protocol p = ''wss'') (t_socket t) of
             (Inl errorMsg, k) \<Rightarrow> Some (initResult False 0 errorMsg [] [], t\<lparr>t_socket := k\<rparr>)
           | (Inr _, k) \<Rightarrow>
               (case clientHandshake nt remoteUrl headers p timeoutSecs (t\<lparr>t_socket := k\<rparr>) of
                  None \<Rightarrow> None
                | Some (r, t1) \<Rightarrow>
                    if isRedirect r then
                      (case headerFind ''Location'' (in_headers r) of
                         None \<Rightarrow>
                           Some (r\<lparr>in_errorStr := ''Missing Location Header for HTTP Redirect response. '' @
                                    ''Rejecting connection to '' @ url @ '', status: '' @ showInt (in_http_status r)\<rparr>, t1)
                       | Some location \<Rightarrow> connectLoop nt url headers timeoutSecs n location r t1)
                    else Some (r, if in_success r then setReadyState (nt_sock nt) OPEN t1 else t1))))"

definition connectToUrl ::
  "'k net_api \<Rightarrow> string \<Rightarrow> http_headers \<Rightarrow> int \<Rightarrow> 'k transport \<Rightarrow> (ws_init_result \<times> 'k transport) option" where
  "connectToUrl nt url headers timeoutSecs t =
     connectLoop nt url headers timeoutSecs 10 url (initResult False 0 [] [] []) t"

end
