(* ===== verification/IxSocket.thy ===== *)
theory IxSocket
  imports IxHandshake
begin

text \<open>
  The sockets of the WebSocket library as they are built on Linux with OpenSSL: \<open>Socket\<close>
  (\<open>IXSocket.cpp\<close>), the pipe that interrupts its poll (\<open>IXSelectInterruptPipe.cpp\<close>), \<open>SocketConnect\<close>
  (\<open>IXSocketConnect.cpp\<close>), the transfer of data by \<open>SocketOpenSSL\<close> (\<open>IXSocketOpenSSL.cpp\<close>) and
  \<open>createSocket\<close> (\<open>IXSocketFactory.cpp\<close>), with the resolution of names (\<open>IXDNSLookup.cpp\<close>). Parameters are
  the system calls and the functions of OpenSSL. \<open>socket_api\<close> and \<open>socket_net\<close> at the end are what the connection (\<open>IxTransport\<close>) and the
  handshake (\<open>IxHandshake\<close>) work on.
\<close>

section \<open>The system\<close>

text \<open>The values of \<open>errno\<close> that are looked at; on Linux the first two are the same.\<close>

definition EWOULDBLOCK :: int where "EWOULDBLOCK = 11"
definition EAGAIN :: int where "EAGAIN = 11"
definition EINPROGRESS :: int where "EINPROGRESS = 115"
definition EINTR :: int where "EINTR = 4"

lemmas errno_defs = EWOULDBLOCK_def EAGAIN_def EINPROGRESS_def EINTR_def

record revents =
  rv_in :: bool
  rv_out :: bool
  rv_err :: bool
  rv_hup :: bool
  rv_nval :: bool

definition no_events :: revents where
  "no_events = \<lparr>rv_in = False, rv_out = False, rv_err = False, rv_hup = False, rv_nval = False\<rparr>"

text \<open>The flags of \<open>getaddrinfo\<close> besides \<open>AI_NUMERICSERV\<close>, which is always given.\<close>

record addrinfo_flags =
  ai_numericHost :: bool
  ai_addrConfig :: bool

datatype ssl_reason = SSL_NONE | SSL_WANT_READ | SSL_WANT_WRITE | SSL_OTHER

text \<open>
  The state \<open>'e\<close> of the system holds everything outside the objects of the library. \<open>os_poll\<close> is \<open>poll\<close> for a
  list of descriptors, each with whether \<open>POLLIN\<close> or \<open>POLLOUT\<close> is asked for, \<open>None\<close> where it does not return;
  \<open>os_write\<close> and \<open>os_read\<close> are \<open>write\<close> and \<open>read\<close> of the eight bytes of a number, the latter with the value that
  is then there, 0 if nothing was read. \<open>os_signals\<close> bounds how many calls in a row signals can still interrupt.
  \<open>os_soError\<close> is \<open>getsockopt\<close> for \<open>SO_ERROR\<close>, with its result and the option's value (\<open>- 1\<close> where it was not
  set). \<open>os_isNumericHost\<close> is \<open>inet_pton\<close> for either family; \<open>os_startLookup\<close> starts the thread that resolves a
  name, and \<open>os_lookupDone\<close> is, once it has ended, the state in which it asked. \<open>os_requested\<close> tells whether another thread has asked to cancel. A call of OpenSSL comes with the reason
  that \<open>SSL_get_error\<close> then gives; \<open>ssl_setup\<close> stands for the options of TLS.
\<close>

record 'e os_api =
  os_poll :: "(int \<times> bool) list \<Rightarrow> int \<Rightarrow> 'e \<Rightarrow> ((int \<times> revents list) \<times> 'e) option"
  os_send :: "int \<Rightarrow> byte list \<Rightarrow> 'e \<Rightarrow> int \<times> 'e"
  os_recv :: "int \<Rightarrow> nat \<Rightarrow> 'e \<Rightarrow> (int + byte list) \<times> 'e"
  os_close :: "int \<Rightarrow> 'e \<Rightarrow> 'e"
  os_pipe :: "'e \<Rightarrow> (int \<times> int) option \<times> 'e"
  os_nonblock :: "int \<Rightarrow> 'e \<Rightarrow> bool \<times> 'e"
  os_write :: "int \<Rightarrow> uint64 \<Rightarrow> 'e \<Rightarrow> int \<times> 'e"
  os_read :: "int \<Rightarrow> 'e \<Rightarrow> (int \<times> uint64) \<times> 'e"
  os_signals :: "'e \<Rightarrow> nat"
  os_errno :: "'e \<Rightarrow> int"
  os_setErrno :: "int \<Rightarrow> 'e \<Rightarrow> 'e"
  os_strerror :: "int \<Rightarrow> string"
  os_soError :: "int \<Rightarrow> 'e \<Rightarrow> (int \<times> int) \<times> 'e"
  os_isNumericHost :: "string \<Rightarrow> bool"
  os_getaddrinfo :: "addrinfo_flags \<Rightarrow> string \<Rightarrow> string \<Rightarrow> 'e \<Rightarrow> int + string list"
  os_gai_strerror :: "int \<Rightarrow> string"
  os_startLookup :: "'e \<Rightarrow> 'e"
  os_lookupDone :: "'e \<Rightarrow> 'e option"
  os_sleep :: "int \<Rightarrow> 'e \<Rightarrow> 'e"
  os_socket :: "string \<Rightarrow> 'e \<Rightarrow> int \<times> 'e"
  os_nodelay :: "int \<Rightarrow> 'e \<Rightarrow> 'e"
  os_connect :: "int \<Rightarrow> string \<Rightarrow> 'e \<Rightarrow> int \<times> 'e"
  os_steady :: "'e \<Rightarrow> int"
  os_system :: "'e \<Rightarrow> int"
  os_time :: "'e \<Rightarrow> uint32"
  os_random :: "'e \<Rightarrow> string"
  os_requested :: "'e \<Rightarrow> bool"
  ssl_initialized :: "'e \<Rightarrow> bool"
  ssl_context :: "'e \<Rightarrow> (string, unit) result \<times> 'e"
  ssl_setup :: "'e \<Rightarrow> (string, unit) result \<times> 'e"
  ssl_new :: "int \<Rightarrow> string \<Rightarrow> 'e \<Rightarrow> bool \<times> 'e"
  ssl_connect :: "'e \<Rightarrow> (int \<times> ssl_reason) \<times> 'e"
  ssl_checkCert :: "string \<Rightarrow> 'e \<Rightarrow> (string, unit) result \<times> 'e"
  ssl_errorText :: "int \<Rightarrow> 'e \<Rightarrow> string"
  ssl_write :: "byte list \<Rightarrow> 'e \<Rightarrow> (int \<times> ssl_reason) \<times> 'e"
  ssl_read :: "nat \<Rightarrow> 'e \<Rightarrow> ((int + byte list) \<times> ssl_reason) \<times> 'e"
  ssl_free :: "'e \<Rightarrow> 'e"

section \<open>State\<close>

text \<open>
  A socket object: its descriptor, the two ends of its pipe, whether it is a \<open>SocketOpenSSL\<close>, and then whether it
  has a context and a connection. Descriptors are \<open>- 1\<close> where there is none.
\<close>

record socket =
  so_sockfd :: int
  so_readFd :: int
  so_writeFd :: int
  so_tls :: bool
  so_context :: bool
  so_connection :: bool

definition newSocket :: "bool \<Rightarrow> socket" where
  "newSocket tls =
     \<lparr>so_sockfd = - 1, so_readFd = - 1, so_writeFd = - 1, so_tls = tls, so_context = False, so_connection = False\<rparr>"

text \<open>Where the connection has no socket object, it is taken for one without descriptors.\<close>

definition noSocket :: socket where
  "noSocket = newSocket False"

type_synonym 'e sockets = "socket \<times> 'e"

section \<open>The pipe that interrupts a poll\<close>

fun retryWrite :: "nat \<Rightarrow> 'e os_api \<Rightarrow> int \<Rightarrow> uint64 \<Rightarrow> 'e \<Rightarrow> int \<times> 'e" where
  "retryWrite 0 os fd v e = os_write os fd v e"
| "retryWrite (Suc n) os fd v e =
     (let (ret, e1) = os_write os fd v e
      in if ret = - 1 \<and> os_errno os e1 = EINTR then retryWrite n os fd v e1 else (ret, e1))"

fun retryRead :: "nat \<Rightarrow> 'e os_api \<Rightarrow> int \<Rightarrow> 'e \<Rightarrow> (int \<times> uint64) \<times> 'e" where
  "retryRead 0 os fd e = os_read os fd e"
| "retryRead (Suc n) os fd e =
     (let ((ret, v), e1) = os_read os fd e
      in if ret = - 1 \<and> os_errno os e1 = EINTR then retryRead n os fd e1 else ((ret, v), e1))"

definition pipe_init :: "'e os_api \<Rightarrow> 'e sockets \<Rightarrow> (string, unit) result \<times> 'e sockets" where
  "pipe_init os k =
     (case os_pipe os (snd k) of
        (None, e) \<Rightarrow>
          (Inl (''SelectInterruptPipe::init() failed in pipe() call : '' @ os_strerror os (os_errno os e)), (fst k, e))
      | (Some (r, w), e) \<Rightarrow>
          (let failed = (\<lambda>e. (Inl (''SelectInterruptPipe::init() failed in fcntl(..., O_NONBLOCK) call : '' @
                                  os_strerror os (os_errno os e)),
                             ((fst k)\<lparr>so_readFd := - 1, so_writeFd := - 1\<rparr>, e)));
               (okr, e1) = os_nonblock os r e
           in if \<not> okr then failed e1
              else (let (okw, e2) = os_nonblock os w e1
                    in if \<not> okw then failed e2
                       else (Inr (), ((fst k)\<lparr>so_readFd := r, so_writeFd := w\<rparr>, e2)))))"

definition pipe_notify :: "'e os_api \<Rightarrow> uint64 \<Rightarrow> 'e sockets \<Rightarrow> bool \<times> 'e sockets" where
  "pipe_notify os value k =
     (if so_writeFd (fst k) = - 1 then (False, k)
      else (let (ret, e) = retryWrite (os_signals os (snd k)) os (so_writeFd (fst k)) value (snd k)
            in (ret = 8, (fst k, e))))"

definition pipe_read :: "'e os_api \<Rightarrow> int \<Rightarrow> 'e \<Rightarrow> uint64 \<times> 'e" where
  "pipe_read os fd e = (let ((ret, v), e1) = retryRead (os_signals os e) os fd e in (v, e1))"

definition pipe_close :: "'e os_api \<Rightarrow> socket \<Rightarrow> 'e \<Rightarrow> 'e" where
  "pipe_close os s e =
     (let e1 = (if so_readFd s \<noteq> - 1 then os_close os (so_readFd s) e else e)
      in if so_writeFd s \<noteq> - 1 then os_close os (so_writeFd s) e1 else e1)"

section \<open>Polling\<close>

definition wakeUpCode :: "wakeup \<Rightarrow> uint64" where
  "wakeUpCode c = (case c of kSendRequest \<Rightarrow> 1 | kCloseRequest \<Rightarrow> 2)"

text \<open>\<open>None\<close> where the result of the poll is left as it is.\<close>

definition readSelectInterruptRequest :: "'e os_api \<Rightarrow> int \<Rightarrow> 'e \<Rightarrow> PollResultType option \<times> 'e" where
  "readSelectInterruptRequest os fd e =
     (let (value, e1) = pipe_read os fd e
      in (if value = wakeUpCode kSendRequest then Some PollSendRequest
          else if value = wakeUpCode kCloseRequest then Some PollCloseRequest else None, e1))"

text \<open>
  \<open>Socket::poll\<close>; \<open>interrupt\<close> is the reading end of the pipe, if one is given. Without a descriptor of
  its own the pipe is asked before and after the poll, which is the emulation for other platforms.
\<close>

definition socketPoll ::
  "'e os_api \<Rightarrow> bool \<Rightarrow> int \<Rightarrow> int \<Rightarrow> int option \<Rightarrow> 'e \<Rightarrow> (PollResultType \<times> 'e) option" where
  "socketPoll os readyToRead timeoutMs sockfd interrupt e =
     (let emulated = (interrupt = Some (- 1));
          (early, e0) = (if emulated then readSelectInterruptRequest os (- 1) e else (None, e))
      in if early \<noteq> None then Some (the early, e0)
         else
           (case os_poll os ((sockfd, readyToRead) #
                    (case interrupt of Some fd \<Rightarrow> if fd \<noteq> - 1 then [(fd, True)] else [] | None \<Rightarrow> [])) timeoutMs e0 of
              None \<Rightarrow> None
            | Some ((ret, fds), e1) \<Rightarrow> Some
                (if ret < 0 then (PollError, e1)
                 else if ret = 0 then
                   (if emulated then
                      (let (r, e2) = readSelectInterruptRequest os (- 1) e1
                       in (case r of None \<Rightarrow> PollTimeout | Some x \<Rightarrow> x, e2))
                    else (PollTimeout, e1))
                 else if interrupt \<noteq> None \<and> the interrupt \<noteq> - 1 \<and> rv_in (fds ! 1) then
                   (let (r, e2) = readSelectInterruptRequest os (the interrupt) e1
                    in (case r of None \<Rightarrow> PollReadyForRead | Some x \<Rightarrow> x, e2))
                 else if sockfd \<noteq> - 1 \<and> readyToRead \<and> rv_in (fds ! 0) then (PollReadyForRead, e1)
                 else if sockfd \<noteq> - 1 \<and> \<not> readyToRead \<and> rv_out (fds ! 0) then
                   (let ((res, optval), e2) = os_soError os sockfd e1
                    in if res = - 1 \<or> optval \<noteq> 0 then (PollError, os_setErrno os optval e2)
                       else (PollReadyForWrite, e2))
                 else if sockfd \<noteq> - 1 \<and> (rv_err (fds ! 0) \<or> rv_hup (fds ! 0) \<or> rv_nval (fds ! 0))
                 then (PollError, e1)
                 else (PollReadyForRead, e1))))"

definition isReadyTo :: "bool \<Rightarrow> 'e os_api \<Rightarrow> int \<Rightarrow> 'e sockets \<Rightarrow> (PollResultType \<times> 'e sockets) option" where
  "isReadyTo readyToRead os timeoutMs k =
     (if so_sockfd (fst k) = - 1 then Some (PollError, k)
      else map_option (\<lambda>(r, e). (r, (fst k, e)))
             (socketPoll os readyToRead timeoutMs (so_sockfd (fst k)) (Some (so_readFd (fst k))) (snd k)))"

definition isReadyToRead :: "'e os_api \<Rightarrow> int \<Rightarrow> 'e sockets \<Rightarrow> (PollResultType \<times> 'e sockets) option" where
  "isReadyToRead os = isReadyTo True os"

definition isReadyToWrite :: "'e os_api \<Rightarrow> int \<Rightarrow> 'e sockets \<Rightarrow> (PollResultType \<times> 'e sockets) option" where
  "isReadyToWrite os = isReadyTo False os"

definition isWaitNeeded :: "'e os_api \<Rightarrow> 'e \<Rightarrow> bool" where
  "isWaitNeeded os e \<longleftrightarrow> os_errno os e = EWOULDBLOCK \<or> os_errno os e = EAGAIN \<or> os_errno os e = EINPROGRESS"

section \<open>Transferring data and closing\<close>

definition socketSend :: "'e os_api \<Rightarrow> byte list \<Rightarrow> 'e sockets \<Rightarrow> int \<times> 'e sockets" where
  "socketSend os bs k =
     (if so_tls (fst k) then
        (if \<not> so_connection (fst k) \<or> \<not> so_context (fst k) then (0, k)
         else (let ((ret, reason), e) = ssl_write os bs (snd k)
               in if reason = SSL_NONE then (ret, (fst k, e))
                  else if reason = SSL_WANT_READ \<or> reason = SSL_WANT_WRITE
                  then (- 1, (fst k, os_setErrno os EWOULDBLOCK e))
                  else (- 1, (fst k, e))))
      else (let (ret, e) = os_send os (so_sockfd (fst k)) bs (snd k) in (ret, (fst k, e))))"

text \<open>\<open>SocketOpenSSL::recv\<close> returns in the first turn of its loop.\<close>

definition socketRecv :: "'e os_api \<Rightarrow> nat \<Rightarrow> 'e sockets \<Rightarrow> (int + byte list) \<times> 'e sockets" where
  "socketRecv os n k =
     (if so_tls (fst k) then
        (if \<not> so_connection (fst k) \<or> \<not> so_context (fst k) then (Inl 0, k)
         else (let ((ret, reason), e) = ssl_read os n (snd k)
               in (case ret of
                     Inr bytes \<Rightarrow> (Inr bytes, (fst k, e))
                   | Inl _ \<Rightarrow>
                       (Inl (- 1), (fst k, if reason = SSL_WANT_READ \<or> reason = SSL_WANT_WRITE
                                           then os_setErrno os EWOULDBLOCK e else e)))))
      else (let (ret, e) = os_recv os (so_sockfd (fst k)) n (snd k) in (ret, (fst k, e))))"

definition socketClose :: "'e os_api \<Rightarrow> 'e sockets \<Rightarrow> 'e sockets" where
  "socketClose os k =
     (let (s, e) = k;
          e1 = (if so_connection s then ssl_free os e else e);
          s1 = s\<lparr>so_connection := False, so_context := False\<rparr>
      in if so_sockfd s1 = - 1 then (s1, e1) else (s1\<lparr>so_sockfd := - 1\<rparr>, os_close os (so_sockfd s1) e1))"

definition socketWakeUp :: "'e os_api \<Rightarrow> wakeup \<Rightarrow> 'e sockets \<Rightarrow> 'e sockets" where
  "socketWakeUp os c k = snd (pipe_notify os (wakeUpCode c) k)"

definition isWakeUpFromPollSupported :: "'e sockets \<Rightarrow> bool" where
  "isWakeUpFromPollSupported k \<longleftrightarrow> so_readFd (fst k) \<noteq> - 1"

text \<open>The destructors of the socket and of its pipe.\<close>

definition destroySocket :: "'e os_api \<Rightarrow> 'e sockets \<Rightarrow> 'e" where
  "destroySocket os k = (let (s, e) = socketClose os k in pipe_close os s e)"

text \<open>\<open>createSocket\<close>, and the assignment that then destroys the socket it replaces.\<close>

definition createSocket :: "'e os_api \<Rightarrow> bool \<Rightarrow> 'e sockets \<Rightarrow> (string, unit) result \<times> 'e sockets" where
  "createSocket os tls k =
     (case pipe_init os (newSocket tls, snd k) of
        (Inl errorMsg, s, e) \<Rightarrow> (Inl errorMsg, (noSocket, destroySocket os (fst k, destroySocket os (s, e))))
      | (Inr _, s, e) \<Rightarrow> (Inr (), (s, destroySocket os (fst k, e))))"

section \<open>Resolving a name\<close>

text \<open>Without the flag once more, when the name was not found among the configured addresses.\<close>

definition getAddrInfo :: "'e os_api \<Rightarrow> string \<Rightarrow> int \<Rightarrow> 'e \<Rightarrow> (string, string list) result" where
  "getAddrInfo os host port e =
     (let numericHost = os_isNumericHost os host;
          ask = (\<lambda>addrConfig. os_getaddrinfo os \<lparr>ai_numericHost = numericHost, ai_addrConfig = addrConfig\<rparr> host (showInt port) e);
          found = (if numericHost then ask False
                   else (case ask True of Inl _ \<Rightarrow> ask False | Inr addresses \<Rightarrow> Inr addresses))
      in (case found of Inl n \<Rightarrow> Inl (os_gai_strerror os n) | Inr addresses \<Rightarrow> Inr addresses))"

definition cancelled :: "'e os_api \<Rightarrow> int \<times> int \<Rightarrow> 'e \<Rightarrow> bool" where
  "cancelled os deadline e \<longleftrightarrow> os_requested os e \<or> os_system os e - fst deadline > 1000 * snd deadline"

text \<open>\<open>resolveCancellable\<close>: the thread that resolves is looked after every millisecond.\<close>

partial_function (option) resolveWait ::
  "'e os_api \<Rightarrow> int \<times> int \<Rightarrow> string \<Rightarrow> int \<Rightarrow> 'e \<Rightarrow> ((string, string list) result \<times> 'e) option" where
  "resolveWait os deadline host port e =
     (case os_lookupDone os e of
        Some e0 \<Rightarrow>
          Some (if cancelled os deadline e then Inl ''cancellation requested'' else getAddrInfo os host port e0, e)
      | None \<Rightarrow>
          (let e1 = os_sleep os 1 e
           in if cancelled os deadline e1 then Some (Inl ''cancellation requested'', e1)
              else resolveWait os deadline host port e1))"

definition resolve ::
  "'e os_api \<Rightarrow> int \<times> int \<Rightarrow> string \<Rightarrow> int \<Rightarrow> 'e \<Rightarrow> ((string, string list) result \<times> 'e) option" where
  "resolve os deadline host port e = resolveWait os deadline host port (os_startLookup os e)"

section \<open>Connecting\<close>

definition configureSocket :: "'e os_api \<Rightarrow> int \<Rightarrow> 'e \<Rightarrow> 'e" where
  "configureSocket os fd e = snd (os_nonblock os fd (os_nodelay os fd e))"

text \<open>The loop that waits until the socket is connected, every 10 ms.\<close>

partial_function (option) connectWait ::
  "'e os_api \<Rightarrow> int \<times> int \<Rightarrow> int \<Rightarrow> 'e \<Rightarrow> ((int \<times> string) \<times> 'e) option" where
  "connectWait os deadline fd e =
     (if cancelled os deadline e then Some ((- 1, ''Cancelled''), os_close os fd e)
      else
        (case socketPoll os False 10 fd None e of
           None \<Rightarrow> None
         | Some (r, e1) \<Rightarrow>
             if r = PollTimeout then connectWait os deadline fd e1
             else if r = PollReadyForWrite then Some ((fd, ''no error''), e1)
             else (let e2 = os_close os fd e1
                   in Some ((- 1, ''Connect error: '' @ os_strerror os (os_errno os e2)), e2))))"

definition connectToAddress ::
  "'e os_api \<Rightarrow> int \<times> int \<Rightarrow> string \<Rightarrow> 'e \<Rightarrow> ((int \<times> string) \<times> 'e) option" where
  "connectToAddress os deadline address e =
     (let (fd, e1) = os_socket os address e in
      if fd < 0 then Some ((- 1, ''Cannot create a socket''), e1)
      else
        (let (res, e2) = os_connect os fd address (configureSocket os fd e1)
         in if res = - 1 \<and> \<not> isWaitNeeded os e2
            then Some ((- 1, os_strerror os (os_errno os e2)), os_close os fd e2)
            else connectWait os deadline fd e2))"

text \<open>The addresses in turn, until one can be connected to.\<close>

fun connectAny ::
  "'e os_api \<Rightarrow> int \<times> int \<Rightarrow> string \<Rightarrow> string list \<Rightarrow> 'e \<Rightarrow> ((int \<times> string) \<times> 'e) option" where
  "connectAny os deadline err [] e = Some ((- 1, err), e)"
| "connectAny os deadline err (a # as) e =
     (case connectToAddress os deadline a e of
        None \<Rightarrow> None
      | Some ((fd, err'), e1) \<Rightarrow>
          if fd \<noteq> - 1 then Some ((fd, err'), e1) else connectAny os deadline err' as e1)"

definition connectToHost ::
  "'e os_api \<Rightarrow> int \<times> int \<Rightarrow> string \<Rightarrow> int \<Rightarrow> 'e \<Rightarrow> ((int \<times> string) \<times> 'e) option" where
  "connectToHost os deadline host port e =
     (case resolve os deadline host port e of
        None \<Rightarrow> None
      | Some (Inl err, e1) \<Rightarrow> Some ((- 1, err), e1)
      | Some (Inr addresses, e1) \<Rightarrow> connectAny os deadline [] addresses e1)"

text \<open>\<open>openSSLClientHandshake\<close>, which does not wait between its attempts.\<close>

partial_function (option) tlsHandshake ::
  "'e os_api \<Rightarrow> int \<times> int \<Rightarrow> string \<Rightarrow> 'e \<Rightarrow> ((bool \<times> string) \<times> 'e) option" where
  "tlsHandshake os deadline host e =
     (if cancelled os deadline e then Some ((False, ''Cancellation requested''), e)
      else
        (case ssl_connect os e of
           ((ret, reason), e1) \<Rightarrow>
             if ret = 1 then
               Some (case ssl_checkCert os host e1 of
                  (Inl err, e2) \<Rightarrow> ((False, err), e2)
                | (Inr _, e2) \<Rightarrow> ((True, []), e2))
             else if reason = SSL_WANT_READ \<or> reason = SSL_WANT_WRITE then tlsHandshake os deadline host e1
             else Some ((False, ssl_errorText os ret e1), e1)))"

definition tlsConnect ::
  "'e os_api \<Rightarrow> int \<times> int \<Rightarrow> string \<Rightarrow> int \<Rightarrow> 'e sockets \<Rightarrow> ((bool \<times> string) \<times> 'e sockets) option" where
  "tlsConnect os deadline host port k =
     (if \<not> ssl_initialized os (snd k) then Some ((False, ''OPENSSL_init_ssl failure''), k)
      else
        (case connectToHost os deadline host port (snd k) of
           None \<Rightarrow> None
         | Some ((fd, err), e) \<Rightarrow>
             (let s = (fst k)\<lparr>so_sockfd := fd\<rparr> in
              if fd = - 1 then Some ((False, err), (s, e))
              else
                (case ssl_context os e of
                   (Inl err1, e1) \<Rightarrow> Some ((False, err1), (s, e1))
                 | (Inr _, e1) \<Rightarrow>
                     (case ssl_setup os e1 of
                        (Inl err2, e2) \<Rightarrow> Some ((False, err2), (s\<lparr>so_context := True\<rparr>, e2))
                      | (Inr _, e2) \<Rightarrow>
                          (case ssl_new os fd host e2 of
                             (False, e3) \<Rightarrow> Some ((False, ''OpenSSL failed to connect''), (s, e3))
                           | (True, e3) \<Rightarrow>
                               map_option
                                 (\<lambda>((success, err3), e4).
                                    (let k4 = (s\<lparr>so_context := True, so_connection := True\<rparr>, e4)
                                     in ((success, if success then err else err3), if success then k4 else socketClose os k4)))
                                 (tlsHandshake os deadline host e3)))))))"

text \<open>The pipe has nothing to clear before a connection.\<close>

definition socketConnect ::
  "'e os_api \<Rightarrow> int \<times> int \<Rightarrow> string \<Rightarrow> int \<Rightarrow> 'e sockets \<Rightarrow> ((bool \<times> string) \<times> 'e sockets) option" where
  "socketConnect os deadline host port k =
     (if so_tls (fst k) then tlsConnect os deadline host port k
      else map_option (\<lambda>((fd, err), e). ((fd \<noteq> - 1, err), ((fst k)\<lparr>so_sockfd := fd\<rparr>, e)))
             (connectToHost os deadline host port (snd k)))"

section \<open>What the connection works on\<close>

text \<open>The library is built without zlib: its codec always fails.\<close>

definition socket_api :: "'e os_api \<Rightarrow> 'e sockets sock_api" where
  "socket_api os =
     \<lparr>sk_send = socketSend os, sk_recv = socketRecv os, sk_isWaitNeeded = (\<lambda>k. isWaitNeeded os (snd k)),
      sk_close = socketClose os, sk_isReadyToRead = isReadyToRead os, sk_isReadyToWrite = isReadyToWrite os,
      sk_wakeUpFromPoll = socketWakeUp os, sk_isWakeUpFromPollSupported = isWakeUpFromPollSupported,
      sk_now = (\<lambda>k. os_steady os (snd k)), sk_seconds = (\<lambda>k. os_time os (snd k)),
      sk_compress = (\<lambda>m. None), sk_decompress = (\<lambda>m. (False, []))\<rparr>"

definition socket_net :: "'e os_api \<Rightarrow> string \<Rightarrow> 'e sockets net_api" where
  "socket_net os userAgent =
     \<lparr>nt_sock = socket_api os, nt_create = createSocket os, nt_connect = socketConnect os,
      nt_clock = (\<lambda>k. os_system os (snd k)), nt_random = (\<lambda>k. os_random os (snd k)),
      nt_requested = (\<lambda>k. os_requested os (snd k)), nt_userAgent = userAgent\<rparr>"

lemma socket_api_simps [simp]:
  "sk_send (socket_api os) = socketSend os" "sk_recv (socket_api os) = socketRecv os"
  "sk_isWaitNeeded (socket_api os) k = isWaitNeeded os (snd k)" "sk_close (socket_api os) = socketClose os"
  "sk_isReadyToRead (socket_api os) = isReadyToRead os" "sk_isReadyToWrite (socket_api os) = isReadyToWrite os"
  "sk_wakeUpFromPoll (socket_api os) = socketWakeUp os"
  "sk_isWakeUpFromPollSupported (socket_api os) = isWakeUpFromPollSupported"
  "sk_now (socket_api os) k = os_steady os (snd k)" "sk_seconds (socket_api os) k = os_time os (snd k)"
  by (simp_all add: socket_api_def)

lemma socket_net_simps [simp]:
  "nt_sock (socket_net os ua) = socket_api os" "nt_create (socket_net os ua) = createSocket os"
  "nt_connect (socket_net os ua) = socketConnect os" "nt_clock (socket_net os ua) k = os_system os (snd k)"
  "nt_random (socket_net os ua) k = os_random os (snd k)" "nt_requested (socket_net os ua) k = os_requested os (snd k)"
  "nt_userAgent (socket_net os ua) = ua"
  by (simp_all add: socket_net_def)

lemma cancelled_net: "isCancellationRequested (socket_net os ua) d k = cancelled os d (snd k)"
  by (simp add: isCancellationRequested_def cancelled_def)

end
