(* ===== verification/IxWebSocket.thy ===== *)
theory IxWebSocket
  imports IxHandshake
begin

text \<open>
  \<open>ix::WebSocket\<close> (\<open>IXWebSocket.cpp\<close>): configuration, connecting and reconnecting with
  exponential backoff (\<open>IXExponentialBackoff.cpp\<close>), the run loop, and sending. The transport is
  the one of \<open>IxTransport\<close>; connecting is an argument, for which \<open>IxHandshake.connectToUrl\<close> stands
  in the end. Every call of the message callback is recorded in \<open>ws_events\<close>. The traffic tracker,
  a static callback that nothing sets, and thread names are left out.
\<close>

section \<open>Messages\<close>

datatype WebSocketMessageType = MtMessage | MtOpen | MtClose | MtError | MtPing | MtPong | MtFragment

text \<open>\<open>ei_wait_time\<close> is a \<open>double\<close> that is given whole milliseconds only.\<close>

record ws_error_info =
  ei_retries :: uint32
  ei_wait_time :: uint32
  ei_http_status :: int
  ei_reason :: string
  ei_decompressionError :: bool

definition no_error :: ws_error_info where
  "no_error = \<lparr>ei_retries = 0, ei_wait_time = 0, ei_http_status = 0, ei_reason = [], ei_decompressionError = False\<rparr>"

record ws_open_info =
  oi_uri :: string
  oi_headers :: http_headers
  oi_protocol :: string

definition no_open :: ws_open_info where
  "no_open = \<lparr>oi_uri = [], oi_headers = [], oi_protocol = []\<rparr>"

record ws_close_info =
  ci_code :: uint16
  ci_reason :: "byte list"
  ci_remote :: bool

definition no_close :: ws_close_info where
  "no_close = \<lparr>ci_code = 0, ci_reason = [], ci_remote = False\<rparr>"

record ws_message =
  wm_type :: WebSocketMessageType
  wm_str :: "byte list"
  wm_wireSize :: nat
  wm_errorInfo :: ws_error_info
  wm_openInfo :: ws_open_info
  wm_closeInfo :: ws_close_info
  wm_binary :: bool

section \<open>State\<close>

record 'k websocket =
  ws_transport :: "'k transport"
  ws_urlText :: string
  ws_extraHeaders :: http_headers
  ws_perMessageDeflate :: bool
  ws_stop :: bool
  ws_automaticReconnection :: bool
  ws_maxWait :: uint32
  ws_minWait :: uint32
  ws_handshakeTimeoutSecs :: int
  ws_enablePong :: bool
  ws_pingIntervalSecs :: int
  ws_pingMessage :: "byte list"
  ws_pingType :: SendMessageKind
  ws_subProtocols :: "string list"
  ws_events :: "ws_message list"

definition websocket_init :: "'k sock_api \<Rightarrow> 'k \<Rightarrow> 'k websocket" where
  "websocket_init sk k =
     \<lparr>ws_transport = transport_init sk k, ws_urlText = [], ws_extraHeaders = [], ws_perMessageDeflate = False,
      ws_stop = False, ws_automaticReconnection = True, ws_maxWait = 10 * 1000, ws_minWait = 1,
      ws_handshakeTimeoutSecs = 60, ws_enablePong = True, ws_pingIntervalSecs = - 1, ws_pingMessage = [],
      ws_pingType = SendPing, ws_subProtocols = [], ws_events = []\<rparr>"

section \<open>Configuration\<close>

definition setUrl :: "string \<Rightarrow> 'k websocket \<Rightarrow> 'k websocket" where
  "setUrl url w = w\<lparr>ws_urlText := url\<rparr>"

definition setHandshakeTimeout :: "int \<Rightarrow> 'k websocket \<Rightarrow> 'k websocket" where
  "setHandshakeTimeout secs w = w\<lparr>ws_handshakeTimeoutSecs := secs\<rparr>"

definition setExtraHeaders :: "http_headers \<Rightarrow> 'k websocket \<Rightarrow> 'k websocket" where
  "setExtraHeaders headers w = w\<lparr>ws_extraHeaders := headers\<rparr>"

definition wsSetPingMessage :: "byte list \<Rightarrow> SendMessageKind \<Rightarrow> 'k websocket \<Rightarrow> 'k websocket" where
  "wsSetPingMessage message pingType w =
     w\<lparr>ws_pingMessage := message, ws_transport := setPingMessage message pingType (ws_transport w)\<rparr>"

definition setPingInterval :: "int \<Rightarrow> 'k websocket \<Rightarrow> 'k websocket" where
  "setPingInterval secs w = w\<lparr>ws_pingIntervalSecs := secs\<rparr>"

definition enablePong :: "'k websocket \<Rightarrow> 'k websocket" where
  "enablePong w = w\<lparr>ws_enablePong := True\<rparr>"

definition disablePong :: "'k websocket \<Rightarrow> 'k websocket" where
  "disablePong w = w\<lparr>ws_enablePong := False\<rparr>"

definition enablePerMessageDeflate :: "'k websocket \<Rightarrow> 'k websocket" where
  "enablePerMessageDeflate w = w\<lparr>ws_perMessageDeflate := True\<rparr>"

definition disablePerMessageDeflate :: "'k websocket \<Rightarrow> 'k websocket" where
  "disablePerMessageDeflate w = w\<lparr>ws_perMessageDeflate := False\<rparr>"

text \<open>\<open>WebSocketPerMessageDeflateOptions::enabled()\<close> in a build without zlib.\<close>

definition deflateEnabled :: "'k websocket \<Rightarrow> bool" where
  "deflateEnabled w = False"

definition setMaxWait :: "uint32 \<Rightarrow> 'k websocket \<Rightarrow> 'k websocket" where
  "setMaxWait x w = w\<lparr>ws_maxWait := x\<rparr>"

definition setMinWait :: "uint32 \<Rightarrow> 'k websocket \<Rightarrow> 'k websocket" where
  "setMinWait x w = w\<lparr>ws_minWait := x\<rparr>"

definition enableAutomaticReconnection :: "'k websocket \<Rightarrow> 'k websocket" where
  "enableAutomaticReconnection w = w\<lparr>ws_automaticReconnection := True\<rparr>"

definition disableAutomaticReconnection :: "'k websocket \<Rightarrow> 'k websocket" where
  "disableAutomaticReconnection w = w\<lparr>ws_automaticReconnection := False\<rparr>"

definition addSubProtocol :: "string \<Rightarrow> 'k websocket \<Rightarrow> 'k websocket" where
  "addSubProtocol p w = w\<lparr>ws_subProtocols := ws_subProtocols w @ [p]\<rparr>"

definition isConnected :: "'k websocket \<Rightarrow> bool" where
  "isConnected w \<longleftrightarrow> t_readyState (ws_transport w) = OPEN"

definition isClosing :: "'k websocket \<Rightarrow> bool" where
  "isClosing w \<longleftrightarrow> t_readyState (ws_transport w) = CLOSING"

definition bufferedAmount :: "'k websocket \<Rightarrow> nat" where
  "bufferedAmount w = length (t_txbuf (ws_transport w))"

section \<open>The callbacks\<close>

fun kindType :: "MessageKind \<Rightarrow> WebSocketMessageType" where
  "kindType MSG_TEXT = MtMessage"
| "kindType MSG_BINARY = MtMessage"
| "kindType MSG_PING = MtPing"
| "kindType MSG_PONG = MtPong"
| "kindType FRAGMENT = MtFragment"

fun toMessage :: "ix_out \<Rightarrow> ws_message" where
  "toMessage (OutMessage msg wireSize decompressionError kind) =
     \<lparr>wm_type = kindType kind, wm_str = msg, wm_wireSize = wireSize,
      wm_errorInfo = no_error\<lparr>ei_decompressionError := decompressionError\<rparr>, wm_openInfo = no_open,
      wm_closeInfo = no_close, wm_binary = (kind = MSG_BINARY)\<rparr>"
| "toMessage (OutClose closeCode reason wireSize remote) =
     \<lparr>wm_type = MtClose, wm_str = [], wm_wireSize = wireSize, wm_errorInfo = no_error, wm_openInfo = no_open,
      wm_closeInfo = \<lparr>ci_code = closeCode, ci_reason = reason, ci_remote = remote\<rparr>, wm_binary = False\<rparr>"

text \<open>What the transport called back during an operation becomes messages, in that order.\<close>

definition deliver :: "'k transport \<Rightarrow> 'k websocket \<Rightarrow> 'k websocket" where
  "deliver t w = w\<lparr>ws_transport := t\<lparr>t_out := []\<rparr>, ws_events := ws_events w @ map toMessage (t_out t)\<rparr>"

definition openMessage :: "ws_init_result \<Rightarrow> ws_message" where
  "openMessage r =
     \<lparr>wm_type = MtOpen, wm_str = [], wm_wireSize = 0, wm_errorInfo = no_error,
      wm_openInfo = \<lparr>oi_uri = in_uri r, oi_headers = in_headers r, oi_protocol = in_protocol r\<rparr>,
      wm_closeInfo = no_close, wm_binary = False\<rparr>"

definition errorMessage :: "ws_error_info \<Rightarrow> ws_message" where
  "errorMessage e =
     \<lparr>wm_type = MtError, wm_str = [], wm_wireSize = 0, wm_errorInfo = e, wm_openInfo = no_open,
      wm_closeInfo = no_close, wm_binary = False\<rparr>"

definition say :: "ws_message \<Rightarrow> 'k websocket \<Rightarrow> 'k websocket" where
  "say m w = w\<lparr>ws_events := ws_events w @ [m]\<rparr>"

section \<open>Connecting\<close>

type_synonym 'k connector =
  "string \<Rightarrow> http_headers \<Rightarrow> int \<Rightarrow> 'k transport \<Rightarrow> (ws_init_result \<times> 'k transport) option"

text \<open>\<open>std::pow(2, retryCount) * 100\<close> stays below \<open>2 ^ 32\<close> for the counts it is used for.\<close>

definition calculateRetryWaitMilliseconds :: "uint32 \<Rightarrow> uint32 \<Rightarrow> uint32 \<Rightarrow> uint32" where
  "calculateRetryWaitMilliseconds retryCount maxWait minWait =
     (let waitTime = (if retryCount < 26 then of_nat (2 ^ unat retryCount * 100) else 0);
          waitTime = (if waitTime < minWait then minWait else waitTime);
          waitTime = (if waitTime > maxWait then maxWait else waitTime)
      in if retryCount \<ge> 26 then maxWait else waitTime)"

definition subProtocolsHeader :: "'k websocket \<Rightarrow> http_headers" where
  "subProtocolsHeader w =
     (if ws_subProtocols w = [] then ws_extraHeaders w
      else headerSet ''Sec-WebSocket-Protocol'' (join_with '','' (ws_subProtocols w)) (ws_extraHeaders w))"

definition wsConnect ::
  "'k sock_api \<Rightarrow> 'k connector \<Rightarrow> int \<Rightarrow> 'k websocket \<Rightarrow> (ws_init_result \<times> 'k websocket) option" where
  "wsConnect sk conn timeoutSecs w =
     (let t = configure (deflateEnabled w) (ws_enablePong w) (ws_pingIntervalSecs w) (ws_transport w) in
      case conn (ws_urlText w) (subProtocolsHeader w) timeoutSecs t of
        None \<Rightarrow> None
      | Some (status, t1) \<Rightarrow>
          (let w1 = deliver t1 w in
           if \<not> in_success status then Some (status, w1)
           else
             (let w2 = say (openMessage status) w1 in
              Some (status,
                    if ws_pingIntervalSecs w > 0
                    then deliver (snd (sendHeartBeat sk (ws_pingType w) (ws_transport w2))) w2 else w2))))"

text \<open>
  \<open>checkConnection\<close> without the sleep before a further attempt, which changes nothing; it tries
  until it succeeds or is stopped, unless reconnection is off, so that it may not return.
\<close>

partial_function (option) checkConnection ::
  "'k sock_api \<Rightarrow> 'k connector \<Rightarrow> bool \<Rightarrow> uint32 \<Rightarrow> 'k websocket \<Rightarrow> 'k websocket option" where
  "checkConnection sk conn firstConnectionAttempt retries w =
     (if isConnected w \<or> isClosing w \<or> ws_stop w then Some w
      else if \<not> firstConnectionAttempt \<and> \<not> ws_automaticReconnection w then Some w
      else
        (case wsConnect sk conn (ws_handshakeTimeoutSecs w) w of
           None \<Rightarrow> None
         | Some (status, w1) \<Rightarrow>
             if in_success status then checkConnection sk conn False retries w1
             else
               (let auto = ws_automaticReconnection w1;
                    retries1 = (if auto then retries + 1 else retries);
                    e = no_error\<lparr>ei_wait_time := (if auto then calculateRetryWaitMilliseconds retries (ws_maxWait w1) (ws_minWait w1) else 0),
                                 ei_retries := (if auto then retries1 else 0),
                                 ei_reason := in_errorStr status, ei_http_status := in_http_status status\<rparr>
                in checkConnection sk conn False retries1 (say (errorMessage e) w1))))"

section \<open>The run loop\<close>

datatype run_pc = RunCheck bool | RunPoll | RunDone

text \<open>One turn of the loop is two steps: making sure of the connection, then polling and dispatching.\<close>

fun runStep :: "'k sock_api \<Rightarrow> 'k connector \<Rightarrow> run_pc \<times> 'k websocket \<Rightarrow> (run_pc \<times> 'k websocket) option" where
  "runStep sk conn (RunCheck firstConnectionAttempt, w) =
     (case checkConnection sk conn firstConnectionAttempt 0 w of
        None \<Rightarrow> None
      | Some w1 \<Rightarrow>
          Some (if t_readyState (ws_transport w1) = CLOSED then RunDone
                else if ws_stop w1 \<and> \<not> isClosing w1 then RunDone else RunPoll, w1))"
| "runStep sk conn (RunPoll, w) =
     (case poll sk (ws_transport w) of
        None \<Rightarrow> None
      | Some (pollResult, t) \<Rightarrow> Some (RunCheck False, deliver (dispatch sk pollResult t) w))"
| "runStep sk conn (RunDone, w) = None"

fun runSteps :: "'k sock_api \<Rightarrow> 'k connector \<Rightarrow> nat \<Rightarrow> run_pc \<times> 'k websocket \<Rightarrow> (run_pc \<times> 'k websocket) option" where
  "runSteps sk conn 0 s = Some s"
| "runSteps sk conn (Suc n) s =
     (case runStep sk conn s of None \<Rightarrow> None | Some s' \<Rightarrow> runSteps sk conn n s')"

section \<open>Closing and sending\<close>

definition wsClose :: "'k sock_api \<Rightarrow> uint16 \<Rightarrow> byte list \<Rightarrow> 'k websocket \<Rightarrow> 'k websocket" where
  "wsClose sk closeCode reason w = deliver (close sk closeCode reason 0 False (ws_transport w)) w"

definition sendMessage ::
  "'k sock_api \<Rightarrow> byte list \<Rightarrow> SendMessageKind \<Rightarrow> 'k websocket \<Rightarrow> send_info \<times> 'k websocket" where
  "sendMessage sk message kind w =
     (if \<not> isConnected w then (send_failed, w)
      else
        (let (info, t) =
           (case kind of
              SendText \<Rightarrow> sendText sk message (ws_transport w)
            | SendBinary \<Rightarrow> sendBinary sk message (ws_transport w)
            | SendPing \<Rightarrow> sendPing sk message (ws_transport w))
         in (info, deliver t w)))"

definition wsSendUtf8Text :: "'k sock_api \<Rightarrow> byte list \<Rightarrow> 'k websocket \<Rightarrow> send_info \<times> 'k websocket" where
  "wsSendUtf8Text sk msg w = sendMessage sk msg SendText w"

definition wsSendBinary :: "'k sock_api \<Rightarrow> byte list \<Rightarrow> 'k websocket \<Rightarrow> send_info \<times> 'k websocket" where
  "wsSendBinary sk msg w = sendMessage sk msg SendBinary w"

definition wsSendText :: "'k sock_api \<Rightarrow> byte list \<Rightarrow> 'k websocket \<Rightarrow> send_info \<times> 'k websocket" where
  "wsSendText sk msg w =
     (if \<not> validateUtf8 msg
      then (send_failed, wsClose sk kInvalidFramePayloadData kInvalidFramePayloadDataMessage w)
      else sendMessage sk msg SendText w)"

definition wsSend :: "'k sock_api \<Rightarrow> byte list \<Rightarrow> bool \<Rightarrow> 'k websocket \<Rightarrow> send_info \<times> 'k websocket" where
  "wsSend sk msg binary w = (if binary then wsSendBinary sk msg w else wsSendText sk msg w)"

definition wsPing :: "'k sock_api \<Rightarrow> byte list \<Rightarrow> SendMessageKind \<Rightarrow> 'k websocket \<Rightarrow> send_info \<times> 'k websocket" where
  "wsPing sk msg pingType w =
     (if length msg > 125 then (send_failed, w) else sendMessage sk msg pingType w)"

section \<open>What another thread may do meanwhile\<close>

datatype ws_call =
  CallClose uint16 "byte list" | CallSendText "byte list" | CallSendUtf8 "byte list" | CallSendBinary "byte list"
  | CallPing "byte list"

fun wsCall :: "'k sock_api \<Rightarrow> ws_call \<Rightarrow> 'k websocket \<Rightarrow> 'k websocket" where
  "wsCall sk (CallClose closeCode reason) w = wsClose sk closeCode reason w"
| "wsCall sk (CallSendText msg) w = snd (wsSendText sk msg w)"
| "wsCall sk (CallSendUtf8 msg) w = snd (wsSendUtf8Text sk msg w)"
| "wsCall sk (CallSendBinary msg) w = snd (wsSendBinary sk msg w)"
| "wsCall sk (CallPing msg) w = snd (wsPing sk msg SendPing w)"

text \<open>
  A run from its beginning, with calls between its steps. The message callback may call as well, on
  the opening of the connection, before the loop looks at the state: what it closes ends the run there.
\<close>

inductive ws_session ::
  "'k sock_api \<Rightarrow> 'k connector \<Rightarrow> 'k websocket \<Rightarrow> run_pc \<Rightarrow> 'k websocket \<Rightarrow> bool"
  for sk :: "'k sock_api" and conn :: "'k connector" and w0 :: "'k websocket" where
  session_start: "ws_session sk conn w0 (RunCheck True) w0"
| session_step: "ws_session sk conn w0 pc w \<Longrightarrow> runStep sk conn (pc, w) = Some (pc', w') \<Longrightarrow> ws_session sk conn w0 pc' w'"
| session_call: "ws_session sk conn w0 pc w \<Longrightarrow> ws_session sk conn w0 pc (wsCall sk c w)"
| session_closed: "ws_session sk conn w0 RunPoll w \<Longrightarrow> t_readyState (ws_transport w) = CLOSED \<Longrightarrow>
     ws_session sk conn w0 RunDone w"

end
