(* ===== verification/IxSessionProofs.thy ===== *)
theory IxSessionProofs
  imports IxTransportProofs IxWebSocket
begin

text \<open>
  What the operations of a connection can do to what is reported: lemmas that hold of every
  operation, the interface of connecting with its interpretation on \<open>connectToUrl\<close>, and the
  sequence of messages of a whole run.
\<close>

section \<open>Output grows, and no connection is closed unreported\<close>

definition isClose :: "ix_out \<Rightarrow> bool" where
  "isClose e = (case e of OutClose _ _ _ _ \<Rightarrow> True | _ \<Rightarrow> False)"

definition moves :: "'k transport \<Rightarrow> 'k transport \<Rightarrow> bool" where
  "moves t t' \<longleftrightarrow>
     (\<exists>outs. t_out t' = t_out t @ outs \<and>
        (t_readyState t' = CLOSED \<longrightarrow> t_readyState t = CLOSED \<or> (\<exists>e \<in> set outs. isClose e)) \<and>
        (t_readyState t' = OPEN \<longrightarrow> t_readyState t = OPEN))"

lemma moves_same: "t_out t' = t_out t \<Longrightarrow> t_readyState t' = t_readyState t \<Longrightarrow> moves t t'"
  by (simp add: moves_def)

lemma moves_refl [simp]: "moves t t"
  by (simp add: moves_same)

lemma moves_trans: "moves t t1 \<Longrightarrow> moves t1 t2 \<Longrightarrow> moves t t2"
  unfolding moves_def by (metis append_assoc Un_iff set_append)

text \<open>Fields that are neither output nor ready state do not matter.\<close>

lemma moves_upd [simp]:
  "moves t (t'\<lparr>t_rxbuf := b\<rparr>) = moves t t'" "moves t (t'\<lparr>t_rxbufWanted := w\<rparr>) = moves t t'"
  "moves t (t'\<lparr>t_socket := k\<rparr>) = moves t t'" "moves t (t'\<lparr>t_txbuf := b\<rparr>) = moves t t'"
  "moves t (t'\<lparr>t_chunks := c\<rparr>) = moves t t'" "moves t (t'\<lparr>t_fragmentedMessageKind := f\<rparr>) = moves t t'"
  "moves t (t'\<lparr>t_receivedMessageCompressed := x\<rparr>) = moves t t'"
  "moves t (t'\<lparr>t_requestInitCancellation := x\<rparr>) = moves t t'"
  "moves t (t'\<lparr>t_closingTimePoint := i\<rparr>) = moves t t'" "moves t (t'\<lparr>t_pongReceived := x\<rparr>) = moves t t'"
  "moves t (t'\<lparr>t_pingCount := pc\<rparr>) = moves t t'" "moves t (t'\<lparr>t_lastSendPingTimePoint := i\<rparr>) = moves t t'"
  by (simp_all add: moves_def)

lemma moves_upd_from [simp]:
  "moves (t\<lparr>t_rxbuf := b\<rparr>) t' = moves t t'" "moves (t\<lparr>t_rxbufWanted := w\<rparr>) t' = moves t t'"
  "moves (t\<lparr>t_socket := k\<rparr>) t' = moves t t'" "moves (t\<lparr>t_txbuf := b\<rparr>) t' = moves t t'"
  "moves (t\<lparr>t_chunks := c\<rparr>) t' = moves t t'" "moves (t\<lparr>t_fragmentedMessageKind := f\<rparr>) t' = moves t t'"
  "moves (t\<lparr>t_receivedMessageCompressed := x\<rparr>) t' = moves t t'"
  "moves (t\<lparr>t_requestInitCancellation := x\<rparr>) t' = moves t t'"
  "moves (t\<lparr>t_closingTimePoint := i\<rparr>) t' = moves t t'" "moves (t\<lparr>t_pongReceived := x\<rparr>) t' = moves t t'"
  "moves (t\<lparr>t_pingCount := pc\<rparr>) t' = moves t t'"
  by (simp_all add: moves_def)

lemma moves_basic [simp]:
  "moves t (closeSocket sk t') = moves t t'"
  "moves t (wakeUpFromPoll sk c t') = moves t t'"
  "moves t (setCloseInfo code reason n r t') = moves t t'"
  "moves t (appendToSendBuffer header message key t') = moves t t'"
  by (simp_all add: moves_def closeSocket_def wakeUpFromPoll_def setCloseInfo_def appendToSendBuffer_def)

lemma moves_setReadyState: "rs \<noteq> OPEN \<Longrightarrow> moves t (setReadyState sk rs t)"
  by (cases rs) (auto simp: moves_def setReadyState_def isClose_def)

lemma moves_callOut: "moves t (callOut e t)"
  by (simp add: moves_def callOut_def)

lemma moves_setReadyState_after: "moves t t' \<Longrightarrow> rs \<noteq> OPEN \<Longrightarrow> moves t (setReadyState sk rs t')"
  using moves_trans moves_setReadyState by blast

lemma moves_switch: "moves t (closeSocketAndSwitchToClosedState sk code reason n r t)"
  by (simp add: closeSocketAndSwitchToClosedState_def moves_setReadyState_after)

lemma moves_sendOnSocket: "moves t (snd (sendOnSocket sk t))"
proof (induction sk t rule: sendOnSocket.induct)
  case (1 sk t)
  obtain ret k where r: "sk_send sk (t_txbuf t) (t_socket t) = (ret, k)" by fastforce
  show ?case
    using "1.IH" [OF _ r [symmetric]]
    by (subst sendOnSocket.simps) (auto simp: r Let_def moves_setReadyState_after)
qed

lemma moves_sendFragment: "moves t (snd (sendFragment sk type fin m c t))"
proof -
  have "moves t (snd (sendOnSocket sk (appendToSendBuffer h m key t)))" for h key
    by (rule moves_trans [OF _ moves_sendOnSocket]) simp
  then show ?thesis by (simp add: sendFragment_def Let_def)
qed

lemma moves_sendSteps: "moves t (snd (sendSteps sk type c n w t))"
proof (induction n arbitrary: type w t)
  case (Suc n)
  define part where "part = (if n = 0 then w else take kChunkSize w)"
  obtain ok t1 where f: "sendFragment sk type (n = 0) part c t = (ok, t1)" by fastforce
  with moves_sendFragment [of t sk type "n = 0" part c] have "moves t t1" by simp
  with Suc.IH [of t1 CONTINUATION "drop kChunkSize w"] f show ?case
    by (cases ok) (auto simp: Let_def part_def intro: moves_trans)
qed simp

lemma moves_sendData: "moves t (snd (sendData sk type m c t))"
proof (cases rule: sendData_cases [of t sk type m c])
  case (single w ok t1)
  with moves_sendFragment [of t sk type True w c] show ?thesis by simp
next
  case (failed w t1)
  with moves_sendSteps [of t sk type c "length w div kChunkSize" w] show ?thesis by simp
next
  case (several w t1)
  with moves_sendSteps [of t sk type c "length w div kChunkSize" w] show ?thesis by simp
qed simp_all

lemma moves_sendCloseFrame: "moves t (sendCloseFrame sk code reason t)"
  by (simp add: sendCloseFrame_def moves_sendData)

lemma moves_close: "moves t (close sk code reason n r t)"
proof -
  have "moves t (sendCloseFrame sk code reason (setReadyState sk CLOSING t'))" if "moves t t'" for t'
    by (rule moves_trans [OF moves_setReadyState_after [OF that] moves_sendCloseFrame]) simp
  then show ?thesis by (simp add: close_def Let_def)
qed

lemma moves_emitMessage: "moves t (emitMessage sk kind m c t)"
  by (simp add: emitMessage_def invalidPayload_def Let_def moves_callOut moves_close split: prod.split)

lemma moves_handleData: "moves t (handleData sk ws d t)"
proof -
  have s: "moves t (sequenceCheck sk ws t)"
  proof -
    have "moves t (close sk code reason n r t')" if "moves t t'" for code reason n r t'
      using moves_trans [OF that moves_close] .
    then show ?thesis by (simp add: sequenceCheck_def Let_def)
  qed
  have "moves t (emitMessage sk kind m c t')" if "moves t t'" for kind m c t'
    using moves_trans [OF that moves_emitMessage] .
  then show ?thesis using s by (simp add: handleData_def Let_def)
qed

lemma moves_handleClose: "moves t (handleClose sk d t)"
proof -
  have after: "moves t (closeSocketAndSwitchToClosedState sk code reason n r t')" if "moves t t'" for code reason n r t'
    using moves_trans [OF that moves_switch] .
  have "moves t (sendCloseFrame sk code reason (setReadyState sk CLOSING t))" for code reason
    by (rule moves_trans [OF moves_setReadyState moves_sendCloseFrame]) simp
  then show ?thesis by (simp add: handleClose_def Let_def after split: prod.split)
qed

lemma moves_handleFrame: "moves t (snd (handleFrame sk ws d t))"
proof -
  have e: "moves t (emitMessage sk kind m c t')" if "moves t t'" for kind m c t'
    using moves_trans [OF that moves_emitMessage] .
  have "moves t (snd (handlePing sk d t))"
    by (simp add: handlePing_def moves_close e moves_sendData)
  then show ?thesis
    by (simp add: handleFrame_def moves_handleData moves_handleClose moves_close e)
qed

lemma moves_dispatchOne: "moves t (snd (dispatchOne sk t))"
proof -
  have u: "moves (unmaskReceiveBuffer ws (t\<lparr>t_rxbufWanted := 0\<rparr>)) t' = moves t t'" for ws t'
    by (simp add: unmaskReceiveBuffer_def)
  have "moves t (snd (handleFrame sk ws d (unmaskReceiveBuffer ws (t\<lparr>t_rxbufWanted := 0\<rparr>))))" for ws d
    using moves_handleFrame [of "unmaskReceiveBuffer ws (t\<lparr>t_rxbufWanted := 0\<rparr>)" sk ws d] by (simp add: u)
  moreover have "moves t (close sk code reason n r (t\<lparr>t_rxbufWanted := 0\<rparr>))" for code reason n r
    using moves_close [of "t\<lparr>t_rxbufWanted := 0\<rparr>"] by simp
  ultimately show ?thesis
    by (auto simp: dispatchOne_def Let_def moves_close split: option.split prod.split)
       (metis snd_conv)+
qed

lemma moves_dispatchFrames: "moves t (snd (dispatchFrames sk n t))"
proof (induction n arbitrary: t)
  case (Suc n)
  obtain st t1 where one: "dispatchOne sk t = (st, t1)" by fastforce
  with moves_dispatchOne [of t sk] have "moves t t1" by simp
  with Suc.IH [of t1] one show ?case by (cases st) (auto intro: moves_trans)
qed simp

lemma moves_dispatch: "moves t (dispatch sk r t)"
proof -
  obtain st t1 where f: "dispatchFrames sk (length (t_rxbuf t)) t = (st, t1)" by fastforce
  with moves_dispatchFrames [of t sk "length (t_rxbuf t)"] have t1: "moves t t1" by simp
  have "moves t1 (closeSocketAndSwitchToClosedState sk kAbnormalCloseCode kAbnormalCloseMessage 0 False (t1\<lparr>t_rxbuf := []\<rparr>))"
    using moves_switch [of "t1\<lparr>t_rxbuf := []\<rparr>"] by simp
  then have "moves t1 (afterFrames sk r t1)"
    by (simp add: afterFrames_def Let_def moves_setReadyState_after)
  with t1 f show ?thesis by (cases st) (auto simp: dispatch_def intro: moves_trans)
qed

section \<open>Polling\<close>

lemma moves_flushLoop:
  assumes "flushLoop sk start t = Some r"
  shows "moves t (snd r)"
proof (rule flushLoop.raw_induct [of "\<lambda>sk start t r. moves t (snd r)", OF _ assms], goal_cases)
  case (1 f sk start t r)
  note IH = 1(1) and body = 1(2)
  show ?case
  proof (cases "t_txbuf t = [] \<or> t_requestInitCancellation t")
    case True
    with body show ?thesis by auto
  next
    case False
    with body obtain result k where w: "sk_isReadyToWrite sk 10 (t_socket t) = Some (result, k)"
      by (auto split: option.splits)
    define t1 where "t1 = t\<lparr>t_socket := k\<rparr>"
    obtain sent t2 where s: "sendOnSocket sk t1 = (sent, t2)" by fastforce
    have t1: "moves t t1" by (simp add: t1_def)
    with moves_sendOnSocket [of t1 sk] s have t2: "moves t t2" using moves_trans by force
    note body1 = body [unfolded w, simplified False if_False Let_def option.case prod.case, folded t1_def]
    consider (failed) "result = PollError" | (writable) "result = PollReadyForWrite"
      | (waiting) "result \<noteq> PollError" "result \<noteq> PollReadyForWrite" by blast
    then show ?thesis
    proof cases
      case failed
      with body1 t1 show ?thesis by (auto simp: moves_setReadyState_after)
    next
      case writable
      show ?thesis
      proof (cases sent)
        case True
        with writable body1 s have "f sk start t2 = Some r" by simp
        with IH t2 show ?thesis using moves_trans by blast
      qed (use writable body1 s t2 in auto)
    next
      case waiting
      have "moves t (closeSocketAndSwitchToClosedState sk c m n x t1)" for c m n x
        using moves_trans [OF t1 moves_switch] .
      moreover have "moves t (snd r)" if "f sk start t1 = Some r" using moves_trans [OF t1 IH [OF that]] .
      ultimately show ?thesis using waiting body1 by (auto split: if_splits)
    qed
  qed
qed

lemma moves_receive:
  assumes "receiveFromSocket sk t = Some r"
  shows "moves t (snd r)"
proof (rule receiveFromSocket.raw_induct [of "\<lambda>sk t r. moves t (snd r)", OF _ assms], goal_cases)
  case (1 f sk t r)
  note IH = 1(1) and body = 1(2)
  show ?case
  proof (cases "sk_recv sk kChunkSize (t_socket t)")
    case (Pair x k)
    have more: "moves t (snd r)" if "f sk (t\<lparr>t_socket := k, t_rxbuf := b\<rparr>) = Some r" for b
      using IH [OF that] by simp
    from body Pair more show ?thesis
      by (cases x) (auto simp: Let_def split: if_splits)
  qed
qed

lemma moves_heartBeat: "moves t (snd (sendHeartBeat sk kind t))"
proof -
  have "moves t (snd (sendData sk ty m c t'))" if "moves t t'" for ty m c t'
    using moves_trans [OF that moves_sendData] .
  moreover have "moves t (snd (stampPing sk x))" if "moves t (snd x)" for x
    using that by (cases x) (simp add: stampPing_def)
  ultimately show ?thesis
    by (cases kind) (simp_all add: sendHeartBeat_def Let_def sendPing_def sendBinary_def sendText_def)
qed

lemma moves_closingStep: "moves t (closingStep sk t)"
  by (simp add: closingStep_def moves_setReadyState_after)

lemma moves_poll:
  assumes "poll sk t = Some (r, t')"
  shows "moves t t'"
proof -
  define t1 where "t1 = heartBeatStep sk t"
  from assms obtain result k where res: "sk_isReadyToRead sk (pollTimeout sk t1) (t_socket t1) = Some (result, k)"
    by (auto simp: poll_def Let_def t1_def split: option.splits)
  define t2 where "t2 = t1\<lparr>t_socket := k\<rparr>"
  have "moves t t1" by (simp add: t1_def heartBeatStep_def moves_close moves_heartBeat)
  then have t2: "moves t t2" by (simp add: t2_def)
  have closing: "moves t (closingStep sk t3)" if "moves t t3" for t3
    using moves_trans [OF that moves_closingStep] .
  have fl: "moves t (snd x)" if "flushSendBuffer sk t2 = Some x" for x
    using moves_trans [OF t2 moves_flushLoop] that by (simp add: flushSendBuffer_def)
  have rc: "moves t (snd x)" if "receiveFromSocket sk t2 = Some x" for x
    using moves_trans [OF t2 moves_receive] that by blast
  show ?thesis
  proof (cases result)
    case PollSendRequest
    with assms res fl closing show ?thesis
      by (fastforce simp: poll_def Let_def t1_def t2_def split: option.splits bool.splits)
  next
    case PollReadyForRead
    with assms res rc closing show ?thesis
      by (fastforce simp: poll_def Let_def t1_def t2_def split: option.splits bool.splits)
  qed (use assms res t2 closing in \<open>auto simp: poll_def Let_def t1_def t2_def\<close>)
qed

section \<open>The interface of connecting\<close>

text \<open>
  What the run loop relies on: a success leaves the connection open and a failure as it was, and
  neither calls back.
\<close>

locale connecting =
  fixes conn :: "'k connector"
  assumes conn_success: "conn url headers secs t = Some (r, t') \<Longrightarrow> in_success r \<Longrightarrow>
            t_readyState t' = OPEN \<and> t_out t' = t_out t"
    and conn_failure: "conn url headers secs t = Some (r, t') \<Longrightarrow> \<not> in_success r \<Longrightarrow>
            t_readyState t' = t_readyState t \<and> t_out t' = t_out t"
begin

lemma wsConnect_success:
  assumes "wsConnect sk conn secs w = Some (r, w')" and "in_success r" and "t_out (ws_transport w) = []"
    and "ws_pingIntervalSecs w \<le> 0"
  shows "isConnected w'" and "ws_events w' = ws_events w @ [openMessage r]" and "t_out (ws_transport w') = []"
    and "ws_stop w' = ws_stop w" and "ws_automaticReconnection w' = ws_automaticReconnection w"
  using assms
  by (auto simp: wsConnect_def Let_def deliver_def say_def isConnected_def configure_def split: option.splits if_splits
      dest!: conn_success)

lemma wsConnect_failure:
  assumes "wsConnect sk conn secs w = Some (r, w')" and "\<not> in_success r" and "t_out (ws_transport w) = []"
  shows "t_readyState (ws_transport w') = t_readyState (ws_transport w)" and "ws_events w' = ws_events w"
    and "t_out (ws_transport w') = []" and "ws_stop w' = ws_stop w"
    and "ws_automaticReconnection w' = ws_automaticReconnection w"
  using assms
  by (auto simp: wsConnect_def Let_def deliver_def configure_def split: option.splits if_splits
      dest!: conn_failure)

end

text \<open>\<open>connectToUrl\<close> provides it.\<close>

lemma clientHandshake_keeps:
  "clientHandshake nt url hs p secs t = Some (r, t') \<Longrightarrow> t_readyState t' = t_readyState t \<and> t_out t' = t_out t"
  by (auto simp: clientHandshake_def Let_def split: prod.splits option.splits if_splits)

lemma connectLoop_keeps:
  "connectLoop nt url hs secs n u prev t = Some (r, t') \<Longrightarrow> \<not> in_success prev \<Longrightarrow>
     t_out t' = t_out t \<and> t_readyState t' = (if in_success r then OPEN else t_readyState t)"
proof (induction nt url hs secs n u prev t arbitrary: r t' rule: connectLoop.induct)
  case (2 nt url hs secs n u prev t)
  show ?case
  proof (cases "parse u")
    case None
    with "2.prems" show ?thesis by (auto simp: initResult_def)
  next
    case (Some p)
    note p = this
    show ?thesis
    proof (cases "fst (nt_create nt (up_protocol p = ''wss'') (t_socket t))")
      case (Inl e)
      with p "2.prems" show ?thesis by (cases "nt_create nt (up_protocol p = ''wss'') (t_socket t)") (auto simp: initResult_def)
    next
      case (Inr made)
      then obtain k where k: "nt_create nt (up_protocol p = ''wss'') (t_socket t) = (Inr made, k)"
        by (cases "nt_create nt (up_protocol p = ''wss'') (t_socket t)") auto
      show ?thesis
      proof (cases "clientHandshake nt u hs p secs (t\<lparr>t_socket := k\<rparr>)")
        case None
        with p k "2.prems" show ?thesis by simp
      next
        case (Some rt)
        obtain r1 t1 where rt: "rt = (r1, t1)" by fastforce
        with Some clientHandshake_keeps have t1: "t_readyState t1 = t_readyState t" "t_out t1 = t_out t" by fastforce+
        show ?thesis
        proof (cases "isRedirect r1")
          case False
          with p k Some rt "2.prems" t1 show ?thesis by (auto simp: setReadyState_def)
        next
          case True
          have fail: "\<not> in_success r1"
            using True Some unfolding rt clientHandshake_def
            by (auto simp: Let_def isRedirect_def initResult_def exchange_def checkAnswer_def tooOld_def
                split: prod.splits option.splits if_splits bool.splits)
          show ?thesis
          proof (cases "headerFind ''Location'' (in_headers r1)")
            case None
            with True p k Some rt "2.prems" t1 fail show ?thesis by auto
          next
            case (Some loc)
            have hs: "clientHandshake nt u hs p secs (t\<lparr>t_socket := k\<rparr>) = Some (r1, t1)"
              using \<open>clientHandshake nt u hs p secs (t\<lparr>t_socket := k\<rparr>) = Some rt\<close> rt by simp
            have "connectLoop nt url hs secs n loc r1 t1 = Some (r, t')"
              using True Some p k hs "2.prems"(1) by simp
            from "2.IH" [OF p k [symmetric] refl hs refl True Some this fail] t1 show ?thesis by simp
          qed
        qed
      qed
    qed
  qed
qed auto

interpretation url: connecting "connectToUrl nt" for nt
proof
  fix u headers secs t r t'
  assume "connectToUrl nt u headers secs t = Some (r, t')"
  then have "t_out t' = t_out t \<and> t_readyState t' = (if in_success r then OPEN else t_readyState t)"
    unfolding connectToUrl_def by (rule connectLoop_keeps) (simp add: initResult_def)
  then show "in_success r \<Longrightarrow> t_readyState t' = OPEN \<and> t_out t' = t_out t"
    "\<not> in_success r \<Longrightarrow> t_readyState t' = t_readyState t \<and> t_out t' = t_out t" by simp_all
qed

section \<open>The messages of a run\<close>

lemma type_toMessage [simp]:
  "wm_type (toMessage e) \<noteq> MtOpen" "wm_type (toMessage e) \<noteq> MtError"
  "MtOpen \<noteq> wm_type (toMessage e)" "MtError \<noteq> wm_type (toMessage e)"
  "wm_type (toMessage e) = MtClose \<longleftrightarrow> isClose e"
proof -
  have k: "kindType kind \<noteq> MtOpen \<and> kindType kind \<noteq> MtError \<and> kindType kind \<noteq> MtClose" for kind
    by (cases kind) simp_all
  show "wm_type (toMessage e) \<noteq> MtOpen" "wm_type (toMessage e) \<noteq> MtError"
    "MtOpen \<noteq> wm_type (toMessage e)" "MtError \<noteq> wm_type (toMessage e)"
    "wm_type (toMessage e) = MtClose \<longleftrightarrow> isClose e"
    using k by (cases e; simp add: isClose_def; metis)+
qed

definition ready_to_run :: "'k websocket \<Rightarrow> bool" where
  "ready_to_run w \<longleftrightarrow>
     t_readyState (ws_transport w) = CLOSED \<and> t_out (ws_transport w) = [] \<and> ws_events w = [] \<and>
     \<not> ws_stop w \<and> \<not> ws_automaticReconnection w \<and> ws_pingIntervalSecs w \<le> 0"

text \<open>A run that opened: one Open first, then neither Open nor Error, and a Close if it is closed.\<close>

definition opened :: "'k websocket \<Rightarrow> bool" where
  "opened w \<longleftrightarrow>
     (\<exists>m ms. ws_events w = m # ms \<and> wm_type m = MtOpen \<and> (\<forall>x \<in> set ms. wm_type x \<noteq> MtOpen \<and> wm_type x \<noteq> MtError) \<and>
        (t_readyState (ws_transport w) = CLOSED \<longrightarrow> (\<exists>x \<in> set ms. wm_type x = MtClose)))"

definition refused :: "'k websocket \<Rightarrow> bool" where
  "refused w \<longleftrightarrow> (\<exists>m. ws_events w = [m] \<and> wm_type m = MtError) \<and> t_readyState (ws_transport w) = CLOSED"

definition session_inv :: "run_pc \<Rightarrow> 'k websocket \<Rightarrow> bool" where
  "session_inv pc w \<longleftrightarrow>
     t_out (ws_transport w) = [] \<and> \<not> ws_stop w \<and> \<not> ws_automaticReconnection w \<and> ws_pingIntervalSecs w \<le> 0 \<and>
     (if pc = RunCheck True then t_readyState (ws_transport w) = CLOSED \<and> ws_events w = []
      else if pc = RunDone then t_readyState (ws_transport w) = CLOSED \<and> (refused w \<or> opened w)
      else opened w)"

lemma opened_deliver:
  assumes "opened w" and "moves (ws_transport w) t" and "t_out (ws_transport w) = []"
  shows "opened (deliver t w)"
proof -
  from assms(2,3) obtain outs where outs: "t_out t = outs"
    "t_readyState t = CLOSED \<longrightarrow> t_readyState (ws_transport w) = CLOSED \<or> (\<exists>e \<in> set outs. isClose e)"
    by (auto simp: moves_def)
  from assms(1) obtain m ms where "ws_events w = m # ms" "wm_type m = MtOpen"
    "\<forall>x \<in> set ms. wm_type x \<noteq> MtOpen \<and> wm_type x \<noteq> MtError"
    "t_readyState (ws_transport w) = CLOSED \<longrightarrow> (\<exists>x \<in> set ms. wm_type x = MtClose)" by (auto simp: opened_def)
  moreover have "\<exists>x \<in> set (map toMessage outs). wm_type x = MtClose" if "\<exists>e \<in> set outs. isClose e"
    using that by simp
  ultimately show ?thesis
    using outs unfolding opened_def
    by (intro exI [of _ m] exI [of _ "ms @ map toMessage outs"]) (fastforce simp: deliver_def)
qed

lemma deliver_keeps [simp]:
  "t_out (ws_transport (deliver t w)) = []" "ws_stop (deliver t w) = ws_stop w"
  "ws_automaticReconnection (deliver t w) = ws_automaticReconnection w"
  "ws_pingIntervalSecs (deliver t w) = ws_pingIntervalSecs w"
  "t_readyState (ws_transport (deliver t w)) = t_readyState t"
  by (simp_all add: deliver_def)

text \<open>A call of another thread: the transport moves, and on a closed connection nothing happens.\<close>

lemma wsCall_deliver:
  obtains t where "wsCall sk c w = deliver t w" "moves (ws_transport w) t"
  | "wsCall sk c w = w"
proof -
  have stamp: "moves t (snd (stampPing sk x))" if "moves t (snd x)" for t x
    using that by (cases x) (simp add: stampPing_def)
  have send: "snd (sendMessage sk m kind w) = w \<or>
      (\<exists>t. snd (sendMessage sk m kind w) = deliver t w \<and> moves (ws_transport w) t)" for m kind
  proof (cases "isConnected w")
    case True
    define r where "r = (case kind of SendText \<Rightarrow> sendText sk m (ws_transport w)
      | SendBinary \<Rightarrow> sendBinary sk m (ws_transport w) | SendPing \<Rightarrow> sendPing sk m (ws_transport w))"
    have "moves (ws_transport w) (snd r)"
      by (cases kind) (simp_all add: r_def sendText_def sendBinary_def sendPing_def moves_sendData stamp)
    moreover have "snd (sendMessage sk m kind w) = deliver (snd r) w"
      using True by (simp add: sendMessage_def r_def [symmetric] split: prod.split)
    ultimately show ?thesis by blast
  qed (simp add: sendMessage_def)
  have "wsCall sk c w = w \<or> (\<exists>t. wsCall sk c w = deliver t w \<and> moves (ws_transport w) t)"
  proof -
    have "\<exists>t. wsClose sk code reason w = deliver t w \<and> moves (ws_transport w) t" for code reason
      unfolding wsClose_def using moves_close by blast
    with send show ?thesis
      by (cases c) (auto simp: wsSendText_def wsSendUtf8Text_def wsSendBinary_def wsPing_def)
  qed
  with that show ?thesis by blast
qed

lemma wsCall_closed:
  assumes "t_readyState (ws_transport w) = CLOSED" and "t_out (ws_transport w) = []"
  shows "ws_events (wsCall sk c w) = ws_events w" and "t_readyState (ws_transport (wsCall sk c w)) = CLOSED"
proof -
  have "sendMessage sk m kind w = (send_failed, w)" for m kind
    using assms by (simp add: sendMessage_def isConnected_def)
  with assms have "ws_events (wsCall sk c w) = ws_events w \<and> t_readyState (ws_transport (wsCall sk c w)) = CLOSED"
    by (cases c) (auto simp: wsClose_def close_def Let_def deliver_def wakeUpFromPoll_def wsSendText_def
        wsSendUtf8Text_def wsSendBinary_def wsPing_def)
  then show "ws_events (wsCall sk c w) = ws_events w" "t_readyState (ws_transport (wsCall sk c w)) = CLOSED" by simp_all
qed

lemma wsCall_keeps:
  "t_out (ws_transport w) = [] \<Longrightarrow> t_out (ws_transport (wsCall sk c w)) = []"
  "ws_stop (wsCall sk c w) = ws_stop w"
  "ws_automaticReconnection (wsCall sk c w) = ws_automaticReconnection w"
  "ws_pingIntervalSecs (wsCall sk c w) = ws_pingIntervalSecs w"
  by (rule wsCall_deliver [of sk c w]; simp)+

lemma session_inv_call:
  assumes "session_inv pc w"
  shows "session_inv pc (wsCall sk c w)"
proof (cases "t_readyState (ws_transport w) = CLOSED")
  case True
  with assms have "t_out (ws_transport w) = []" by (simp add: session_inv_def)
  with wsCall_closed [OF True] have "ws_events (wsCall sk c w) = ws_events w"
    "t_readyState (ws_transport (wsCall sk c w)) = CLOSED" by simp_all
  moreover from this True have "opened (wsCall sk c w) = opened w" "refused (wsCall sk c w) = refused w"
    by (simp_all add: opened_def refused_def)
  moreover note wsCall_keeps(1) [of w sk c] wsCall_keeps(2-4) [of sk c w]
  ultimately show ?thesis
    using assms True by (simp add: session_inv_def)
next
  case False
  show ?thesis
  proof (rule wsCall_deliver [of sk c w])
    fix t assume t: "wsCall sk c w = deliver t w" "moves (ws_transport w) t"
    from assms False have "opened w" "t_out (ws_transport w) = []" "pc \<noteq> RunCheck True" "pc \<noteq> RunDone"
      by (auto simp: session_inv_def split: if_splits)
    with opened_deliver t assms show ?thesis by (simp add: session_inv_def)
  qed (use assms in simp)
qed

lemma session_inv_closed:
  "session_inv RunPoll w \<Longrightarrow> t_readyState (ws_transport w) = CLOSED \<Longrightarrow> session_inv RunDone w"
  by (simp add: session_inv_def)

text \<open>What is told of a first attempt that failed.\<close>

definition attemptError :: "ws_init_result \<Rightarrow> ws_message" where
  "attemptError r =
     errorMessage (no_error\<lparr>ei_wait_time := 0, ei_retries := 0, ei_reason := in_errorStr r,
                            ei_http_status := in_http_status r\<rparr>)"

context connecting
begin

text \<open>With reconnection off, \<open>checkConnection\<close> makes one attempt at the beginning and none later.\<close>

lemma attempt_succeeds:
  assumes "session_inv (RunCheck True) w" and "wsConnect sk conn (ws_handshakeTimeoutSecs w) w = Some (r, w1)"
    and "in_success r"
  shows "checkConnection sk conn True 0 w = Some w1" and "runStep sk conn (RunCheck True, w) = Some (RunPoll, w1)"
    and "isConnected w1" and "ws_events w1 = [openMessage r]"
proof -
  from assms(1) have w: "t_readyState (ws_transport w) = CLOSED" "t_out (ws_transport w) = []" "ws_events w = []"
    "\<not> ws_stop w" "ws_pingIntervalSecs w \<le> 0" by (simp_all add: session_inv_def)
  note s = wsConnect_success [OF assms(2,3) w(2,5)]
  show "isConnected w1" "ws_events w1 = [openMessage r]" using s w by simp_all
  have "checkConnection sk conn True 0 w = checkConnection sk conn False 0 w1"
    using w assms(2,3) by (subst checkConnection.simps) (simp add: isConnected_def isClosing_def)
  also have "\<dots> = Some w1" using s(1) by (subst checkConnection.simps) simp
  finally show c: "checkConnection sk conn True 0 w = Some w1" .
  show "runStep sk conn (RunCheck True, w) = Some (RunPoll, w1)"
    using c s(1,4) w(4) by (simp add: isConnected_def)
qed

lemma attempt_fails:
  assumes "session_inv (RunCheck True) w" and "wsConnect sk conn (ws_handshakeTimeoutSecs w) w = Some (r, w1)"
    and "\<not> in_success r"
  shows "checkConnection sk conn True 0 w = Some (say (attemptError r) w1)"
    and "runStep sk conn (RunCheck True, w) = Some (RunDone, say (attemptError r) w1)"
    and "ws_events (say (attemptError r) w1) = [attemptError r]"
proof -
  from assms(1) have w: "t_readyState (ws_transport w) = CLOSED" "t_out (ws_transport w) = []" "ws_events w = []"
    "\<not> ws_stop w" "\<not> ws_automaticReconnection w" by (simp_all add: session_inv_def)
  note f = wsConnect_failure [OF assms(2,3) w(2)]
  show "ws_events (say (attemptError r) w1) = [attemptError r]" using f w by (simp add: say_def)
  have "checkConnection sk conn True 0 w = checkConnection sk conn False 0 (say (attemptError r) w1)"
    using w assms(2,3) f by (subst checkConnection.simps) (simp add: isConnected_def isClosing_def Let_def attemptError_def)
  also have "\<dots> = Some (say (attemptError r) w1)"
    using f w by (subst checkConnection.simps) (simp add: isConnected_def isClosing_def say_def)
  finally show c: "checkConnection sk conn True 0 w = Some (say (attemptError r) w1)" .
  show "runStep sk conn (RunCheck True, w) = Some (RunDone, say (attemptError r) w1)"
    using c f w by (simp add: say_def)
qed

lemma first_attempt:
  assumes "session_inv (RunCheck True) w" and "checkConnection sk conn True 0 w = Some w'"
  shows "t_out (ws_transport w') = [] \<and> \<not> ws_stop w' \<and> \<not> ws_automaticReconnection w' \<and>
         ws_pingIntervalSecs w' = ws_pingIntervalSecs w \<and>
         (refused w' \<or> (opened w' \<and> t_readyState (ws_transport w') = OPEN))"
proof -
  from assms(1) have w: "t_readyState (ws_transport w) = CLOSED" "t_out (ws_transport w) = []" "\<not> ws_stop w"
    "\<not> ws_automaticReconnection w" "ws_pingIntervalSecs w \<le> 0" by (simp_all add: session_inv_def)
  from assms(2) w obtain r w1 where c: "wsConnect sk conn (ws_handshakeTimeoutSecs w) w = Some (r, w1)"
    by (subst (asm) checkConnection.simps) (auto simp: isConnected_def isClosing_def split: option.splits)
  have ping: "ws_pingIntervalSecs w1 = ws_pingIntervalSecs w"
    using c w(5) by (auto simp: wsConnect_def Let_def say_def deliver_def split: option.splits if_splits)
  show ?thesis
  proof (cases "in_success r")
    case True
    note a = attempt_succeeds [OF assms(1) c True] and s = wsConnect_success [OF c True w(2,5)]
    from a(1) assms(2) have "w' = w1" by simp
    with a(3,4) s w ping show ?thesis by (auto simp: opened_def isConnected_def openMessage_def)
  next
    case False
    note a = attempt_fails [OF assms(1) c False] and f = wsConnect_failure [OF c False w(2)]
    from a(1) assms(2) have "w' = say (attemptError r) w1" by simp
    with a(3) f w ping show ?thesis by (simp add: refused_def say_def errorMessage_def attemptError_def)
  qed
qed

lemma later_attempt:
  assumes "session_inv (RunCheck False) w"
  shows "checkConnection sk conn False 0 w = Some w"
  using assms by (subst checkConnection.simps) (simp add: session_inv_def)

lemma session_inv_step:
  assumes "session_inv pc w" and "runStep sk conn (pc, w) = Some (pc', w')"
  shows "session_inv pc' w'"
proof (cases pc)
  case (RunCheck first)
  show ?thesis
  proof (cases first)
    case True
    with assms RunCheck have c: "checkConnection sk conn True 0 w = Some w'"
      and pc': "pc' = (if t_readyState (ws_transport w') = CLOSED then RunDone
                       else if ws_stop w' \<and> \<not> isClosing w' then RunDone else RunPoll)"
      by (auto split: option.splits)
    have inv: "session_inv (RunCheck True) w" using assms(1) RunCheck True by simp
    from first_attempt [OF inv c] pc' inv show ?thesis
      by (auto simp: session_inv_def refused_def)
  next
    case False
    with assms RunCheck later_attempt [of w sk] have "w' = w"
      "pc' = (if t_readyState (ws_transport w) = CLOSED then RunDone else RunPoll)"
      by (auto simp: session_inv_def)
    with assms(1) RunCheck False show ?thesis by (auto simp: session_inv_def)
  qed
next
  case RunPoll
  with assms(2) obtain r t where p: "poll sk (ws_transport w) = Some (r, t)"
    and eq: "pc' = RunCheck False" "w' = deliver (dispatch sk r t) w" by (auto split: option.splits)
  have "moves (ws_transport w) (dispatch sk r t)"
    using moves_trans [OF moves_poll [OF p] moves_dispatch] .
  with opened_deliver [of w "dispatch sk r t"] assms(1) RunPoll eq show ?thesis
    by (simp add: session_inv_def)
qed (use assms in simp)

lemma session_inv_reachable:
  assumes "ws_session sk conn w0 pc w" and "ready_to_run w0"
  shows "session_inv pc w"
  using assms
proof (induction rule: ws_session.induct)
  case session_start
  then show ?case by (simp add: session_inv_def ready_to_run_def)
qed (auto intro: session_inv_step session_inv_call session_inv_closed)

lemma session_log:
  assumes "ws_session sk conn w0 pc w" and "ready_to_run w0"
  shows "ws_events w = [] \<and> pc = RunCheck True \<or>
         map wm_type (ws_events w) = [MtError] \<and> pc = RunDone \<or>
         (\<exists>ts. map wm_type (ws_events w) = MtOpen # ts \<and> MtOpen \<notin> set ts \<and> MtError \<notin> set ts \<and>
            (pc = RunDone \<longrightarrow> MtClose \<in> set ts))"
proof -
  have inv: "session_inv pc w" by (rule session_inv_reachable [OF assms])
  have o: "\<exists>ts. map wm_type (ws_events w) = MtOpen # ts \<and> MtOpen \<notin> set ts \<and> MtError \<notin> set ts \<and>
      (t_readyState (ws_transport w) = CLOSED \<longrightarrow> MtClose \<in> set ts)" if "opened w"
  proof -
    from that obtain m ms where "ws_events w = m # ms" "wm_type m = MtOpen"
      "\<forall>x \<in> set ms. wm_type x \<noteq> MtOpen \<and> wm_type x \<noteq> MtError"
      "t_readyState (ws_transport w) = CLOSED \<longrightarrow> (\<exists>x \<in> set ms. wm_type x = MtClose)" by (auto simp: opened_def)
    then show ?thesis by (intro exI [of _ "map wm_type ms"]) (auto, metis image_eqI)
  qed
  show ?thesis using inv o by (fastforce simp: session_inv_def refused_def split: if_splits)
qed

text \<open>A first attempt that fails is the whole run.\<close>

lemma refused_run:
  assumes "ready_to_run w0" and "wsConnect sk conn (ws_handshakeTimeoutSecs w0) w0 = Some (r, w1)"
    and "\<not> in_success r"
  shows "\<exists>w. ws_session sk conn w0 RunDone w \<and> length (ws_events w) = 1"
proof -
  from assms(1) have "session_inv (RunCheck True) w0" by (simp add: session_inv_def ready_to_run_def)
  note a = attempt_fails [OF this assms(2,3)]
  from a(3) session_step [OF session_start a(2)] show ?thesis
    by (intro exI [of _ "say (attemptError r) w1"] conjI) simp_all
qed

end

end
