(* ===== verification/IxClosing.thy ===== *)
theory IxClosing
  imports IxSessionProofs
begin

text \<open>
  What becomes of a connection whose peer says nothing more: closing it ends within a bounded
  number of turns of the run loop, by the clock; a connection that was cut in the middle of a frame
  and that nobody closes is polled for ever.
\<close>

section \<open>Nothing to dispatch\<close>

text \<open>The receive buffer holds no complete header, or the header of a frame that is still incomplete.\<close>

definition cutFrame :: "'k transport \<Rightarrow> wsheader \<Rightarrow> bool" where
  "cutFrame t ws \<longleftrightarrow>
     parseHeader (t_rxbuf t) = Some ws \<and> (hd_rsv1 ws \<longrightarrow> t_enablePerMessageDeflate t) \<and> \<not> hd_rsv2 ws \<and>
     \<not> hd_rsv3 ws \<and> hd_N ws \<le> push_bit 63 1 \<and> length (t_rxbuf t) < header_size ws + unat (hd_N ws)"

definition starved :: "'k transport \<Rightarrow> bool" where
  "starved t \<longleftrightarrow> parseHeader (t_rxbuf t) = None \<or> (\<exists>ws. cutFrame t ws)"

lemma starved_simps [simp]:
  "starved (t\<lparr>t_rxbufWanted := n\<rparr>) = starved t" "starved (t\<lparr>t_socket := k\<rparr>) = starved t"
  "starved (closeSocket sk t) = starved t" "starved (t\<lparr>t_out := outs\<rparr>) = starved t"
  by (simp_all add: starved_def cutFrame_def closeSocket_def)

lemma dispatch_cut:
  assumes "cutFrame t ws"
  shows "dispatch sk r t = t\<lparr>t_rxbufWanted := of_nat (header_size ws) + hd_N ws\<rparr>"
proof -
  from assms have "length (t_rxbuf t) \<noteq> 0" by (cases "t_rxbuf t") (auto simp: cutFrame_def parseHeader_def)
  then obtain n where n: "length (t_rxbuf t) = Suc n" using not0_implies_Suc by blast
  have "dispatchOne sk t = (Refused, t\<lparr>t_rxbufWanted := of_nat (header_size ws) + hd_N ws\<rparr>)"
    using assms by (auto simp: dispatchOne_def cutFrame_def)
  then show ?thesis by (simp add: dispatch_def n)
qed

lemma dispatch_starved:
  assumes "starved t"
  obtains n where "dispatch sk Succeeded t = t\<lparr>t_rxbufWanted := n\<rparr>"
proof (cases "parseHeader (t_rxbuf t)")
  case None
  then have "dispatchOne sk t = (Blocked, t)" by (simp add: dispatchOne_def)
  then have "dispatchFrames sk n t = (Blocked, t)" for n by (cases n) simp_all
  then have "dispatch sk Succeeded t = t\<lparr>t_rxbufWanted := t_rxbufWanted t\<rparr>"
    by (simp add: dispatch_def afterFrames_def)
  then show ?thesis by (rule that)
next
  case (Some ws)
  with assms obtain ws' where "cutFrame t ws'" by (auto simp: starved_def)
  from dispatch_cut [OF this] show ?thesis by (rule that)
qed

section \<open>Closing\<close>

text \<open>
  An open socket on which nothing arrives any more, as long as \<open>quiet\<close> holds: waiting 100 ms either takes as
  long, or ends early on one of \<open>pending\<close> requests to send that other threads have left.
\<close>

definition silent :: "'k sock_api \<Rightarrow> ('k \<Rightarrow> bool) \<Rightarrow> ('k \<Rightarrow> nat) \<Rightarrow> bool" where
  "silent sk quiet pending \<longleftrightarrow>
     (\<forall>k. quiet k \<longrightarrow>
        (\<exists>result k'. sk_isReadyToRead sk 100 k = Some (result, k') \<and> quiet k' \<and>
           (result = PollTimeout \<and> sk_now sk k' \<ge> sk_now sk k + 100 \<and> pending k' \<le> pending k \<or>
            result = PollSendRequest \<and> sk_now sk k' \<ge> sk_now sk k \<and> pending k' < pending k)))"

definition closing :: "('k \<Rightarrow> bool) \<Rightarrow> 'k websocket \<Rightarrow> bool" where
  "closing quiet w \<longleftrightarrow>
     quiet (t_socket (ws_transport w)) \<and> t_readyState (ws_transport w) = CLOSING \<and> t_requestInitCancellation (ws_transport w) \<and>
     t_out (ws_transport w) = [] \<and> starved (ws_transport w) \<and> \<not> ws_automaticReconnection w"

definition elapsed :: "'k sock_api \<Rightarrow> 'k transport \<Rightarrow> int" where
  "elapsed sk t = sk_now sk (t_socket t) - t_closingTimePoint t"

definition turnsLeft :: "'k sock_api \<Rightarrow> ('k \<Rightarrow> nat) \<Rightarrow> 'k websocket \<Rightarrow> nat" where
  "turnsLeft sk pending w =
     pending (t_socket (ws_transport w)) + nat ((400 - elapsed sk (ws_transport w)) div 100)"

definition closeMessage :: "'k transport \<Rightarrow> ws_message" where
  "closeMessage t = toMessage (OutClose (t_closeCode t) (t_closeReason t) (t_closeWireSize t) (t_closeRemote t))"

lemma silent_wait:
  assumes "silent sk quiet pending" and "quiet k"
  obtains (timeout) k' where "sk_isReadyToRead sk 100 k = Some (PollTimeout, k')" and "quiet k'"
      and "sk_now sk k' \<ge> sk_now sk k + 100" and "pending k' \<le> pending k"
  | (request) k' where "sk_isReadyToRead sk 100 k = Some (PollSendRequest, k')" and "quiet k'"
      and "sk_now sk k' \<ge> sk_now sk k" and "pending k' < pending k"
  using assms unfolding silent_def by blast

lemma poll_closing:
  assumes "silent sk quiet pending" and "quiet (t_socket t)" and "t_readyState t = CLOSING" and "t_requestInitCancellation t"
  obtains k where "poll sk t = Some (Succeeded, closingStep sk (t\<lparr>t_socket := k\<rparr>))" and "quiet k"
    and "pending k < pending (t_socket t) \<and> sk_now sk k \<ge> sk_now sk (t_socket t) \<or>
         pending k \<le> pending (t_socket t) \<and> sk_now sk k \<ge> sk_now sk (t_socket t) + 100"
proof -
  have h: "heartBeatStep sk t = t" "pollTimeout sk t = 100"
    using assms(3,4) by (simp_all add: heartBeatStep_def pollTimeout_def)
  have fl: "flushSendBuffer sk (t\<lparr>t_socket := k\<rparr>) = Some (True, t\<lparr>t_socket := k\<rparr>)" for k
    unfolding flushSendBuffer_def using assms(4) by (subst flushLoop.simps) simp
  from assms(1,2) show ?thesis
  proof (cases rule: silent_wait)
    case (timeout k)
    then show ?thesis by (intro that [of k]) (simp_all add: poll_def h)
  next
    case (request k)
    then show ?thesis using fl by (intro that [of k]) (simp_all add: poll_def h)
  qed
qed

text \<open>One turn of the loop: the closing delay is over and the run ends, or there are fewer turns left.\<close>

lemma closing_turn:
  assumes "silent sk quiet pending" and "closing quiet w" and "elapsed sk (ws_transport w) \<ge> 0"
  obtains w' where "runSteps sk conn 2 (RunPoll, w) = Some (RunDone, w')"
      and "ws_events w' = ws_events w @ [closeMessage (ws_transport w)]"
  | w' where "runSteps sk conn 2 (RunPoll, w) = Some (RunPoll, w')" and "closing quiet w'"
      and "elapsed sk (ws_transport w') \<ge> 0" and "turnsLeft sk pending w' < turnsLeft sk pending w"
      and "ws_events w' = ws_events w" and "closeMessage (ws_transport w') = closeMessage (ws_transport w)"
proof -
  define t where "t = ws_transport w"
  from assms(2) have t: "t_readyState t = CLOSING" "t_requestInitCancellation t" "t_out t = []" "starved t"
    "quiet (t_socket t)" and auto: "\<not> ws_automaticReconnection w" by (simp_all add: closing_def t_def)
  obtain k where p: "poll sk t = Some (Succeeded, closingStep sk (t\<lparr>t_socket := k\<rparr>))" and quiet: "quiet k"
    and k: "pending k < pending (t_socket t) \<and> sk_now sk k \<ge> sk_now sk (t_socket t) \<or>
         pending k \<le> pending (t_socket t) \<and> sk_now sk k \<ge> sk_now sk (t_socket t) + 100"
    by (rule poll_closing [OF assms(1) t(5,1,2)])
  define t1 where "t1 = closingStep sk (t\<lparr>t_socket := k\<rparr>)"
  have two: "runSteps sk conn 2 s = (case runStep sk conn s of None \<Rightarrow> None | Some s' \<Rightarrow> runStep sk conn s')" for s
    by (simp add: numeral_2_eq_2 split: option.splits)
  show ?thesis
  proof (cases "closingDelayExceeded sk (t\<lparr>t_socket := k\<rparr>)")
    case True
    then have t1: "t1 = setReadyState sk CLOSED (closeSocket sk (t\<lparr>t_socket := k, t_rxbuf := []\<rparr>))"
      using t(1) by (simp add: t1_def closingStep_def)
    have "parseHeader [] = None" by (simp add: parseHeader_def)
    then have "starved t1" by (simp add: t1 starved_def setReadyState_def closeSocket_def)
    then obtain n where d: "dispatch sk Succeeded t1 = t1\<lparr>t_rxbufWanted := n\<rparr>" by (rule dispatch_starved)
    define w1 where "w1 = deliver (t1\<lparr>t_rxbufWanted := n\<rparr>) w"
    have "t_readyState (ws_transport w1) = CLOSED" "\<not> ws_automaticReconnection w1"
      using auto by (simp_all add: w1_def t1 setReadyState_def closeSocket_def t)
    moreover from this have "checkConnection sk conn False 0 w1 = Some w1"
      by (subst checkConnection.simps) simp
    ultimately have "runSteps sk conn 2 (RunPoll, w) = Some (RunDone, w1)"
      using p d by (simp add: two t_def t1_def w1_def)
    moreover have "ws_events w1 = ws_events w @ [closeMessage t]"
      using t by (simp add: w1_def t1 deliver_def setReadyState_def closeSocket_def closeMessage_def)
    ultimately show ?thesis using that(1) by (simp add: t_def)
  next
    case False
    then have t1: "t1 = t\<lparr>t_socket := k\<rparr>" by (simp add: t1_def closingStep_def)
    with t have "starved t1" by simp
    then obtain n where d: "dispatch sk Succeeded t1 = t1\<lparr>t_rxbufWanted := n\<rparr>" by (rule dispatch_starved)
    define w1 where "w1 = deliver (t1\<lparr>t_rxbufWanted := n\<rparr>) w"
    have w1: "ws_transport w1 = t\<lparr>t_socket := k, t_rxbufWanted := n\<rparr>"
      using t by (simp add: w1_def deliver_def t1)
    have "isClosing w1" using t by (simp add: w1 isClosing_def)
    then have "checkConnection sk conn False 0 w1 = Some w1" by (subst checkConnection.simps) simp
    then have "runSteps sk conn 2 (RunPoll, w) = Some (RunPoll, w1)"
      using p d \<open>isClosing w1\<close> by (simp add: two t_def t1_def w1_def isClosing_def)
    moreover have "closing quiet w1" using t auto quiet by (simp add: closing_def w1) (simp add: w1_def)
    moreover have e: "elapsed sk (ws_transport w1) \<ge> elapsed sk t" "elapsed sk (ws_transport w1) \<le> 300"
      using k False by (auto simp: w1 elapsed_def closingDelayExceeded_def kClosingMaximumWaitingDelayInMs_def)
    moreover have "turnsLeft sk pending w1 < turnsLeft sk pending w"
      using k e by (auto simp: turnsLeft_def t_def [symmetric]) (auto simp: w1 elapsed_def)
    moreover have "ws_events w1 = ws_events w" "closeMessage (ws_transport w1) = closeMessage t"
      using t by (simp_all add: w1_def deliver_def t1 closeMessage_def)
    ultimately show ?thesis using that(2) [of w1] assms(3) by (simp add: t_def)
  qed
qed

lemma runSteps_add:
  "runSteps sk conn (m + n) s = (case runSteps sk conn m s of None \<Rightarrow> None | Some s' \<Rightarrow> runSteps sk conn n s')"
  by (induction m arbitrary: s) (simp_all split: option.splits)

lemma closing_runs_out:
  assumes "silent sk quiet pending" and "closing quiet w" and "elapsed sk (ws_transport w) \<ge> 0"
  shows "\<exists>n w'. n \<le> 2 * (turnsLeft sk pending w + 1) \<and> runSteps sk conn n (RunPoll, w) = Some (RunDone, w') \<and>
           ws_events w' = ws_events w @ [closeMessage (ws_transport w)]"
  using assms(2,3)
proof (induction "turnsLeft sk pending w" arbitrary: w rule: less_induct)
  case less
  show ?case
  proof (rule closing_turn [OF assms(1) less.prems, of conn], goal_cases)
    case (1 w')
    then show ?case by (intro exI [of _ 2] exI [of _ w']) simp
  next
    case (2 w1)
    from less.hyps [OF 2(4,2,3)] obtain n w' where n: "n \<le> 2 * (turnsLeft sk pending w1 + 1)"
      "runSteps sk conn n (RunPoll, w1) = Some (RunDone, w')"
      "ws_events w' = ws_events w1 @ [closeMessage (ws_transport w1)]" by blast
    have "runSteps sk conn (2 + n) (RunPoll, w) = Some (RunDone, w')"
      unfolding runSteps_add using 2(1) n(2) by simp
    moreover have "2 + n \<le> 2 * (turnsLeft sk pending w + 1)" using n(1) 2(4) by simp
    moreover have "ws_events w' = ws_events w @ [closeMessage (ws_transport w)]" using n(3) 2(5,6) by simp
    ultimately show ?case by blast
  qed
qed

lemma turnsLeft_bound:
  "elapsed sk (ws_transport w) \<ge> 0 \<Longrightarrow> turnsLeft sk pending w \<le> pending (t_socket (ws_transport w)) + 4"
  by (simp add: turnsLeft_def)

section \<open>From \<open>close\<close> on\<close>

text \<open>
  A peer that says nothing more, on a connection that is up and whose calls may take time but never turn the
  clock back; each request to send leaves at most one for the poll.
\<close>

definition peer_silent :: "'k sock_api \<Rightarrow> ('k \<Rightarrow> bool) \<Rightarrow> ('k \<Rightarrow> nat) \<Rightarrow> bool" where
  "peer_silent sk quiet pending \<longleftrightarrow>
     silent sk quiet pending \<and> healthy sk quiet \<and>
     (\<forall>bs k. quiet k \<longrightarrow> bs \<noteq> [] \<longrightarrow>
        sk_now sk (snd (sk_send sk bs k)) \<ge> sk_now sk k \<and> pending (snd (sk_send sk bs k)) \<le> pending k) \<and>
     (\<forall>k. quiet k \<longrightarrow> sk_now sk (sk_wakeUpFromPoll sk kSendRequest k) \<ge> sk_now sk k \<and>
        pending (sk_wakeUpFromPoll sk kSendRequest k) \<le> pending k + 1)"

text \<open>At most \<open>n\<close> requests later, with the clock not turned back and the same closing time.\<close>

definition later :: "'k sock_api \<Rightarrow> ('k \<Rightarrow> bool) \<Rightarrow> ('k \<Rightarrow> nat) \<Rightarrow> nat \<Rightarrow> 'k transport \<Rightarrow> 'k transport \<Rightarrow> bool" where
  "later sk quiet pending n t t' \<longleftrightarrow>
     quiet (t_socket t') \<and> t_closingTimePoint t' = t_closingTimePoint t \<and> sk_now sk (t_socket t') \<ge> sk_now sk (t_socket t) \<and>
     pending (t_socket t') \<le> pending (t_socket t) + n"

lemma later_sendOnSocket:
  "peer_silent sk quiet pending \<Longrightarrow> quiet (t_socket t) \<Longrightarrow> later sk quiet pending 0 t (snd (sendOnSocket sk t))"
proof (induction sk t rule: sendOnSocket.induct)
  case (1 sk t)
  obtain ret k where r: "sk_send sk (t_txbuf t) (t_socket t) = (ret, k)" by fastforce
  have k: "sk_now sk k \<ge> sk_now sk (t_socket t)" "pending k \<le> pending (t_socket t)" if "t_txbuf t \<noteq> []"
    using "1.prems" that r unfolding peer_silent_def by (metis snd_conv)+
  have up: "quiet k \<and> (ret > 0 \<or> ret < 0 \<and> sk_isWaitNeeded sk k)" if "t_txbuf t \<noteq> []"
    using "1.prems" that r by (auto simp: peer_silent_def healthy_def)
  define t1 where "t1 = t\<lparr>t_socket := k, t_txbuf := drop (nat ret) (t_txbuf t)\<rparr>"
  have "later sk quiet pending 0 t1 (snd (sendOnSocket sk t1))" if "t_txbuf t \<noteq> []" "\<not> ret \<le> 0"
    using that "1.IH" [OF _ refl r [symmetric] refl _ _ "1.prems"(1)] up by (simp add: t1_def)
  then show ?case
    using k up "1.prems"(2) by (subst sendOnSocket.simps) (auto simp: r Let_def later_def t1_def)
qed

lemma later_wake:
  assumes "peer_silent sk quiet pending" and "later sk quiet pending n t t1"
  shows "later sk quiet pending (n + 1) t (wakeUpFromPoll sk kSendRequest t1)"
proof -
  from assms(2) have "quiet (t_socket t1)" by (simp add: later_def)
  with assms(1) have "sk_now sk (sk_wakeUpFromPoll sk kSendRequest (t_socket t1)) \<ge> sk_now sk (t_socket t1)"
    "pending (sk_wakeUpFromPoll sk kSendRequest (t_socket t1)) \<le> pending (t_socket t1) + 1"
    "quiet (sk_wakeUpFromPoll sk kSendRequest (t_socket t1))"
    by (simp_all add: peer_silent_def healthy_def)
  with assms(2) show ?thesis by (auto simp: later_def wakeUpFromPoll_def)
qed

lemma later_sendCloseFrame:
  assumes "peer_silent sk quiet pending" and "quiet (t_socket t)" and "length reason < kChunkSize - 2"
  shows "later sk quiet pending 1 t (sendCloseFrame sk code reason t)"
proof -
  have frame: "later sk quiet pending 0 t (snd (sendFragment sk type True m c t))" for type m c
    using later_sendOnSocket [OF assms(1), of "appendToSendBuffer _ m _ t"] assms(2)
    by (simp add: sendFragment_def Let_def later_def appendToSendBuffer_def)
  have weak: "later sk quiet pending 1 t t1" if "later sk quiet pending 0 t t1" for t1 using that by (auto simp: later_def)
  have same: "later sk quiet pending 1 t t" using assms(2) by (simp add: later_def)
  have "later sk quiet pending 1 t (snd (sendData sk CLOSE m False t))" if "length m < kChunkSize" for m
  proof (cases rule: sendData_cases [of t sk CLOSE m False])
    case (single wire ok t1)
    with frame [of CLOSE wire False] later_wake [OF assms(1), of 0] weak show ?thesis by simp
  qed (use that same in simp_all)
  then show ?thesis using assms(3) by (simp add: sendCloseFrame_def)
qed

text \<open>\<open>close\<close> on an open connection leaves a closing one, and at most two requests for the poll.\<close>

lemma wsClose_closing:
  assumes "peer_silent sk quiet pending" and "quiet (t_socket (ws_transport w))" and "isConnected w"
    and "t_out (ws_transport w) = []" and "starved (ws_transport w)"
    and "\<not> ws_automaticReconnection w" and "length reason < kChunkSize - 2"
  shows "closing quiet (wsClose sk code reason w)" and "elapsed sk (ws_transport (wsClose sk code reason w)) \<ge> 0"
    and "pending (t_socket (ws_transport (wsClose sk code reason w))) \<le> pending (t_socket (ws_transport w)) + 2"
proof -
  define t where "t = ws_transport w"
  define t0 where "t0 = setReadyState sk CLOSING ((setCloseInfo code reason (length reason) False
    (t\<lparr>t_requestInitCancellation := True\<rparr>))\<lparr>t_closingTimePoint := sk_now sk (t_socket t)\<rparr>)"
  define t' where "t' = close sk code reason 0 False t"
  have o: "t_readyState t = OPEN" using assms(3) by (simp add: isConnected_def t_def)
  have eq: "t' = wakeUpFromPoll sk kSendRequest (sendCloseFrame sk code reason t0)"
    using o by (simp add: t'_def close_def Let_def t0_def setCloseInfo_def)
  have t0: "t_socket t0 = t_socket t" "t_closingTimePoint t0 = sk_now sk (t_socket t)"
    using o by (simp_all add: t0_def setReadyState_def setCloseInfo_def)
  have "quiet (t_socket t0)" using assms(2) t0(1) by (simp add: t_def)
  from later_wake [OF assms(1) later_sendCloseFrame [OF assms(1) this assms(7)], of code]
  have l: "quiet (t_socket t')" "elapsed sk t' \<ge> 0" "pending (t_socket t') \<le> pending (t_socket t) + 2"
    by (auto simp: eq later_def elapsed_def t0)
  have "starved t'"
  proof -
    have "rx t' = rx t" by (simp add: t'_def)
    then have "t_rxbuf t' = t_rxbuf t" "t_enablePerMessageDeflate t' = t_enablePerMessageDeflate t" by (simp_all add: rx_def)
    with assms(5) show ?thesis by (simp add: starved_def cutFrame_def t_def)
  qed
  moreover have "wsClose sk code reason w = deliver t' w" by (simp add: wsClose_def t'_def t_def)
  moreover have "t_out t' = []" "t_readyState t' = CLOSING" "t_requestInitCancellation t'"
    using close_open(1,4,5) [OF o, of sk code reason 0 False] assms(4) by (simp_all add: t'_def t_def)
  ultimately show "closing quiet (wsClose sk code reason w)" "elapsed sk (ws_transport (wsClose sk code reason w)) \<ge> 0"
    "pending (t_socket (ws_transport (wsClose sk code reason w))) \<le> pending (t_socket (ws_transport w)) + 2"
    using assms(6) l by (simp_all add: closing_def deliver_def elapsed_def t_def)
qed

text \<open>A closing connection ends its run, wherever in its loop it is.\<close>

lemma closing_runs:
  assumes "silent sk quiet pending" and "closing quiet w" and "elapsed sk (ws_transport w) \<ge> 0"
    and "pc = RunPoll \<or> pc = RunCheck False"
  shows "\<exists>n w'. n \<le> 2 * pending (t_socket (ws_transport w)) + 11 \<and>
           runSteps sk conn n (pc, w) = Some (RunDone, w') \<and>
           ws_events w' = ws_events w @ [closeMessage (ws_transport w)]"
proof -
  from closing_runs_out [OF assms(1-3), of conn] obtain n w' where
    n: "n \<le> 2 * (turnsLeft sk pending w + 1)" and run: "runSteps sk conn n (RunPoll, w) = Some (RunDone, w')"
      "ws_events w' = ws_events w @ [closeMessage (ws_transport w)]" by blast
  have bound: "n \<le> 2 * pending (t_socket (ws_transport w)) + 10"
    using n turnsLeft_bound [OF assms(3), of pending] by simp
  show ?thesis
  proof (cases "pc = RunPoll")
    case True
    with bound run show ?thesis by (intro exI [of _ n] exI [of _ w']) simp
  next
    case False
    have "t_readyState (ws_transport w) = CLOSING" using assms(2) by (simp add: closing_def)
    then have closing: "isClosing w" by (simp add: isClosing_def)
    then have "checkConnection sk conn False 0 w = Some w" by (subst checkConnection.simps) simp
    with closing have "runStep sk conn (RunCheck False, w) = Some (RunPoll, w)" by (simp add: isClosing_def)
    with False assms(4) bound run show ?thesis by (intro exI [of _ "Suc n"] exI [of _ w']) simp
  qed
qed

section \<open>A connection that is cut\<close>

text \<open>\<open>Socket::isReadyToRead\<close> and \<open>Socket::close\<close> on a socket that has been closed.\<close>

definition closes_for_good :: "'k sock_api \<Rightarrow> bool" where
  "closes_for_good sk \<longleftrightarrow>
     (\<forall>k ms. sk_isReadyToRead sk ms (sk_close sk k) = Some (PollError, sk_close sk k)) \<and>
     (\<forall>k. sk_close sk (sk_close sk k) = sk_close sk k)"

lemma receive_false:
  assumes "receiveFromSocket sk t = Some (False, t')"
  shows "\<exists>k b. t' = t\<lparr>t_socket := sk_close sk k, t_rxbuf := b\<rparr>"
proof -
  have "\<not> fst (False, t') \<longrightarrow> (\<exists>k b. snd (False, t') = t\<lparr>t_socket := sk_close sk k, t_rxbuf := b\<rparr>)"
  proof (rule receiveFromSocket.raw_induct [of "\<lambda>sk t r. \<not> fst r \<longrightarrow> (\<exists>k b. snd r = t\<lparr>t_socket := sk_close sk k, t_rxbuf := b\<rparr>)",
      OF _ assms], goal_cases)
    case (1 f sk t r)
    note IH = 1(1) and body = 1(2)
    obtain x k where x: "sk_recv sk kChunkSize (t_socket t) = (x, k)" by fastforce
    show ?case
    proof (cases x)
      case (Inl ret)
      have "\<exists>k' b. closeSocket sk (t\<lparr>t_socket := k\<rparr>) = t\<lparr>t_socket := sk_close sk k', t_rxbuf := b\<rparr>"
        by (intro exI [of _ k] exI [of _ "t_rxbuf t"]) (simp add: closeSocket_def)
      moreover have "fst r \<or> r = (False, closeSocket sk (t\<lparr>t_socket := k\<rparr>))"
        using body x Inl by (auto simp: Let_def split: if_splits)
      ultimately show ?thesis by (elim disjE) simp_all
    next
      case (Inr bytes)
      with IH [of sk "t\<lparr>t_socket := k, t_rxbuf := t_rxbuf t @ bytes\<rparr>" r] body x show ?thesis
        by (auto split: if_splits)
    qed
  qed
  then show ?thesis by simp
qed

lemma poll_abnormal:
  assumes "poll sk t = Some (AbnormalClose, t')" and "t_pingIntervalSecs t \<le> 0"
  obtains k b where "t' = t\<lparr>t_socket := sk_close sk k, t_rxbuf := b\<rparr>"
proof -
  have h: "heartBeatStep sk t = t" using assms(2) by (simp add: heartBeatStep_def pingIntervalExceeded_def)
  from assms(1) obtain result k where r: "sk_isReadyToRead sk (pollTimeout sk t) (t_socket t) = Some (result, k)"
    by (auto simp: poll_def h Let_def split: option.splits)
  with assms(1) have "result = PollReadyForRead \<and> receiveFromSocket sk (t\<lparr>t_socket := k\<rparr>) = Some (False, t')"
    by (cases result) (auto simp: poll_def h Let_def split: option.splits bool.splits)
  with receive_false [of sk "t\<lparr>t_socket := k\<rparr>" t'] that show ?thesis by auto
qed

definition stuck :: "'k sock_api \<Rightarrow> 'k websocket \<Rightarrow> bool" where
  "stuck sk w \<longleftrightarrow>
     t_readyState (ws_transport w) = OPEN \<and> t_out (ws_transport w) = [] \<and> \<not> ws_stop w \<and>
     t_pingIntervalSecs (ws_transport w) \<le> 0 \<and> starved (ws_transport w) \<and>
     (\<exists>k. t_socket (ws_transport w) = sk_close sk k)"

lemma stuck_step:
  assumes "closes_for_good sk" and "stuck sk w" and "pc = RunPoll \<or> pc = RunCheck False"
  obtains pc' w' where "runStep sk conn (pc, w) = Some (pc', w')" and "stuck sk w'"
    and "pc' = RunPoll \<or> pc' = RunCheck False" and "ws_events w' = ws_events w"
proof (cases "pc = RunPoll")
  case True
  define t where "t = ws_transport w"
  from assms(2) obtain k where t: "t_readyState t = OPEN" "t_out t = []" "t_pingIntervalSecs t \<le> 0" "starved t"
    "t_socket t = sk_close sk k" and w: "\<not> ws_stop w" by (auto simp: stuck_def t_def)
  have "heartBeatStep sk t = t" using t(3) by (simp add: heartBeatStep_def pingIntervalExceeded_def)
  moreover have "sk_isReadyToRead sk ms (t_socket t) = Some (PollError, t_socket t)" "sk_close sk (t_socket t) = t_socket t" for ms
    using assms(1) t(5) by (simp_all add: closes_for_good_def)
  ultimately have p: "poll sk t = Some (Succeeded, t)"
    using t(1) by (simp add: poll_def closingStep_def closeSocket_def)
  obtain n where d: "dispatch sk Succeeded t = t\<lparr>t_rxbufWanted := n\<rparr>" by (rule dispatch_starved [OF t(4)])
  define w1 where "w1 = deliver (t\<lparr>t_rxbufWanted := n\<rparr>) w"
  have tr: "ws_transport w1 = t\<lparr>t_rxbufWanted := n\<rparr>" using t by (simp add: w1_def deliver_def)
  have "runStep sk conn (pc, w) = Some (RunCheck False, w1)" using p d True by (simp add: t_def w1_def)
  moreover have "stuck sk w1" using t w by (simp add: stuck_def tr) (auto simp: w1_def)
  moreover have "ws_events w1 = ws_events w" using t by (simp add: w1_def deliver_def)
  ultimately show ?thesis using that by blast
next
  case False
  with assms(3) have pc: "pc = RunCheck False" by simp
  have "isConnected w" using assms(2) by (simp add: stuck_def isConnected_def)
  then have "checkConnection sk conn False 0 w = Some w" by (subst checkConnection.simps) simp
  then have "runStep sk conn (pc, w) = Some (RunPoll, w)" using assms(2) pc by (simp add: stuck_def)
  with that assms(2) show ?thesis by blast
qed

lemma stuck_runs:
  assumes "closes_for_good sk" and "stuck sk w" and "pc = RunPoll \<or> pc = RunCheck False"
  shows "\<exists>pc' w'. runSteps sk conn n (pc, w) = Some (pc', w') \<and> pc' \<noteq> RunDone \<and>
           ws_events w' = ws_events w \<and> isConnected w'"
  using assms(2,3)
proof (induction n arbitrary: pc w)
  case 0
  then show ?case by (auto simp: stuck_def isConnected_def)
next
  case (Suc n)
  from stuck_step [OF assms(1) Suc.prems, of conn] obtain pc1 w1 where s: "runStep sk conn (pc, w) = Some (pc1, w1)"
    "stuck sk w1" "pc1 = RunPoll \<or> pc1 = RunCheck False" "ws_events w1 = ws_events w" by blast
  from Suc.IH [OF s(2,3)] s(1,4) show ?case by simp
qed

lemma cut_runs_on:
  assumes "closes_for_good sk" and "isConnected w" and "\<not> ws_stop w" and "t_out (ws_transport w) = []"
    and "t_pingIntervalSecs (ws_transport w) \<le> 0"
    and "poll sk (ws_transport w) = Some (AbnormalClose, t)" and "cutFrame t ws"
  shows "\<exists>pc w'. runSteps sk conn n (RunPoll, w) = Some (pc, w') \<and> pc \<noteq> RunDone \<and>
           ws_events w' = ws_events w \<and> isConnected w'"
proof (cases n)
  case (Suc m)
  obtain k b where t: "t = (ws_transport w)\<lparr>t_socket := sk_close sk k, t_rxbuf := b\<rparr>"
    by (rule poll_abnormal [OF assms(6,5)])
  define w1 where "w1 = deliver (dispatch sk AbnormalClose t) w"
  have w1: "ws_transport w1 = t\<lparr>t_rxbufWanted := of_nat (header_size ws) + hd_N ws\<rparr>" "ws_events w1 = ws_events w"
    "ws_stop w1 = ws_stop w"
    using assms(4) dispatch_cut [OF assms(7)] by (simp_all add: w1_def deliver_def t)
  have "starved t" using assms(7) by (auto simp: starved_def)
  then have "stuck sk w1"
    using assms(2-5) unfolding stuck_def w1 by (auto simp: t isConnected_def)
  from stuck_runs [OF assms(1) this, of "RunCheck False" conn m] show ?thesis
    using assms(6) by (simp add: Suc w1_def [symmetric] w1(2))
qed (use assms(2) in simp)

text \<open>The whole of a closing run, with its bound.\<close>

lemma closing_run_ends:
  assumes "silent sk quiet pending" and "quiet (t_socket (ws_transport w))" and "isClosing w" and "t_requestInitCancellation (ws_transport w)"
    and "t_out (ws_transport w) = []" and "starved (ws_transport w)" and "\<not> ws_automaticReconnection w"
    and "sk_now sk (t_socket (ws_transport w)) \<ge> t_closingTimePoint (ws_transport w)"
  shows "\<exists>n w'. n \<le> 2 * (pending (t_socket (ws_transport w)) + 5) \<and>
           runSteps sk conn n (RunPoll, w) = Some (RunDone, w') \<and>
           ws_events w' = ws_events w @
             [toMessage (OutClose (t_closeCode (ws_transport w)) (t_closeReason (ws_transport w))
                (t_closeWireSize (ws_transport w)) (t_closeRemote (ws_transport w)))]"
proof -
  have c: "closing quiet w" using assms(2-7) by (simp add: closing_def isClosing_def)
  have e: "elapsed sk (ws_transport w) \<ge> 0" using assms(8) by (simp add: elapsed_def)
  from closing_runs_out [OF assms(1) c e, of conn] obtain n w' where run:
    "n \<le> 2 * (turnsLeft sk pending w + 1)" "runSteps sk conn n (RunPoll, w) = Some (RunDone, w')"
    "ws_events w' = ws_events w @ [closeMessage (ws_transport w)]" by blast
  moreover have "n \<le> 2 * (pending (t_socket (ws_transport w)) + 5)"
    using run(1) turnsLeft_bound [OF e, of pending] by simp
  ultimately show ?thesis unfolding closeMessage_def by blast
qed

end
