(* ===== verification/IxSocketProofs.thy ===== *)
theory IxSocketProofs
  imports IxSocket IxClosing
begin

text \<open>
  The sockets of the library are what the connection relies on: closing is for good, the bytes that were taken
  are those that reached the system, and on a system on which nothing arrives the poll ends on a request of
  another thread or by its time limit. Each is proved from what the system calls do.
\<close>

section \<open>Closing\<close>

lemma socketClose_closed [simp]: "so_sockfd (fst (socketClose os k)) = - 1"
  by (cases k) (simp add: socketClose_def Let_def)

lemma socketClose_twice [simp]: "socketClose os (socketClose os k) = socketClose os k"
  by (cases k) (simp add: socketClose_def Let_def)

text \<open>A closed socket is polled without asking the system, and reports an error at once.\<close>

lemma socket_closes_for_good: "closes_for_good (socket_api os)"
  by (simp add: closes_for_good_def isReadyToRead_def isReadyTo_def)

text \<open>Over TLS, whatever is sent on a closed socket fails without asking the system.\<close>

lemma tls_closed_broken:
  assumes "so_tls (fst k)"
  shows "socketSend os bs (socketClose os k) = (0, socketClose os k)"
proof -
  have "so_tls (fst (socketClose os k))" "\<not> so_connection (fst (socketClose os k))"
    using assms by (cases k; simp add: socketClose_def Let_def)+
  then show ?thesis by (simp add: socketSend_def)
qed

text \<open>
  A failed read over TLS leaves \<open>errno\<close> alone unless OpenSSL waits for the peer, and whether the connection is
  taken for lost is decided by \<open>errno\<close>. So where \<open>SSL_read\<close> does not set it, an end of the connection that
  comes after a read that had to wait is taken for nothing to read, and the connection for up.
\<close>

lemma tls_end_overlooked:
  assumes "so_tls (fst (t_socket t))" and "so_connection (fst (t_socket t))" and "so_context (fst (t_socket t))"
    and "ssl_read os kChunkSize (snd (t_socket t)) = ((Inl ret, SSL_OTHER), e)"
    and "os_errno os e = EWOULDBLOCK" and "t_rxbuf t = []" and "t_rxbufWanted t = 0"
  shows "receiveFromSocket (socket_api os) t = Some (True, t\<lparr>t_socket := (fst (t_socket t), e)\<rparr>)"
  using assms
  by (subst receiveFromSocket.simps) (simp add: socketRecv_def isWaitNeeded_def kChunkSize_def)

section \<open>Bytes that were taken\<close>

text \<open>
  \<open>taken\<close> is what the system has taken to send. \<open>send\<close> and \<open>SSL_write\<close> take from the front what they report, and
  no other call changes it.
\<close>

definition takes_reported :: "'e os_api \<Rightarrow> ('e \<Rightarrow> byte list) \<Rightarrow> bool" where
  "takes_reported os taken \<longleftrightarrow>
     (\<forall>fd bs e ret e'. os_send os fd bs e = (ret, e') \<longrightarrow>
        ret \<le> int (length bs) \<and> taken e' = taken e @ take (nat ret) bs) \<and>
     (\<forall>bs e ret reason e'. ssl_write os bs e = ((ret, reason), e') \<longrightarrow>
        (if reason = SSL_NONE then ret \<le> int (length bs) \<and> taken e' = taken e @ take (nat ret) bs else taken e' = taken e)) \<and>
     (\<forall>fd e. taken (os_close os fd e) = taken e) \<and> (\<forall>e. taken (ssl_free os e) = taken e) \<and>
     (\<forall>n e. taken (os_setErrno os n e) = taken e) \<and> (\<forall>fd v e. taken (snd (os_write os fd v e)) = taken e)"

lemma taken_retryWrite:
  assumes "takes_reported os taken"
  shows "taken (snd (retryWrite n os fd v e)) = taken e"
proof (induction n arbitrary: e)
  case 0
  then show ?case using assms by (simp add: takes_reported_def)
next
  case (Suc n)
  obtain ret e1 where w: "os_write os fd v e = (ret, e1)" by fastforce
  then have "taken e1 = taken e" using assms unfolding takes_reported_def by (metis snd_conv)
  with Suc w show ?case by simp
qed

lemma socket_send_law:
  assumes "takes_reported os taken"
  shows "send_law (socket_api os) (\<lambda>k. taken (snd k))"
  unfolding send_law_def
proof (intro conjI allI impI)
  fix bs k ret k' assume s: "sk_send (socket_api os) bs k = (ret, k')"
  obtain r reason e where w: "ssl_write os bs (snd k) = ((r, reason), e)" by (metis prod.exhaust)
  obtain r' e' where p: "os_send os (so_sockfd (fst k)) bs (snd k) = (r', e')" by fastforce
  have t: "if reason = SSL_NONE then r \<le> int (length bs) \<and> taken e = taken (snd k) @ take (nat r) bs else taken e = taken (snd k)"
    "r' \<le> int (length bs)" "taken e' = taken (snd k) @ take (nat r') bs" "taken (os_setErrno os EWOULDBLOCK e) = taken e"
    using assms w p unfolding takes_reported_def by blast+
  show "ret \<le> int (length bs)" "taken (snd k') = taken (snd k) @ take (nat ret) bs"
    using s w p t by (auto simp: socketSend_def split: if_splits)
next
  show "taken (snd (sk_close (socket_api os) k)) = taken (snd k)" for k
    using assms by (cases k) (simp add: socketClose_def Let_def takes_reported_def)
next
  show "taken (snd (sk_wakeUpFromPoll (socket_api os) c k)) = taken (snd k)" for c k
    using taken_retryWrite [OF assms] by (simp add: socketWakeUp_def pipe_notify_def split: prod.split) (metis snd_conv)
qed

section \<open>A system on which nothing arrives\<close>

text \<open>
  A socket \<open>s\<close> that is open, on a system in a state \<open>Q\<close> in which its peer sends nothing and its connection is up.
  \<open>queue\<close> is what the pipe holds. No call turns the clock back. A poll for 100 ms takes that long or finds the
  pipe readable; reading the pipe takes its first number; writing to it, which may fail, adds one.
\<close>

definition quiet_system :: "'e os_api \<Rightarrow> socket \<Rightarrow> ('e \<Rightarrow> bool) \<Rightarrow> ('e \<Rightarrow> uint64 list) \<Rightarrow> bool" where
  "quiet_system os s Q queue \<longleftrightarrow>
     so_sockfd s \<noteq> - 1 \<and> so_readFd s \<noteq> - 1 \<and>
     (\<forall>e. Q e \<longrightarrow>
        (\<exists>ret fds e'. os_poll os [(so_sockfd s, True), (so_readFd s, True)] 100 e = Some ((ret, fds), e') \<and>
           Q e' \<and> queue e' = queue e \<and>
           (ret = 0 \<and> os_steady os e' \<ge> os_steady os e + 100 \<or>
            ret > 0 \<and> rv_in (fds ! 1) \<and> queue e \<noteq> [] \<and> os_steady os e' \<ge> os_steady os e))) \<and>
     (\<forall>e v vs. Q e \<longrightarrow> queue e = v # vs \<longrightarrow>
        (\<exists>e'. os_read os (so_readFd s) e = ((8, v), e') \<and> Q e' \<and> queue e' = vs \<and> os_steady os e' \<ge> os_steady os e)) \<and>
     (\<forall>e v ret e'. Q e \<longrightarrow> os_write os (so_writeFd s) v e = (ret, e') \<longrightarrow>
        Q e' \<and> os_steady os e' \<ge> os_steady os e \<and> queue e' = (if ret = - 1 then queue e else queue e @ [v])) \<and>
     (\<forall>bs e ret k'. Q e \<longrightarrow> bs \<noteq> [] \<longrightarrow> socketSend os bs (s, e) = (ret, k') \<longrightarrow>
        fst k' = s \<and> Q (snd k') \<and> queue (snd k') = queue e \<and> os_steady os (snd k') \<ge> os_steady os e \<and>
        (ret > 0 \<or> ret < 0 \<and> isWaitNeeded os (snd k')))"

lemma quiet_poll:
  assumes "quiet_system os s Q queue" and "Q e"
  obtains (timeout) fds e' where "os_poll os [(so_sockfd s, True), (so_readFd s, True)] 100 e = Some ((0, fds), e')"
      and "Q e'" and "queue e' = queue e" and "os_steady os e' \<ge> os_steady os e + 100"
  | (readable) ret fds e' where "os_poll os [(so_sockfd s, True), (so_readFd s, True)] 100 e = Some ((ret, fds), e')"
      and "Q e'" and "queue e' = queue e" and "ret > 0" and "rv_in (fds ! 1)" and "queue e \<noteq> []"
      and "os_steady os e' \<ge> os_steady os e"
  using assms unfolding quiet_system_def by blast

lemma quiet_read:
  assumes "quiet_system os s Q queue" and "Q e" and "queue e = v # vs"
  obtains e' where "pipe_read os (so_readFd s) e = (v, e')" and "Q e'" and "queue e' = vs" and "os_steady os e' \<ge> os_steady os e"
proof -
  from assms obtain e' where r: "os_read os (so_readFd s) e = ((8, v), e')" and e': "Q e'" "queue e' = vs"
    "os_steady os e' \<ge> os_steady os e" unfolding quiet_system_def by blast
  have "retryRead n os (so_readFd s) e = ((8, v), e')" for n using r by (cases n) simp_all
  then show ?thesis using that e' by (simp add: pipe_read_def)
qed

lemma quiet_write:
  assumes "quiet_system os s Q queue" and "Q e" and "retryWrite n os (so_writeFd s) v e = (ret, e')"
  shows "Q e' \<and> os_steady os e' \<ge> os_steady os e \<and> (queue e' = queue e \<or> queue e' = queue e @ [v])"
  using assms(2,3)
proof (induction n arbitrary: e)
  case 0
  then show ?case using assms(1) unfolding quiet_system_def by (metis retryWrite.simps(1))
next
  case (Suc n)
  obtain r1 e1 where w: "os_write os (so_writeFd s) v e = (r1, e1)" by fastforce
  with Suc.prems assms(1) have e1: "Q e1" "os_steady os e1 \<ge> os_steady os e"
    "queue e1 = (if r1 = - 1 then queue e else queue e @ [v])" unfolding quiet_system_def by blast+
  show ?case
  proof (cases "r1 = - 1 \<and> os_errno os e1 = EINTR")
    case True
    with Suc.prems w have "retryWrite n os (so_writeFd s) v e1 = (ret, e')" by simp
    from Suc.IH [OF e1(1) this] e1 True show ?thesis by auto
  next
    case False
    with Suc.prems w have "e' = e1" by (auto split: if_splits)
    with e1 show ?thesis by auto
  qed
qed

text \<open>Then the socket is silent, as long as only requests to send are in its pipe.\<close>

definition quietSocket :: "socket \<Rightarrow> ('e \<Rightarrow> bool) \<Rightarrow> ('e \<Rightarrow> uint64 list) \<Rightarrow> 'e sockets \<Rightarrow> bool" where
  "quietSocket s Q queue k \<longleftrightarrow> fst k = s \<and> Q (snd k) \<and> set (queue (snd k)) \<subseteq> {wakeUpCode kSendRequest}"

definition requests :: "('e \<Rightarrow> uint64 list) \<Rightarrow> 'e sockets \<Rightarrow> nat" where
  "requests queue k = length (queue (snd k))"

lemma quiet_socket_silent:
  assumes "quiet_system os s Q queue"
  shows "silent (socket_api os) (quietSocket s Q queue) (requests queue)"
  unfolding silent_def
proof (intro allI impI)
  fix k assume "quietSocket s Q queue k"
  then obtain e where k: "k = (s, e)" and e: "Q e" "set (queue e) \<subseteq> {wakeUpCode kSendRequest}"
    by (cases k) (auto simp: quietSocket_def)
  have fds: "so_sockfd s \<noteq> - 1" "so_readFd s \<noteq> - 1" using assms by (simp_all add: quiet_system_def)
  from assms e(1) show "\<exists>result k'. sk_isReadyToRead (socket_api os) 100 k = Some (result, k') \<and> quietSocket s Q queue k' \<and>
      (result = PollTimeout \<and> sk_now (socket_api os) k' \<ge> sk_now (socket_api os) k + 100 \<and> requests queue k' \<le> requests queue k \<or>
       result = PollSendRequest \<and> sk_now (socket_api os) k' \<ge> sk_now (socket_api os) k \<and> requests queue k' < requests queue k)"
  proof (cases rule: quiet_poll)
    case (timeout rs e')
    then have "isReadyToRead os 100 k = Some (PollTimeout, (s, e'))"
      using fds by (simp add: isReadyToRead_def isReadyTo_def socketPoll_def k)
    then show ?thesis using timeout e by (simp add: k quietSocket_def requests_def)
  next
    case (readable ret rs e1)
    then obtain v vs where q: "queue e1 = v # vs" "queue e = v # vs" by (cases "queue e") auto
    then have v: "v = wakeUpCode kSendRequest" using e(2) by simp
    from assms readable(2) q(1) obtain e2 where e2: "pipe_read os (so_readFd s) e1 = (v, e2)" "Q e2" "queue e2 = vs"
      "os_steady os e2 \<ge> os_steady os e1" by (rule quiet_read)
    have "isReadyToRead os 100 k = Some (PollSendRequest, (s, e2))"
      using readable e2(1) v fds
      by (simp add: isReadyToRead_def isReadyTo_def socketPoll_def k readSelectInterruptRequest_def)
    then show ?thesis using readable e2 e q by (simp add: k quietSocket_def requests_def)
  qed
qed

lemma quiet_wake:
  assumes "quiet_system os s Q queue" and "quietSocket s Q queue k"
  shows "quietSocket s Q queue (socketWakeUp os kSendRequest k)"
    and "os_steady os (snd (socketWakeUp os kSendRequest k)) \<ge> os_steady os (snd k)"
    and "requests queue (socketWakeUp os kSendRequest k) \<le> requests queue k + 1"
proof -
  obtain ret e' where w: "retryWrite (os_signals os (snd k)) os (so_writeFd s) (wakeUpCode kSendRequest) (snd k) = (ret, e')"
    by fastforce
  with assms(2) quiet_write [OF assms(1) _ w] have e': "Q e'" "os_steady os e' \<ge> os_steady os (snd k)"
    "queue e' = queue (snd k) \<or> queue e' = queue (snd k) @ [wakeUpCode kSendRequest]" by (auto simp: quietSocket_def)
  have "socketWakeUp os kSendRequest k = (if so_writeFd s = - 1 then k else (s, e'))"
    using w assms(2) by (simp add: socketWakeUp_def pipe_notify_def quietSocket_def)
  then show "quietSocket s Q queue (socketWakeUp os kSendRequest k)"
    "os_steady os (snd (socketWakeUp os kSendRequest k)) \<ge> os_steady os (snd k)"
    "requests queue (socketWakeUp os kSendRequest k) \<le> requests queue k + 1"
    using e' assms(2) by (auto simp: quietSocket_def requests_def)
qed

lemma quiet_send:
  assumes "quiet_system os s Q queue" and "quietSocket s Q queue k" and "bs \<noteq> []" and "socketSend os bs k = (ret, k')"
  shows "quietSocket s Q queue k'" and "ret > 0 \<or> ret < 0 \<and> isWaitNeeded os (snd k')"
    and "os_steady os (snd k') \<ge> os_steady os (snd k)" and "requests queue k' = requests queue k"
proof -
  obtain e where k: "k = (s, e)" and e: "Q e" using assms(2) by (cases k) (auto simp: quietSocket_def)
  with assms(1,3,4) have "fst k' = s" "Q (snd k')" "queue (snd k') = queue e" "os_steady os (snd k') \<ge> os_steady os e"
    "ret > 0 \<or> ret < 0 \<and> isWaitNeeded os (snd k')" unfolding quiet_system_def by blast+
  with k assms(2) show "quietSocket s Q queue k'" "ret > 0 \<or> ret < 0 \<and> isWaitNeeded os (snd k')"
    "os_steady os (snd k') \<ge> os_steady os (snd k)" "requests queue k' = requests queue k"
    by (simp_all add: quietSocket_def requests_def)
qed

theorem quiet_socket_peer_silent:
  assumes "quiet_system os s Q queue"
  shows "peer_silent (socket_api os) (quietSocket s Q queue) (requests queue)"
  unfolding peer_silent_def
proof (intro conjI allI impI)
  show "silent (socket_api os) (quietSocket s Q queue) (requests queue)" by (rule quiet_socket_silent [OF assms])
  show "healthy (socket_api os) (quietSocket s Q queue)"
    using quiet_send(1,2) [OF assms] quiet_wake(1) [OF assms] by (auto simp: healthy_def)
next
  fix bs :: "byte list" and k :: "'a sockets" assume k: "quietSocket s Q queue k" "bs \<noteq> []"
  obtain ret k' where r: "socketSend os bs k = (ret, k')"
    by (cases "socketSend os bs k") blast
  show "sk_now (socket_api os) (snd (sk_send (socket_api os) bs k)) \<ge> sk_now (socket_api os) k"
    "requests queue (snd (sk_send (socket_api os) bs k)) \<le> requests queue k"
    using quiet_send(3,4) [OF assms k r] r by simp_all
next
  fix k assume k: "quietSocket s Q queue k"
  show "sk_now (socket_api os) (sk_wakeUpFromPoll (socket_api os) kSendRequest k) \<ge> sk_now (socket_api os) k"
    "requests queue (sk_wakeUpFromPoll (socket_api os) kSendRequest k) \<le> requests queue k + 1"
    using quiet_wake(2,3) [OF assms k] by simp_all
qed

section \<open>Waiting with a deadline\<close>

text \<open>
  Both loops that wait under a deadline return once the clock goes on: connecting, as long as a poll for 10 ms
  ends and takes that long when it times out, and resolving, as long as sleeping takes its time.
\<close>

lemma connectWait_returns:
  assumes "\<And>e. \<exists>r e'. socketPoll os False 10 fd None e = Some (r, e') \<and> (r = PollTimeout \<longrightarrow> os_system os e' \<ge> os_system os e + 10)"
  shows "connectWait os deadline fd e \<noteq> None"
proof (induction "nat (fst deadline + 1000 * snd deadline + 1 - os_system os e)" arbitrary: e rule: less_induct)
  case less
  show ?case
  proof (cases "cancelled os deadline e")
    case True
    then show ?thesis by (subst connectWait.simps) simp
  next
    case False
    then have now: "os_system os e \<le> fst deadline + 1000 * snd deadline" by (simp add: cancelled_def)
    obtain r e1 where p: "socketPoll os False 10 fd None e = Some (r, e1)"
      "r = PollTimeout \<Longrightarrow> os_system os e1 \<ge> os_system os e + 10" using assms by blast
    have "r = PollTimeout \<Longrightarrow> connectWait os deadline fd e1 \<noteq> None" using less p(2) now by simp
    with p(1) False show ?thesis by (subst connectWait.simps) (auto simp: Let_def)
  qed
qed

lemma resolve_returns:
  assumes "\<And>e. os_system os (os_sleep os 1 e) \<ge> os_system os e + 1"
  shows "resolve os deadline host port e \<noteq> None"
proof -
  have "resolveWait os deadline host port e \<noteq> None" for e
  proof (induction "nat (fst deadline + 1000 * snd deadline + 1 - os_system os e)" arbitrary: e rule: less_induct)
    case less
    show ?case
    proof (cases "os_lookupDone os e = None \<and> \<not> cancelled os deadline (os_sleep os 1 e)")
      case False
      then show ?thesis by (subst resolveWait.simps) (auto simp: Let_def split: option.split)
    next
      case True
      then have "os_system os (os_sleep os 1 e) \<le> fst deadline + 1000 * snd deadline" by (simp add: cancelled_def)
      with assms [of e] have "resolveWait os deadline host port (os_sleep os 1 e) \<noteq> None" by (intro less) simp
      with True show ?thesis by (subst resolveWait.simps) simp
    qed
  qed
  then show ?thesis by (simp add: resolve_def)
qed

theorem plain_connect_returns:
  assumes "\<And>e. os_system os (os_sleep os 1 e) \<ge> os_system os e + 1"
    and "\<And>fd e. \<exists>r e'. socketPoll os False 10 fd None e = Some (r, e') \<and>
           (r = PollTimeout \<longrightarrow> os_system os e' \<ge> os_system os e + 10)"
    and "\<not> so_tls (fst k)"
  shows "socketConnect os deadline host port k \<noteq> None"
proof -
  have one: "connectToAddress os deadline a e \<noteq> None" for a e
    using connectWait_returns [OF assms(2)] by (simp add: connectToAddress_def split: prod.split)
  have "connectAny os deadline err as e \<noteq> None" for err as e
  proof (induction as arbitrary: err e)
    case (Cons a as)
    then show ?case using one [of a e] by (auto split: option.split prod.split)
  qed simp
  then have "connectToHost os deadline host port e \<noteq> None" for e
    using resolve_returns [OF assms(1)] by (auto simp: connectToHost_def split: option.split sum.split prod.split)
  then show ?thesis using assms(3) by (simp add: socketConnect_def)
qed

end
