(* ===== verification/IxServer.thy ===== *)
theory IxServer
  imports IxHandshake
begin

text \<open>
  The other end of the upgrade: the request line (\<open>Http::parseRequestLine\<close> of \<open>IXHttp.cpp\<close>), the
  server's side of the handshake (\<open>WebSocketHandshake::serverHandshake\<close> and \<open>sendErrorResponse\<close> of
  \<open>IXWebSocketHandshake.cpp\<close>) and \<open>WebSocketTransport::connectToSocket\<close>. AisLive is a client; the server of
  the same library is the peer against which its handshake is proved to succeed.
\<close>

definition parseRequestLine :: "string \<Rightarrow> string \<times> string \<times> string" where
  "parseRequestLine line =
     (let ts = tokens (CHR '' '') line in
      (if length ts \<ge> 1 then httpTrim (ts ! 0) else [],
       if length ts \<ge> 2 then httpTrim (ts ! 1) else [],
       if length ts \<ge> 3 then httpTrim (ts ! 2) else []))"

definition errorResponse :: "string \<Rightarrow> int \<Rightarrow> string \<Rightarrow> string" where
  "errorResponse userAgent errorCode reason =
     ''HTTP/1.1 '' @ showInt errorCode @ '' '' @ reason @ crlf @ ''Server: '' @ userAgent @ crlf"

text \<open>One second is allowed for the error response, from when it is made.\<close>

definition sendErrorResponse ::
  "'k net_api \<Rightarrow> int \<Rightarrow> string \<Rightarrow> 'k \<Rightarrow> (ws_init_result \<times> 'k) option" where
  "sendErrorResponse nt errorCode reason k =
     (case writeBytes (nt\<lparr>nt_requested := \<lambda>k. False\<rparr>) (nt_clock nt k, 1)
             (bytes_of (errorResponse (nt_userAgent nt) errorCode reason)) k of
        None \<Rightarrow> None
      | Some (False, k1) \<Rightarrow> Some (initResult False 500 ''Timed out while sending error response'' [] [], k1)
      | Some (True, k1) \<Rightarrow> Some (initResult False errorCode reason [] [], k1))"

text \<open>
  What a request is refused for, in the order of the tests. A version that is absent was refused
  before; one that is empty leaves the number indeterminate, here 0.
\<close>

definition badRequestLine :: "string \<Rightarrow> string \<Rightarrow> string option" where
  "badRequestLine method httpVersion =
     (if method \<noteq> ''GET'' then Some (''Invalid HTTP method, need GET, got '' @ method)
      else if httpVersion \<noteq> ''HTTP/1.1'' then Some (''Invalid HTTP version, need HTTP/1.1, got: '' @ httpVersion)
      else None)"

definition badRequestHeaders :: "http_headers \<Rightarrow> string option" where
  "badRequestHeaders headers =
     (if headerFind ''sec-websocket-key'' headers = None then Some ''Missing Sec-WebSocket-Key value''
      else if headerFind ''upgrade'' headers = None then Some ''Missing Upgrade header''
      else if \<not> insensitiveStringCompare (headerGet ''upgrade'' headers) ''WebSocket'' \<and>
              headerGet ''Upgrade'' headers \<noteq> ''keep-alive, Upgrade''
      then Some (''Invalid Upgrade header, need WebSocket, got '' @ headerGet ''upgrade'' headers)
      else if headerFind ''sec-websocket-version'' headers = None then Some ''Missing Sec-WebSocket-Version value''
      else if extractInt 0 (headerGet ''sec-websocket-version'' headers) \<noteq> 13
      then Some (''Invalid Sec-WebSocket-Version, need 13, got '' @ headerGet ''sec-websocket-version'' headers)
      else None)"

text \<open>The library is built without zlib: no extension is ever enabled.\<close>

definition upgradeAnswer :: "string \<Rightarrow> string \<Rightarrow> string" where
  "upgradeAnswer userAgent key =
     ''HTTP/1.1 101 Switching Protocols'' @ crlf @ ''Sec-WebSocket-Accept: '' @ generate (bytes_of key) @ crlf @
     ''Upgrade: websocket'' @ crlf @ ''Connection: Upgrade'' @ crlf @ ''Server: '' @ userAgent @ crlf @ crlf"

definition answerRequest ::
  "'k net_api \<Rightarrow> int \<times> int \<Rightarrow> string \<Rightarrow> http_headers \<Rightarrow> 'k \<Rightarrow> (ws_init_result \<times> 'k) option" where
  "answerRequest nt deadline uri headers k =
     (case badRequestHeaders headers of
        Some reason \<Rightarrow> sendErrorResponse nt 400 reason k
      | None \<Rightarrow>
          (case writeBytes nt deadline
                  (bytes_of (upgradeAnswer (nt_userAgent nt) (headerGet ''sec-websocket-key'' headers))) k of
             None \<Rightarrow> None
           | Some (False, k1) \<Rightarrow> Some (initResult False 0 ''Failed sending response to remote end'' [] [], k1)
           | Some (True, k1) \<Rightarrow> Some (initResult True 200 [] headers uri, k1)))"

text \<open>A request may have been read before, by the HTTP server: method, URI, version, header.\<close>

type_synonym http_request = "string \<times> string \<times> string \<times> http_headers"

definition serverExchange ::
  "'k net_api \<Rightarrow> int \<times> int \<Rightarrow> http_request option \<Rightarrow> 'k \<Rightarrow> (ws_init_result \<times> 'k) option" where
  "serverExchange nt deadline request k =
     (case request of
        Some (method, uri, httpVersion, headers) \<Rightarrow>
          (case badRequestLine method httpVersion of
             Some reason \<Rightarrow> sendErrorResponse nt 400 reason k
           | None \<Rightarrow> answerRequest nt deadline uri headers k)
      | None \<Rightarrow>
          (case readLine nt deadline k of
             None \<Rightarrow> None
           | Some ((False, line), k1) \<Rightarrow> sendErrorResponse nt 400 ''Error reading HTTP request line'' k1
           | Some ((True, line), k1) \<Rightarrow>
               (case parseRequestLine line of (method, uri, httpVersion) \<Rightarrow>
                  (case badRequestLine method httpVersion of
                     Some reason \<Rightarrow> sendErrorResponse nt 400 reason k1
                   | None \<Rightarrow>
                       (case parseHttpHeaders nt deadline [] k1 of
                          None \<Rightarrow> None
                        | Some ((False, headers), k2) \<Rightarrow> sendErrorResponse nt 400 ''Error parsing HTTP headers'' k2
                        | Some ((True, headers), k2) \<Rightarrow> answerRequest nt deadline uri headers k2)))))"

definition serverHandshake ::
  "'k net_api \<Rightarrow> int \<Rightarrow> http_request option \<Rightarrow> 'k transport \<Rightarrow> (ws_init_result \<times> 'k transport) option" where
  "serverHandshake nt timeoutSecs request t =
     map_option (\<lambda>(r, k). (r, t\<lparr>t_socket := k, t_requestInitCancellation := nt_requested nt k\<rparr>))
       (serverExchange nt (nt_clock nt (t_socket t), timeoutSecs) request (t_socket t))"

text \<open>
  \<open>connectToSocket\<close>, given the accepted socket. \<open>_blockingSend\<close>, which it sets, makes \<open>sendData\<close> flush
  before it returns; the model of sending is the client's, where it is never set.
\<close>

definition connectToSocket ::
  "'k net_api \<Rightarrow> 'k \<Rightarrow> int \<Rightarrow> http_request option \<Rightarrow> int \<Rightarrow> 'k transport \<Rightarrow> (ws_init_result \<times> 'k transport) option" where
  "connectToSocket nt k timeoutSecs request sendTimeoutSecs t =
     map_option (\<lambda>(r, t). (r, if in_success r then setReadyState (nt_sock nt) OPEN t else t))
       (serverHandshake nt timeoutSecs request
          (t\<lparr>t_useMask := False, t_sendTimeoutSecs := sendTimeoutSecs, t_socket := k\<rparr>))"

end
