(* ===== verification/IxServerProofs.thy ===== *)
theory IxServerProofs
  imports IxServer IxKeyGenProofs
begin

text \<open>
  The two sides of the handshake understand each other: what a stream of bytes is read as, line by
  line, and from it that the server accepts the client's request and the client the server's answer.
\<close>

section \<open>Streams\<close>

text \<open>
  A connected socket before the deadline. What the peer sends is \<open>unread\<close> and arrives sooner or later: a read
  delivers its next byte or asks to wait, and the wait is no error. What was sent is \<open>sent\<close>. As long as
  \<open>ok n\<close> holds, \<open>n\<close> more bytes can be sent, in parts and with waits in between; \<open>delay\<close> bounds
  the waits. Nothing is said of what is sent beyond that.
\<close>

definition stream_law ::
  "'k net_api \<Rightarrow> int \<times> int \<Rightarrow> (nat \<Rightarrow> 'k \<Rightarrow> bool) \<Rightarrow> ('k \<Rightarrow> nat) \<Rightarrow> ('k \<Rightarrow> byte list) \<Rightarrow> ('k \<Rightarrow> byte list) \<Rightarrow> bool" where
  "stream_law nt deadline ok delay unread sent \<longleftrightarrow>
     (\<forall>n k. ok n k \<longrightarrow> \<not> isCancellationRequested nt deadline k) \<and>
     (\<forall>n k b bs. ok n k \<longrightarrow> unread k = b # bs \<longrightarrow>
        (\<exists>k'. sk_recv (nt_sock nt) 1 k = (Inr [b], k') \<and> ok n k' \<and> unread k' = bs \<and> sent k' = sent k) \<or>
        (\<exists>ret k1 r k2. sk_recv (nt_sock nt) 1 k = (Inl ret, k1) \<and> ret < 0 \<and> sk_isWaitNeeded (nt_sock nt) k1 \<and>
           sk_isReadyToRead (nt_sock nt) 1 k1 = Some (r, k2) \<and> r \<noteq> PollError \<and>
           ok n k2 \<and> unread k2 = unread k \<and> sent k2 = sent k \<and> delay k2 < delay k)) \<and>
     (\<forall>n k bs. ok n k \<longrightarrow> bs \<noteq> [] \<longrightarrow> length bs \<le> n \<longrightarrow>
        (\<exists>ret k'. sk_send (nt_sock nt) bs k = (ret, k') \<and> unread k' = unread k \<and>
           (0 < ret \<and> ret \<le> int (length bs) \<and> ok (n - nat ret) k' \<and> sent k' = sent k @ take (nat ret) bs \<or>
            ret < 0 \<and> sk_isWaitNeeded (nt_sock nt) k' \<and> ok n k' \<and> sent k' = sent k \<and> delay k' < delay k)))"

lemma stream_time: "stream_law nt d ok delay unread sent \<Longrightarrow> ok n k \<Longrightarrow> \<not> isCancellationRequested nt d k"
  unfolding stream_law_def by blast

lemma stream_recv:
  assumes "stream_law nt d ok delay unread sent" and "ok n k" and "unread k = b # bs"
  obtains (byte) k' where "sk_recv (nt_sock nt) 1 k = (Inr [b], k')" and "ok n k'" and "unread k' = bs" and "sent k' = sent k"
  | (wait) ret k1 r k2 where "sk_recv (nt_sock nt) 1 k = (Inl ret, k1)" and "ret < 0" and "sk_isWaitNeeded (nt_sock nt) k1"
      and "sk_isReadyToRead (nt_sock nt) 1 k1 = Some (r, k2)" and "r \<noteq> PollError" and "ok n k2"
      and "unread k2 = unread k" and "sent k2 = sent k" and "delay k2 < delay k"
  using assms(1) [unfolded stream_law_def, THEN conjunct2, THEN conjunct1, rule_format, OF assms(2,3)] by blast

lemma stream_send:
  assumes "stream_law nt d ok delay unread sent" and "ok n k" and "bs \<noteq> []" and "length bs \<le> n"
  obtains (some) ret k' where "sk_send (nt_sock nt) bs k = (ret, k')" and "0 < ret" and "ret \<le> int (length bs)"
      and "ok (n - nat ret) k'" and "unread k' = unread k" and "sent k' = sent k @ take (nat ret) bs"
  | (wait) ret k' where "sk_send (nt_sock nt) bs k = (ret, k')" and "ret < 0" and "sk_isWaitNeeded (nt_sock nt) k'"
      and "ok n k'" and "unread k' = unread k" and "sent k' = sent k" and "delay k' < delay k"
  using assms(1) [unfolded stream_law_def, THEN conjunct2, THEN conjunct2, rule_format, OF assms(2-4)] by blast

lemma stream_read:
  assumes "stream_law nt d ok delay unread sent" and "ok n k" and "unread k = b # bs"
  obtains k' where "readByte nt d k = Some (Some b, k')" and "ok n k'" and "unread k' = bs" and "sent k' = sent k"
proof -
  have "\<exists>k'. readByte nt d k = Some (Some b, k') \<and> ok n k' \<and> unread k' = bs \<and> sent k' = sent k"
    using assms(2,3)
  proof (induction "delay k" arbitrary: k rule: less_induct)
    case less
    note time = stream_time [OF assms(1) less.prems(1)]
    from assms(1) less.prems show ?case
    proof (cases rule: stream_recv)
      case (byte k')
      with time show ?thesis by (subst readByte.simps) simp
    next
      case (wait ret k1 r k2)
      with time have "readByte nt d k = readByte nt d k2" by (subst readByte.simps) simp
      with less.hyps [of k2] wait less.prems show ?thesis by simp
    qed
  qed
  with that show ?thesis by blast
qed

lemma stream_write:
  assumes "stream_law nt d ok delay unread sent" and "ok (length bs + m) k" and "bs \<noteq> []"
  obtains k' where "writeBytes nt d bs k = Some (True, k')" and "ok m k'" and "unread k' = unread k" and "sent k' = sent k @ bs"
proof -
  have "\<exists>k'. writeBytes nt d bs k = Some (True, k') \<and> ok m k' \<and> unread k' = unread k \<and> sent k' = sent k @ bs"
    using assms(2,3)
  proof (induction "(length bs, delay k)" arbitrary: bs k rule: wf_induct_rule [OF wf_lex_prod [OF wf_less_than wf_less_than]])
    case 1
    note time = stream_time [OF assms(1) "1.prems"(1)] and IH = "1.hyps" [unfolded in_lex_prod less_than_iff]
    have room: "length bs \<le> length bs + m" by simp
    from assms(1) "1.prems" room show ?case
    proof (cases rule: stream_send)
      case (some ret k')
      define rest where "rest = drop (nat ret) bs"
      show ?thesis
      proof (cases "ret = int (length bs)")
        case True
        with some time show ?thesis by (subst writeBytes.simps) simp
      next
        case False
        with some have "length rest < length bs" "rest \<noteq> []" "length bs + m - nat ret = length rest + m"
          by (auto simp: rest_def)
        with IH [of rest k'] some(4) obtain k2 where
          "writeBytes nt d rest k' = Some (True, k2)" "ok m k2" "unread k2 = unread k'" "sent k2 = sent k' @ rest" by auto
        moreover have "writeBytes nt d bs k = writeBytes nt d rest k'"
          using some time False by (subst writeBytes.simps) (simp add: rest_def)
        ultimately show ?thesis using some by (simp add: rest_def)
      qed
    next
      case (wait ret k')
      with time have "writeBytes nt d bs k = writeBytes nt d bs k'" by (subst writeBytes.simps) simp
      with IH [of bs k'] wait "1.prems"(2) show ?thesis by simp
    qed
  qed
  with that show ?thesis by blast
qed

lemma chars_of_bytes_of [simp]: "chars_of (bytes_of s) = s"
  by (simp add: chars_of_def bytes_of_def comp_def unat_of_nat take_bit_nat_eq_self)

lemma bytes_of_append [simp]: "bytes_of (s @ r) = bytes_of s @ bytes_of r"
  by (simp add: bytes_of_def)

lemma bytes_of_Cons [simp]: "bytes_of (c # s) = of_nat (of_char c) # bytes_of s"
  by (simp add: bytes_of_def)

section \<open>Lines\<close>

definition lineFree :: "string \<Rightarrow> bool" where
  "lineFree s \<longleftrightarrow> cr \<notin> set s \<and> lf \<notin> set s"

lemma lineFree_append [simp]: "lineFree (s @ r) \<longleftrightarrow> lineFree s \<and> lineFree r"
  by (auto simp: lineFree_def)

lemma crlf_eq: "crlf = [cr, lf]"
  by (simp add: crlf_def cr_def lf_def)

text \<open>A line is read up to and with its end, whatever follows.\<close>

lemma lineGoesOn_free:
  assumes "lineFree line"
  shows "lineGoesOn line" and "lineGoesOn (line @ [cr])"
proof -
  have other: "line ! i \<noteq> cr \<and> line ! i \<noteq> lf" if "i < length line" for i
    using assms nth_mem [OF that] by (auto simp: lineFree_def)
  then show "lineGoesOn line" by (auto simp: lineGoesOn_def not_less)
  have "lf \<noteq> cr" by (simp add: lf_def cr_def)
  then show "lineGoesOn (line @ [cr])" using assms by (cases line rule: rev_cases) (auto simp: lineGoesOn_def lineFree_def nth_append)
qed

lemma lineGoesOn_end: "\<not> lineGoesOn (line @ crlf)"
  by (simp add: lineGoesOn_def crlf_eq nth_append)

lemma readUntil_step:
  assumes "stream_law nt d ok delay unread sent" and "ok n k" and "lineGoesOn acc" and "unread k = bytes_of (c # s) @ rest"
    and "bound = None \<or> length acc < the bound"
  obtains k' where "readUntil nt d bound acc k = readUntil nt d bound (acc @ [c]) k'"
    and "ok n k'" and "unread k' = bytes_of s @ rest" and "sent k' = sent k"
proof -
  from assms(4) have "unread k = of_nat (of_char c) # bytes_of s @ rest" by simp
  then obtain k' where k': "readByte nt d k = Some (Some (of_nat (of_char c)), k')" "ok n k'"
    "unread k' = bytes_of s @ rest" "sent k' = sent k" using stream_read [OF assms(1,2)] by metis
  have "chars_of [of_nat (of_char c)] = [c]" using chars_of_bytes_of [of "[c]"] by (simp add: bytes_of_def)
  with k'(1) assms(3,5) have "readUntil nt d bound acc k = readUntil nt d bound (acc @ [c]) k'"
    by (subst readUntil.simps) auto
  with k' that show ?thesis by blast
qed

lemma readUntil_line:
  assumes "stream_law nt d ok delay unread sent" and "ok n k" and "lineFree (acc @ line)" and "unread k = bytes_of (line @ crlf) @ rest"
    and "bound = None \<or> length (acc @ line) + 2 \<le> the bound"
  shows "\<exists>k'. readUntil nt d bound acc k = Some ((True, acc @ line @ crlf), k') \<and> ok n k' \<and> unread k' = rest \<and> sent k' = sent k"
  using assms(2-)
proof (induction line arbitrary: acc k)
  case Nil
  then have free: "lineFree acc" and ok: "ok n k" and room: "bound = None \<or> length acc < the bound" "bound = None \<or> length (acc @ [cr]) < the bound"
    and k: "unread k = bytes_of [cr, lf] @ rest" by (auto simp: crlf_eq)
  from readUntil_step [OF assms(1) ok lineGoesOn_free(1) [OF free] k room(1)] obtain k1 where
    k1: "readUntil nt d bound acc k = readUntil nt d bound (acc @ [cr]) k1" "ok n k1" "unread k1 = bytes_of [lf] @ rest" "sent k1 = sent k" .
  from readUntil_step [OF assms(1) k1(2) lineGoesOn_free(2) [OF free] k1(3) room(2)] obtain k2 where
    k2: "readUntil nt d bound (acc @ [cr]) k1 = readUntil nt d bound (acc @ crlf) k2" "ok n k2" "unread k2 = rest" "sent k2 = sent k1"
    by (auto simp: crlf_eq bytes_of_def)
  have "readUntil nt d bound (acc @ crlf) k2 = Some ((True, acc @ crlf), k2)"
    using lineGoesOn_end by (subst readUntil.simps) simp
  with k1 k2 show ?case by auto
next
  case (Cons c line)
  then have free: "lineFree acc" and ok: "ok n k" and k: "unread k = bytes_of (c # line @ crlf) @ rest"
    and room: "bound = None \<or> length acc < the bound" by auto
  from readUntil_step [OF assms(1) ok lineGoesOn_free(1) [OF free] k room] obtain k1 where
    k1: "readUntil nt d bound acc k = readUntil nt d bound (acc @ [c]) k1" "ok n k1" "unread k1 = bytes_of (line @ crlf) @ rest" "sent k1 = sent k" .
  from Cons.IH [of k1 "acc @ [c]"] k1 Cons.prems show ?case by simp
qed

section \<open>Headers\<close>

text \<open>A header as it is written, and the names and values that come back as they were.\<close>

definition headerText :: "string \<times> string \<Rightarrow> string" where
  "headerText h = fst h @ '': '' @ snd h @ crlf"

definition wf_header :: "string \<times> string \<Rightarrow> bool" where
  "wf_header h \<longleftrightarrow>
     fst h \<noteq> [] \<and> CHR '':'' \<notin> set (fst h) \<and> lineFree (fst h @ snd h) \<and> CHR 0x00 \<notin> set (fst h @ snd h) \<and>
     (snd h \<noteq> [] \<longrightarrow> hd (snd h) \<noteq> CHR '' '' \<and> \<not> isspace (last (snd h))) \<and> length (fst h @ snd h) \<le> 1019"

lemma isspace_ends: "isspace cr" "isspace lf" "isspace (CHR '' '')"
  by (simp_all add: isspace_def charCode_def cr_def lf_def)

lemma headerLine_text:
  assumes "wf_header h"
  shows "headerLine (headerText h) hs = headerSet (fst h) (snd h) hs"
proof -
  obtain c n v where h: "h = (c # n, v)" using assms by (cases h; cases "fst h") (auto simp: wf_header_def)
  from assms h have n: "\<forall>x \<in> set n. x \<noteq> CHR '':''" and nul: "CHR 0x00 \<notin> set (headerText h)"
    and v: "v \<noteq> [] \<longrightarrow> hd v \<noteq> CHR '' '' \<and> \<not> isspace (last v)"
    by (auto simp: wf_header_def headerText_def crlf_def)
  have find: "find_from (\<lambda>c. c = CHR '':'') (headerText h) 1 = Some (Suc (length n))"
    using n by (simp add: headerText_def h find_from_def find_idx_append)
  have space: "dropWhile (\<lambda>c. c = CHR '' '') ('' '' @ v @ crlf) = v @ crlf"
    using v by (cases v) (auto simp: crlf_def)
  have trim: "trimEnd (v @ crlf) = v"
    using v isspace_ends by (cases v rule: rev_cases) (auto simp: trimEnd_def crlf_eq)
  show ?thesis
    using space trim c_str_id [OF nul] find
    by (simp add: headerLine_def) (simp add: headerText_def h)
qed

lemma headerText_line:
  assumes "wf_header h"
  shows "headerText h = (fst h @ '': '' @ snd h) @ crlf" and "lineFree (fst h @ '': '' @ snd h)"
    and "length (fst h @ '': '' @ snd h) + 2 \<le> 1023"
    and "\<not> (headerText h ! 0 = cr \<and> headerText h ! 1 = lf)"
  using assms by (auto simp: headerText_def wf_header_def lineFree_def cr_def lf_def neq_Nil_conv)

definition storeHeaders :: "(string \<times> string) list \<Rightarrow> http_headers \<Rightarrow> http_headers" where
  "storeHeaders hs acc = foldl (\<lambda>m h. headerSet (fst h) (snd h) m) acc hs"

text \<open>A header of such lines, closed by an empty one, is read completely.\<close>

lemma parseHttpHeaders_text:
  assumes "stream_law nt d ok delay unread sent" and "ok n k" and "\<forall>h \<in> set hs. wf_header h"
    and "unread k = bytes_of (concat (map headerText hs) @ crlf) @ rest"
  shows "\<exists>k'. parseHttpHeaders nt d acc k = Some ((True, storeHeaders hs acc), k') \<and> ok n k' \<and>
           unread k' = rest \<and> sent k' = sent k"
  using assms(2-4)
proof (induction hs arbitrary: acc k)
  case Nil
  from readUntil_line [OF assms(1) Nil(1), of "[]" "[]" rest "Some 1023"] Nil(3) obtain k' where
    "readUntil nt d (Some 1023) [] k = Some ((True, crlf), k')" "ok n k'" "unread k' = rest" "sent k' = sent k"
    by (auto simp: lineFree_def)
  then show ?case by (subst parseHttpHeaders.simps) (simp add: crlf_eq storeHeaders_def)
next
  case (Cons h hs)
  from Cons.prems have wf: "wf_header h" by simp
  note line = headerText_line [OF wf]
  have "unread k = bytes_of ((fst h @ '': '' @ snd h) @ crlf) @ bytes_of (concat (map headerText hs) @ crlf) @ rest"
    using Cons.prems(3) line(1) by simp
  from readUntil_line [OF assms(1) Cons.prems(1) _ this, of "[]" "Some 1023"] line obtain k1 where
    k1: "readUntil nt d (Some 1023) [] k = Some ((True, headerText h), k1)" "ok n k1"
      "unread k1 = bytes_of (concat (map headerText hs) @ crlf) @ rest" "sent k1 = sent k" by auto
  have "parseHttpHeaders nt d acc k = parseHttpHeaders nt d (headerLine (headerText h) acc) k1"
    using k1(1) line(4) by (subst parseHttpHeaders.simps) auto
  moreover obtain k' where "parseHttpHeaders nt d (headerSet (fst h) (snd h) acc) k1 =
      Some ((True, storeHeaders hs (headerSet (fst h) (snd h) acc)), k')" "ok n k'"
      "unread k' = rest" "sent k' = sent k1"
    using Cons.IH [of k1 "headerSet (fst h) (snd h) acc"] Cons.prems k1(2,3) by auto
  ultimately show ?case using headerLine_text [OF wf] k1(4) by (simp add: storeHeaders_def)
qed

text \<open>What is found in a header that was read.\<close>

definition lowerName :: "string \<Rightarrow> string" where
  "lowerName s = map to_lower s"

lemma headerFind_read:
  "headerFind k (storeHeaders hs acc) =
     (case List.find (\<lambda>h. lowerName (fst h) = lowerName k) (rev hs) of
        Some h \<Rightarrow> Some (snd h) | None \<Rightarrow> headerFind k acc)"
  by (induction hs rule: rev_induct) (auto simp: storeHeaders_def headerFind_headerSet lowerName_def)

section \<open>The request\<close>

definition requestHeaders ::
  "string \<Rightarrow> http_headers \<Rightarrow> string \<Rightarrow> string \<Rightarrow> int \<Rightarrow> string \<Rightarrow> (string \<times> string) list" where
  "requestHeaders userAgent extraHeaders protocol host port key =
     (if headerFind ''Host'' extraHeaders = None then [(''Host'', bracketedHost host @ '':'' @ showInt port)] else []) @
     [(''Upgrade'', ''websocket''), (''Connection'', ''Upgrade''), (''Sec-WebSocket-Version'', ''13''),
      (''Sec-WebSocket-Key'', key)] @
     (if headerFind ''User-Agent'' extraHeaders = None then [(''User-Agent'', userAgent)] else []) @
     (if headerFind ''Origin'' extraHeaders = None
      then [(''Origin'', protocol @ ''://'' @ bracketedHost host @ '':'' @ showInt port)] else []) @
     extraHeaders"

lemma upgradeRequest_lines:
  "upgradeRequest userAgent extraHeaders protocol host path port key =
     (''GET '' @ path @ '' HTTP/1.1'') @ crlf @
     concat (map headerText (requestHeaders userAgent extraHeaders protocol host port key)) @ crlf"
proof -
  have "concat (map (\<lambda>(k, v). k @ '': '' @ v @ crlf) hs) = concat (map headerText hs)" for hs
    by (induction hs) (auto simp: headerText_def)
  then show ?thesis by (simp add: upgradeRequest_def requestHeaders_def headerText_def)
qed

text \<open>Nothing that was put into the request breaks its lines or replaces a header of the protocol.\<close>

definition own_names :: "string list" where
  "own_names = [''upgrade'', ''sec-websocket-version'', ''sec-websocket-key'']"

definition wf_request :: "string \<Rightarrow> http_headers \<Rightarrow> string \<Rightarrow> string \<Rightarrow> string \<Rightarrow> int \<Rightarrow> bool" where
  "wf_request userAgent extraHeaders protocol host path port \<longleftrightarrow>
     lineFree path \<and> CHR '' '' \<notin> set path \<and>
     (\<forall>h \<in> set (requestHeaders userAgent extraHeaders protocol host port []). wf_header h) \<and>
     (\<forall>h \<in> set extraHeaders. lowerName (fst h) \<notin> set own_names)"

lemma httpTrim_id: "lineFree s \<Longrightarrow> CHR '' '' \<notin> set s \<Longrightarrow> httpTrim s = s"
  unfolding httpTrim_def by (rule filter_True) (auto simp: lineFree_def)

lemma parseRequestLine_request:
  assumes "lineFree path" and "CHR '' '' \<notin> set path"
  shows "parseRequestLine ((''GET '' @ path @ '' HTTP/1.1'') @ crlf) = (''GET'', path, ''HTTP/1.1'')"
proof -
  have "split_on (CHR '' '') (''GET'' @ CHR '' '' # path @ CHR '' '' # ''HTTP/1.1'' @ crlf) =
      [''GET'', path, ''HTTP/1.1'' @ crlf]"
    using assms(2) by (subst split_on_append, simp)+ (simp add: split_on_free crlf_def)
  then have "tokens (CHR '' '') ((''GET '' @ path @ '' HTTP/1.1'') @ crlf) = [''GET'', path, ''HTTP/1.1'' @ crlf]"
    by (simp add: tokens_def)
  moreover have "httpTrim ''GET'' = ''GET''" "httpTrim (''HTTP/1.1'' @ crlf) = ''HTTP/1.1''" by code_simp+
  ultimately show ?thesis using httpTrim_id [OF assms] by (simp add: parseRequestLine_def)
qed

lemma find_none: "\<forall>h \<in> set hs. \<not> p h \<Longrightarrow> List.find p hs = None"
  by (induction hs) auto

lemma find_append: "List.find p (xs @ ys) = (case List.find p xs of None \<Rightarrow> List.find p ys | Some x \<Rightarrow> Some x)"
  by (induction xs) auto

lemma request_lookup:
  assumes "\<forall>h \<in> set extraHeaders. lowerName (fst h) \<notin> set own_names"
    and "H = storeHeaders (requestHeaders userAgent extraHeaders protocol host port key) []"
  shows "headerFind ''sec-websocket-key'' H = Some key" and "headerFind ''upgrade'' H = Some ''websocket''"
    and "headerFind ''sec-websocket-version'' H = Some ''13''"
proof -
  have lower: "lowerName ''sec-websocket-key'' = ''sec-websocket-key''" "lowerName ''upgrade'' = ''upgrade''"
    "lowerName ''sec-websocket-version'' = ''sec-websocket-version''" "lowerName ''Upgrade'' = ''upgrade''"
    "lowerName ''Connection'' = ''connection''" "lowerName ''Sec-WebSocket-Version'' = ''sec-websocket-version''"
    "lowerName ''Sec-WebSocket-Key'' = ''sec-websocket-key''" "lowerName ''User-Agent'' = ''user-agent''"
    "lowerName ''Origin'' = ''origin''" by code_simp+
  have skip: "List.find (\<lambda>h. lowerName (fst h) = n) (rev extraHeaders) = None" if "n \<in> set own_names" for n
    using assms(1) that by (intro find_none) auto
  note rules = assms(2) headerFind_read requestHeaders_def lower own_names_def skip find_append
  show "headerFind ''sec-websocket-key'' H = Some key" using skip by (simp add: rules)
  show "headerFind ''upgrade'' H = Some ''websocket''" using skip by (simp add: rules)
  show "headerFind ''sec-websocket-version'' H = Some ''13''" using skip by (simp add: rules)
qed

lemma insensitive_refl_websocket:
  "insensitiveStringCompare ''websocket'' ''WebSocket''" "extractInt 0 ''13'' = 13"
  by code_simp+

lemma request_accepted:
  assumes "\<forall>h \<in> set extraHeaders. lowerName (fst h) \<notin> set own_names"
  shows "badRequestHeaders (storeHeaders (requestHeaders userAgent extraHeaders protocol host port key) []) = None"
  using request_lookup [OF assms refl, of userAgent protocol host port key] insensitive_refl_websocket
  by (simp add: badRequestHeaders_def headerGet_def)

text \<open>The server reads the request and answers it.\<close>

lemma server_accepts:
  assumes "stream_law sv d ok delay unread sent" and "wf_request userAgent extraHeaders protocol host path port"
    and "wf_header (''Sec-WebSocket-Key'', key)"
    and "unread k = bytes_of (upgradeRequest userAgent extraHeaders protocol host path port key) @ rest"
    and "ok (length (upgradeAnswer (nt_userAgent sv) key) + m) k"
  shows "\<exists>r k'. serverExchange sv d None k = Some (r, k') \<and> in_success r \<and> in_uri r = path \<and> ok m k' \<and> unread k' = rest \<and>
           sent k' = sent k @ bytes_of (upgradeAnswer (nt_userAgent sv) key)"
proof -
  define hs where "hs = requestHeaders userAgent extraHeaders protocol host port key"
  from assms(2) have path: "lineFree path" "CHR '' '' \<notin> set path"
    and own: "\<forall>h \<in> set extraHeaders. lowerName (fst h) \<notin> set own_names" by (auto simp: wf_request_def)
  have wf: "\<forall>h \<in> set hs. wf_header h"
    using assms(2,3) by (auto simp: wf_request_def hs_def requestHeaders_def)
  have "lineFree (''GET '' @ path @ '' HTTP/1.1'')" using path by (simp add: lineFree_def cr_def lf_def)
  moreover have "unread k = bytes_of ((''GET '' @ path @ '' HTTP/1.1'') @ crlf) @ bytes_of (concat (map headerText hs) @ crlf) @ rest"
    using assms(4) by (simp add: upgradeRequest_lines hs_def)
  ultimately obtain k1 where k1: "readLine sv d k = Some ((True, (''GET '' @ path @ '' HTTP/1.1'') @ crlf), k1)"
    "ok (length (upgradeAnswer (nt_userAgent sv) key) + m) k1"
    "unread k1 = bytes_of (concat (map headerText hs) @ crlf) @ rest" "sent k1 = sent k"
    using readUntil_line [OF assms(1,5), of "[]" "''GET '' @ path @ '' HTTP/1.1''" _ None] by (auto simp: readLine_def)
  from parseHttpHeaders_text [OF assms(1) k1(2) wf k1(3), of "[]"] obtain k2 where
    k2: "parseHttpHeaders sv d [] k1 = Some ((True, storeHeaders hs []), k2)"
      "ok (length (bytes_of (upgradeAnswer (nt_userAgent sv) key)) + m) k2" "unread k2 = rest" "sent k2 = sent k1" by (auto simp: bytes_of_def)
  have key: "headerGet ''sec-websocket-key'' (storeHeaders hs []) = key"
    using request_lookup(1) [OF own refl, of userAgent protocol host port key] by (simp add: headerGet_def hs_def)
  have "bytes_of (upgradeAnswer (nt_userAgent sv) key) \<noteq> []" by (simp add: upgradeAnswer_def)
  then obtain k3 where
    k3: "writeBytes sv d (bytes_of (upgradeAnswer (nt_userAgent sv) key)) k2 = Some (True, k3)" "ok m k3" "unread k3 = unread k2"
      "sent k3 = sent k2 @ bytes_of (upgradeAnswer (nt_userAgent sv) key)" by (rule stream_write [OF assms(1) k2(2)])
  have "serverExchange sv d None k = Some (initResult True 200 [] (storeHeaders hs []) path, k3)"
    using k1(1) k2(1) k3(1) parseRequestLine_request [OF path]
      request_accepted [OF own, of userAgent protocol host port key, folded hs_def] key
    by (simp add: serverExchange_def badRequestLine_def answerRequest_def)
  with k1 k2 k3 show ?thesis by (simp add: initResult_def)
qed

section \<open>The answer\<close>

definition answerHeaders :: "string \<Rightarrow> string \<Rightarrow> (string \<times> string) list" where
  "answerHeaders userAgent key =
     [(''Sec-WebSocket-Accept'', generate (bytes_of key)), (''Upgrade'', ''websocket''), (''Connection'', ''Upgrade''),
      (''Server'', userAgent)]"

lemma upgradeAnswer_lines:
  "upgradeAnswer userAgent key =
     ''HTTP/1.1 101 Switching Protocols'' @ crlf @ concat (map headerText (answerHeaders userAgent key)) @ crlf"
  by (simp add: upgradeAnswer_def answerHeaders_def headerText_def)

lemma base64_safe: "set (base64 src) \<subseteq> insert (CHR ''='') (set b64)"
proof -
  have "set (b64group x y z) \<subseteq> insert (CHR ''='') (set b64)" for x y z using b64group_safe [of x y z] by blast
  then have "set (concat (map (\<lambda>i. b64group (src ! (3 * i)) (src ! (3 * i + 1)) (src ! (3 * i + 2))) [0..<6])) \<subseteq>
      insert (CHR ''='') (set b64)" by (auto simp del: insert_iff)
  moreover have "set [b64char (drop_bit 2 (src ! 18) AND 63),
      b64char (push_bit 4 (src ! 18 AND 3) OR drop_bit 4 (src ! 19 AND 240)),
      b64char (push_bit 2 (src ! 19 AND 15)), CHR ''=''] \<subseteq> insert (CHR ''='') (set b64)"
    by (simp only: list.set insert_subset empty_subsetI b64_safe insert_iff simp_thms)
  ultimately show ?thesis unfolding base64_def set_append by (rule Un_least)
qed

lemma length_base64: "length (base64 src) = 28"
  by (simp add: base64_def b64group_def eval_nat_numeral)

text \<open>A value in Base64 can stand in a header.\<close>

lemma base64_header:
  assumes "set v \<subseteq> insert (CHR ''='') (set b64)" and "length v \<le> 900" and "n \<noteq> []" and "length n \<le> 100"
    and "CHR '':'' \<notin> set n" and "lineFree n" and "CHR 0x00 \<notin> set n"
  shows "wf_header (n, v)"
proof -
  have safe: "\<forall>c \<in> insert (CHR ''='') (set b64). c \<noteq> cr \<and> c \<noteq> lf \<and> c \<noteq> CHR 0x00 \<and> c \<noteq> CHR '' '' \<and> \<not> isspace c"
    by (simp add: b64_def cr_def lf_def isspace_def charCode_def)
  then have "\<forall>c \<in> set v. c \<noteq> cr \<and> c \<noteq> lf \<and> c \<noteq> CHR 0x00 \<and> c \<noteq> CHR '' '' \<and> \<not> isspace c"
    using assms(1) by blast
  moreover from this have "v \<noteq> [] \<longrightarrow> hd v \<noteq> CHR '' '' \<and> \<not> isspace (last v)" by auto
  ultimately show ?thesis using assms(2-) by (auto simp: wf_header_def lineFree_def)
qed

lemma wf_answer:
  assumes "wf_header (''Server'', userAgent)"
  shows "\<forall>h \<in> set (answerHeaders userAgent key). wf_header h"
proof -
  have "wf_header (''Sec-WebSocket-Accept'', generate (bytes_of key))"
    by (rule base64_header)
      (simp_all only: generate_def Let_def base64_safe length_base64, simp_all add: lineFree_def cr_def lf_def)
  moreover have "wf_header (''Upgrade'', ''websocket'')" "wf_header (''Connection'', ''Upgrade'')"
    by (simp_all add: wf_header_def lineFree_def cr_def lf_def isspace_def charCode_def)
  ultimately show ?thesis using assms by (simp add: answerHeaders_def)
qed

lemma answer_lookup:
  assumes "H = storeHeaders (answerHeaders userAgent key) []"
  shows "headerFind ''connection'' H = Some ''Upgrade''" and "headerFind ''sec-websocket-accept'' H = Some (generate (bytes_of key))"
proof -
  have lower: "lowerName ''connection'' = ''connection''" "lowerName ''sec-websocket-accept'' = ''sec-websocket-accept''"
    "lowerName ''Sec-WebSocket-Accept'' = ''sec-websocket-accept''" "lowerName ''Upgrade'' = ''upgrade''"
    "lowerName ''Connection'' = ''connection''" "lowerName ''Server'' = ''server''" by code_simp+
  show "headerFind ''connection'' H = Some ''Upgrade''" "headerFind ''sec-websocket-accept'' H = Some (generate (bytes_of key))"
    by (simp_all add: assms headerFind_read answerHeaders_def lower)
qed

lemma client_accepts:
  assumes "stream_law nt d ok delay unread sent" and "wf_header (''Server'', userAgent)"
    and "key = Encode (bytes_of (nt_random nt k))"
    and "request = upgradeRequest (nt_userAgent nt) extraHeaders (up_protocol p) (up_host p) (up_path p) (up_port p) key"
    and "unread k = bytes_of (upgradeAnswer userAgent key) @ rest" and "ok (length request + m) k"
  shows "\<exists>r k'. exchange nt d url extraHeaders p deflate k = Some (r, k') \<and> in_success r \<and> in_http_status r = 101 \<and>
           in_uri r = up_path p \<and> ok m k' \<and> unread k' = rest \<and> sent k' = sent k @ bytes_of request"
proof -
  define line where "line = ''HTTP/1.1 101 Switching Protocols''"
  define hs where "hs = answerHeaders userAgent key"
  have "bytes_of request \<noteq> []" by (simp add: assms(4) upgradeRequest_def)
  moreover have "ok (length (bytes_of request) + m) k" using assms(6) by (simp add: bytes_of_def)
  ultimately obtain k1 where
    k1: "writeBytes nt d (bytes_of request) k = Some (True, k1)" "ok m k1" "unread k1 = unread k"
      "sent k1 = sent k @ bytes_of request" using stream_write [OF assms(1)] by metis
  have "unread k1 = bytes_of (line @ crlf) @ bytes_of (concat (map headerText hs) @ crlf) @ rest"
    using assms(5) k1(3) by (simp add: upgradeAnswer_lines line_def hs_def)
  moreover have "lineFree line" by (simp add: line_def lineFree_def cr_def lf_def)
  ultimately obtain k2 where k2: "readLine nt d k1 = Some ((True, line @ crlf), k2)" "ok m k2"
    "unread k2 = bytes_of (concat (map headerText hs) @ crlf) @ rest" "sent k2 = sent k1"
    using readUntil_line [OF assms(1) k1(2), of "[]" line _ None] by (auto simp: readLine_def)
  from parseHttpHeaders_text [OF assms(1) k2(2) wf_answer [OF assms(2)], of key rest "[]"] k2(3) obtain k3 where
    k3: "parseHttpHeaders nt d [] k2 = Some ((True, storeHeaders hs []), k3)" "ok m k3" "unread k3 = rest" "sent k3 = sent k2"
    by (auto simp: hs_def)
  have status: "parseStatusLine (line @ crlf) = (''HTTP/1.1'', 101)" unfolding line_def by code_simp
  have upgrade: "insensitiveStringCompare ''Upgrade'' ''Upgrade''" by (simp add: insensitive_lower)
  have "in_success (checkAnswer url (up_path p) key (line @ crlf) deflate True (storeHeaders hs [])) \<and>
      in_http_status (checkAnswer url (up_path p) key (line @ crlf) deflate True (storeHeaders hs [])) = 101 \<and>
      in_uri (checkAnswer url (up_path p) key (line @ crlf) deflate True (storeHeaders hs [])) = up_path p"
    using answer_lookup [OF refl, of userAgent key] status upgrade by (simp add: checkAnswer_def headerGet_def hs_def initResult_def)
  moreover have "exchange nt d url extraHeaders p deflate k =
      Some (checkAnswer url (up_path p) key (line @ crlf) deflate True (storeHeaders hs []), k3)"
    using k1(1) k2(1) k3(1) status assms(3,4) by (simp add: exchange_def Let_def)
  ultimately show ?thesis using k1 k2 k3 by simp
qed

end
