(* ===== verification/IxSocketDemo.thy ===== *)
theory IxSocketDemo
  imports IxSocketProofs IxServerProofs
begin

text \<open>
  A small system on which the sockets of the library are run. Its state is what the peer has sent and was not
  read yet, what was sent to the peer, the clock in milliseconds, the numbers in the pipe, and \<open>errno\<close>. What the
  peer sends is there at once, \<open>fits\<close> tells how many bytes it takes altogether before the connection breaks, and
  time passes only while a poll waits.
\<close>

record kernel =
  kn_unread :: "byte list"
  kn_sent :: "byte list"
  kn_clock :: int
  kn_queue :: "uint64 list"
  kn_errno :: int

definition kernel_init :: "byte list \<Rightarrow> kernel" where
  "kernel_init unread = \<lparr>kn_unread = unread, kn_sent = [], kn_clock = 0, kn_queue = [], kn_errno = 0\<rparr>"

definition kernelPoll :: "(int \<times> bool) list \<Rightarrow> int \<Rightarrow> kernel \<Rightarrow> ((int \<times> revents list) \<times> kernel) option" where
  "kernelPoll fds ms e =
     (if length fds = 2 \<and> kn_queue e \<noteq> [] then Some ((1, [no_events, no_events\<lparr>rv_in := True\<rparr>]), e)
      else if \<not> snd (hd fds) then Some ((1, [no_events\<lparr>rv_out := True\<rparr>, no_events]), e)
      else if kn_unread e \<noteq> [] then Some ((1, [no_events\<lparr>rv_in := True\<rparr>, no_events]), e)
      else if ms < 0 then None
      else Some ((0, [no_events, no_events]), e\<lparr>kn_clock := kn_clock e + ms\<rparr>))"

definition kernelTake :: "(nat \<Rightarrow> bool) \<Rightarrow> byte list \<Rightarrow> kernel \<Rightarrow> int \<times> kernel" where
  "kernelTake fits bs e =
     (if fits (length (kn_sent e) + length bs) then (int (length bs), e\<lparr>kn_sent := kn_sent e @ bs\<rparr>) else (- 1, e))"

definition kernelGive :: "nat \<Rightarrow> kernel \<Rightarrow> (int + byte list) \<times> kernel" where
  "kernelGive n e =
     (if kn_unread e = [] then (Inl (- 1), e\<lparr>kn_errno := EWOULDBLOCK\<rparr>)
      else (Inr (take n (kn_unread e)), e\<lparr>kn_unread := drop n (kn_unread e)\<rparr>))"

definition kernel_os :: "(nat \<Rightarrow> bool) \<Rightarrow> kernel os_api" where
  "kernel_os fits =
     \<lparr>os_poll = kernelPoll, os_send = (\<lambda>fd. kernelTake fits), os_recv = (\<lambda>fd. kernelGive), os_close = (\<lambda>fd e. e),
      os_pipe = (\<lambda>e. (Some (4, 5), e)), os_nonblock = (\<lambda>fd e. (True, e)),
      os_write = (\<lambda>fd v e. (8, e\<lparr>kn_queue := kn_queue e @ [v]\<rparr>)),
      os_read = (\<lambda>fd e. if kn_queue e = [] then ((- 1, 0), e\<lparr>kn_errno := EAGAIN\<rparr>)
                        else ((8, hd (kn_queue e)), e\<lparr>kn_queue := tl (kn_queue e)\<rparr>)),
      os_signals = (\<lambda>e. 0), os_errno = kn_errno, os_setErrno = (\<lambda>n e. e\<lparr>kn_errno := n\<rparr>), os_strerror = (\<lambda>n. ''error''),
      os_soError = (\<lambda>fd e. ((0, 0), e)), os_isNumericHost = (\<lambda>host. False),
      os_getaddrinfo = (\<lambda>flags host sport e. Inr [''192.0.2.1'']), os_gai_strerror = (\<lambda>n. ''not found''),
      os_startLookup = (\<lambda>e. e), os_lookupDone = Some, os_sleep = (\<lambda>ms e. e\<lparr>kn_clock := kn_clock e + ms\<rparr>),
      os_socket = (\<lambda>a e. (3, e)), os_nodelay = (\<lambda>fd e. e), os_connect = (\<lambda>fd a e. (0, e)),
      os_steady = kn_clock, os_system = kn_clock, os_time = (\<lambda>e. 0), os_random = (\<lambda>e. replicate 16 CHR ''x''),
      os_requested = (\<lambda>e. False), ssl_initialized = (\<lambda>e. True), ssl_context = (\<lambda>e. (Inr (), e)),
      ssl_setup = (\<lambda>e. (Inr (), e)), ssl_new = (\<lambda>fd host e. (True, e)), ssl_connect = (\<lambda>e. ((1, SSL_NONE), e)),
      ssl_checkCert = (\<lambda>host e. (Inr (), e)), ssl_errorText = (\<lambda>n e. ''error''),
      ssl_write = (\<lambda>bs e. let (ret, e1) = kernelTake fits bs e in ((ret, if ret < 0 then SSL_OTHER else SSL_NONE), e1)),
      ssl_read = (\<lambda>n e. let (r, e1) = kernelGive n e in ((r, if kn_unread e = [] then SSL_WANT_READ else SSL_NONE), e1)),
      ssl_free = (\<lambda>e. e)\<rparr>"

definition kernel_net :: "(nat \<Rightarrow> bool) \<Rightarrow> kernel sockets net_api" where
  "kernel_net fits = socket_net (kernel_os fits) ''ixwebsocket''"

text \<open>Before there is a socket; a socket that is connected over TLS.\<close>

definition no_socket :: "byte list \<Rightarrow> kernel sockets" where
  "no_socket unread = (noSocket, kernel_init unread)"

definition tlsSocket :: socket where
  "tlsSocket = \<lparr>so_sockfd = 3, so_readFd = 4, so_writeFd = 5, so_tls = True, so_context = True, so_connection = True\<rparr>"

lemma kernel_net_simps [simp]:
  "nt_sock (kernel_net fits) = socket_api (kernel_os fits)" "nt_random (kernel_net fits) k = replicate 16 CHR ''x''"
  "nt_userAgent (kernel_net fits) = ''ixwebsocket''" "nt_clock (kernel_net fits) k = kn_clock (snd k)"
  "nt_requested (kernel_net fits) k = False"
  by (simp_all add: kernel_net_def kernel_os_def)

lemma kernel_os_simps [simp]:
  "os_poll (kernel_os fits) = kernelPoll" "os_send (kernel_os fits) fd = kernelTake fits" "os_recv (kernel_os fits) fd = kernelGive"
  "os_close (kernel_os fits) fd e = e" "os_pipe (kernel_os fits) e = (Some (4, 5), e)" "os_nonblock (kernel_os fits) fd e = (True, e)"
  "os_write (kernel_os fits) fd v e = (8, e\<lparr>kn_queue := kn_queue e @ [v]\<rparr>)"
  "os_read (kernel_os fits) fd e =
     (if kn_queue e = [] then ((- 1, 0), e\<lparr>kn_errno := EAGAIN\<rparr>) else ((8, hd (kn_queue e)), e\<lparr>kn_queue := tl (kn_queue e)\<rparr>))"
  "os_signals (kernel_os fits) e = 0" "os_errno (kernel_os fits) e = kn_errno e"
  "os_setErrno (kernel_os fits) n e = e\<lparr>kn_errno := n\<rparr>" "os_soError (kernel_os fits) fd e = ((0, 0), e)"
  "os_getaddrinfo (kernel_os fits) flags host sport e = Inr [''192.0.2.1'']" "\<not> os_isNumericHost (kernel_os fits) host"
  "os_startLookup (kernel_os fits) e = e" "os_lookupDone (kernel_os fits) e = Some e"
  "os_sleep (kernel_os fits) ms e = e\<lparr>kn_clock := kn_clock e + ms\<rparr>" "os_socket (kernel_os fits) a e = (3, e)"
  "os_nodelay (kernel_os fits) fd e = e" "os_connect (kernel_os fits) fd a e = (0, e)"
  "os_steady (kernel_os fits) e = kn_clock e" "os_system (kernel_os fits) e = kn_clock e" "\<not> os_requested (kernel_os fits) e"
  "ssl_initialized (kernel_os fits) e" "ssl_context (kernel_os fits) e = (Inr (), e)" "ssl_setup (kernel_os fits) e = (Inr (), e)"
  "ssl_new (kernel_os fits) fd host e = (True, e)" "ssl_connect (kernel_os fits) e = ((1, SSL_NONE), e)"
  "ssl_checkCert (kernel_os fits) host e = (Inr (), e)" "ssl_free (kernel_os fits) e = e"
  by (simp_all add: kernel_os_def)

lemma kernel_ssl_simps [simp]:
  "ssl_write (kernel_os fits) bs e =
     (let (ret, e1) = kernelTake fits bs e in ((ret, if ret < 0 then SSL_OTHER else SSL_NONE), e1))"
  "ssl_read (kernel_os fits) n e =
     (let (r, e1) = kernelGive n e in ((r, if kn_unread e = [] then SSL_WANT_READ else SSL_NONE), e1))"
  by (simp_all add: kernel_os_def)

lemma tlsSocket_simps [simp]:
  "so_sockfd tlsSocket = 3" "so_readFd tlsSocket = 4" "so_writeFd tlsSocket = 5" "so_tls tlsSocket" "so_context tlsSocket"
  "so_connection tlsSocket"
  by (simp_all add: tlsSocket_def)

lemma kernel_init_simps [simp]:
  "kn_unread (kernel_init u) = u" "kn_sent (kernel_init u) = []" "kn_clock (kernel_init u) = 0" "kn_queue (kernel_init u) = []"
  "kn_errno (kernel_init u) = 0"
  by (simp_all add: kernel_init_def)

text \<open>A socket is made and connected.\<close>

lemma kernel_create:
  "nt_create (kernel_net fits) tls (no_socket u) =
     (Inr (), (newSocket tls)\<lparr>so_readFd := 4, so_writeFd := 5\<rparr>, kernel_init u)"
  by (simp add: kernel_net_def createSocket_def pipe_init_def no_socket_def noSocket_def destroySocket_def socketClose_def pipe_close_def
      newSocket_def)

lemma kernel_connectWait:
  assumes "kn_clock e \<le> fst d + 1000 * snd d"
  shows "connectWait (kernel_os fits) d 3 e = Some ((3, ''no error''), e)"
proof -
  have "\<not> cancelled (kernel_os fits) d e" using assms by (simp add: cancelled_def)
  moreover have "socketPoll (kernel_os fits) False 10 3 None e = Some (PollReadyForWrite, e)"
    by (simp add: socketPoll_def kernelPoll_def no_events_def)
  ultimately show ?thesis by (subst connectWait.simps) simp
qed

lemma kernel_connect:
  assumes "0 \<le> secs"
  shows "nt_connect (kernel_net fits) (0, secs) host port ((newSocket True)\<lparr>so_readFd := 4, so_writeFd := 5\<rparr>, kernel_init u) =
     Some ((True, ''no error''), (tlsSocket, kernel_init u))"
proof -
  have "connectToHost (kernel_os fits) (0, secs) host port (kernel_init u) = Some ((3, ''no error''), kernel_init u)"
    using kernel_connectWait [of "kernel_init u" "(0, secs)" fits] assms
    by (simp add: connectToHost_def connectToAddress_def configureSocket_def resolve_def resolveWait.simps cancelled_def
        getAddrInfo_def)
  moreover have "tlsHandshake (kernel_os fits) (0, secs) host (kernel_init u) = Some ((True, []), kernel_init u)"
    using assms by (subst tlsHandshake.simps) (simp add: cancelled_def)
  ultimately show ?thesis
    by (simp add: kernel_net_def socketConnect_def tlsConnect_def newSocket_def tlsSocket_def)
qed

section \<open>What it provides\<close>

lemma kernel_send:
  "socketSend (kernel_os fits) bs (tlsSocket, e) =
     (if fits (length (kn_sent e) + length bs) then (int (length bs), (tlsSocket, e\<lparr>kn_sent := kn_sent e @ bs\<rparr>))
      else (- 1, (tlsSocket, e)))"
  by (simp add: socketSend_def kernelTake_def)

lemma kernel_recv:
  "socketRecv (kernel_os fits) n (tlsSocket, e) =
     (if kn_unread e = [] then (Inl (- 1), (tlsSocket, e\<lparr>kn_errno := EWOULDBLOCK\<rparr>))
      else (Inr (take n (kn_unread e)), (tlsSocket, e\<lparr>kn_unread := drop n (kn_unread e)\<rparr>)))"
  by (simp add: socketRecv_def kernelGive_def)

lemma kernel_poll:
  "isReadyToRead (kernel_os fits) ms (tlsSocket, e) =
     (case kn_queue e of
        v # vs \<Rightarrow> Some (if v = 1 then PollSendRequest else if v = 2 then PollCloseRequest else PollReadyForRead,
                   (tlsSocket, e\<lparr>kn_queue := vs\<rparr>))
      | [] \<Rightarrow> if kn_unread e \<noteq> [] then Some (PollReadyForRead, (tlsSocket, e))
             else if ms < 0 then None else Some (PollTimeout, (tlsSocket, e\<lparr>kn_clock := kn_clock e + ms\<rparr>)))"
  by (cases "kn_queue e")
    (simp_all add: isReadyToRead_def isReadyTo_def socketPoll_def readSelectInterruptRequest_def pipe_read_def wakeUpCode_def
      kernelPoll_def no_events_def)

text \<open>A connection that is up before the deadline, with room for \<open>n\<close> bytes.\<close>

definition kernelUp :: "(nat \<Rightarrow> bool) \<Rightarrow> int \<Rightarrow> nat \<Rightarrow> kernel sockets \<Rightarrow> bool" where
  "kernelUp fits deadline n k \<longleftrightarrow>
     fst k = tlsSocket \<and> kn_queue (snd k) = [] \<and> kn_errno (snd k) = 0 \<and> kn_clock (snd k) \<le> deadline \<and>
     (\<forall>m \<le> n. fits (length (kn_sent (snd k)) + m))"

lemma kernel_stream_law:
  "stream_law (kernel_net fits) d (kernelUp fits (fst d + 1000 * snd d)) (\<lambda>k. 0) (\<lambda>k. kn_unread (snd k)) (\<lambda>k. kn_sent (snd k))"
  unfolding stream_law_def
proof (intro conjI allI impI)
  fix n k assume "kernelUp fits (fst d + 1000 * snd d) n k"
  then show "\<not> isCancellationRequested (kernel_net fits) d k" by (simp add: kernelUp_def isCancellationRequested_def)
next
  fix n k b bs assume "kernelUp fits (fst d + 1000 * snd d) n k" "kn_unread (snd k) = b # bs"
  then have "\<exists>k'. sk_recv (nt_sock (kernel_net fits)) 1 k = (Inr [b], k') \<and> kernelUp fits (fst d + 1000 * snd d) n k' \<and>
      kn_unread (snd k') = bs \<and> kn_sent (snd k') = kn_sent (snd k)"
    by (cases k) (auto simp: kernelUp_def kernel_recv)
  then show "(\<exists>k'. sk_recv (nt_sock (kernel_net fits)) 1 k = (Inr [b], k') \<and> kernelUp fits (fst d + 1000 * snd d) n k' \<and>
      kn_unread (snd k') = bs \<and> kn_sent (snd k') = kn_sent (snd k)) \<or>
    (\<exists>ret k1 r k2. sk_recv (nt_sock (kernel_net fits)) 1 k = (Inl ret, k1) \<and> ret < 0 \<and> sk_isWaitNeeded (nt_sock (kernel_net fits)) k1 \<and>
      sk_isReadyToRead (nt_sock (kernel_net fits)) 1 k1 = Some (r, k2) \<and> r \<noteq> PollError \<and> kernelUp fits (fst d + 1000 * snd d) n k2 \<and>
      kn_unread (snd k2) = kn_unread (snd k) \<and> kn_sent (snd k2) = kn_sent (snd k) \<and> 0 < (0 :: nat))" ..
next
  fix n k and bs :: "byte list"
  assume up: "kernelUp fits (fst d + 1000 * snd d) n k" and bs: "bs \<noteq> []" "length bs \<le> n"
  then obtain e where k: "k = (tlsSocket, e)" by (cases k) (auto simp: kernelUp_def)
  have fits: "fits (length (kn_sent e) + m)" if "m \<le> n" for m using up that by (simp add: kernelUp_def k)
  have more: "fits (length (kn_sent e) + length bs + m)" if "m \<le> n - length bs" for m
    using fits [of "length bs + m"] that bs(2) by (simp add: add.assoc)
  show "\<exists>ret k'. sk_send (nt_sock (kernel_net fits)) bs k = (ret, k') \<and> kn_unread (snd k') = kn_unread (snd k) \<and>
      (0 < ret \<and> ret \<le> int (length bs) \<and> kernelUp fits (fst d + 1000 * snd d) (n - nat ret) k' \<and>
         kn_sent (snd k') = kn_sent (snd k) @ take (nat ret) bs \<or>
       ret < 0 \<and> sk_isWaitNeeded (nt_sock (kernel_net fits)) k' \<and> kernelUp fits (fst d + 1000 * snd d) n k' \<and>
         kn_sent (snd k') = kn_sent (snd k) \<and> 0 < (0 :: nat))"
    using fits [OF bs(2)] more up bs(1) by (simp add: k kernel_send kernelUp_def)
qed

lemma kernel_takes_reported: "takes_reported (kernel_os fits) kn_sent"
  by (auto simp: takes_reported_def kernelTake_def split: if_splits)

text \<open>With nothing left to read it is quiet.\<close>

lemma kernel_quiet: "quiet_system (kernel_os (\<lambda>m. True)) tlsSocket (\<lambda>e. kn_unread e = []) kn_queue"
  unfolding quiet_system_def
  by (intro conjI allI impI)
    (auto simp: kernel_send kernelPoll_def no_events_def split: if_splits)

lemmas kernel_peer_silent = quiet_socket_peer_silent [OF kernel_quiet, folded kernel_net_simps(1)]
lemmas kernel_send_law = socket_send_law [OF kernel_takes_reported, folded kernel_net_simps(1)]

lemma kernel_quietSocket:
  "quietSocket tlsSocket (\<lambda>e. kn_unread e = []) kn_queue (tlsSocket, e) \<longleftrightarrow> kn_unread e = [] \<and> set (kn_queue e) \<subseteq> {1}"
  by (simp add: quietSocket_def wakeUpCode_def)

end
