(* ===== verification/IxSessionProperties.thy ===== *)
theory IxSessionProperties
  imports AisSupervisor IxDemo IxUrlProofs IxKeyGenProofs IxSocketDemo
begin

text \<open>
  The properties of a whole run of the WebSocket: the address it connects to, the answer that it
  accepts, what is reported from its beginning to its end, and how a run ends or fails to end when
  the peer falls silent.
\<close>

section \<open>The address\<close>

text \<open>C35. A URL put together from a scheme, a host name, digits of a port, a path and a query is taken apart
  into the same parts: the scheme in lower case, the request path with the query, and the port given,
  or the one of the scheme when none is given or the number is no port. The number is one that an
  \<open>int\<close> holds: beyond that the code's \<open>atoi\<close> is undefined in C.\<close>

theorem url_roundtrip:
  assumes "IsSchemeValid scheme" and "list_all authorityChar host" and "host \<noteq> []" and "list_all isdigit port"
    and "\<forall>c \<in> set path. c \<noteq> CHR ''?'' \<and> c \<noteq> CHR ''#''" and "path = [] \<or> hd path \<noteq> CHR ''/''"
    and "CHR ''#'' \<notin> set query" and "decimalValue port < 2 ^ 31"
  shows "parse (url_of scheme host port path query) = Some
           \<lparr>up_protocol = map to_lower scheme, up_host = host, up_path = CHR ''/'' # path @ queryPart query,
            up_query = query,
            up_port = (if 0 < decimalValue port \<and> decimalValue port \<le> 65535 then int (decimalValue port)
                       else getProtocolPort (map to_lower scheme)),
            up_isDefaultPort = (if 0 < decimalValue port \<and> decimalValue port \<le> 65535
                                then int (decimalValue port) = getProtocolPort (map to_lower scheme) else True)\<rparr>"
proof -
  have "requestPath path query = CHR ''/'' # path @ queryPart query"
    using assms(6) by (auto simp: requestPath_def queryPart_def)
  moreover have "c_str port = port"
    using assms(4) by (intro c_str_id) (auto simp: list_all_iff isdigit_def charCode_def of_char_def)
  with atoi_digits [OF assms(4,8)] have "atoi (c_str port) = int (decimalValue port)" by simp
  ultimately show ?thesis
    unfolding parse_def ParseURL_ok [OF assms(1-5,7)] by (auto simp: Let_def GetPort_def)
qed

theorem url_roundtrip_witness:
  "parse kAisUrl = Some \<lparr>up_protocol = ''wss'', up_host = ''ais.openwaters.io'', up_path = ''/v1/stream'',
     up_query = [], up_port = 443, up_isDefaultPort = True\<rparr>"
proof -
  have url: "kAisUrl = url_of ''wss'' ''ais.openwaters.io'' [] ''v1/stream'' []"
    by (simp add: kAisUrl_def url_of_def portPart_def queryPart_def)
  have "IsSchemeValid ''wss''" "list_all authorityChar ''ais.openwaters.io''" "map to_lower ''wss'' = ''wss''"
    "decimalValue [] = 0" "getProtocolPort ''wss'' = 443" "queryPart [] = []"
    by (simp_all add: IsSchemeValid_def authorityChar_def isalpha_def charCode_def to_lower_def decimalValue_def
        getProtocolPort_def queryPart_def)
  with url_roundtrip [of "''wss''" "''ais.openwaters.io''" "[]" "''v1/stream''" "[]"] url show ?thesis by simp
qed

section \<open>The upgrade\<close>

text \<open>What \<open>checkAnswer\<close> accepts of a status line and a header.\<close>

lemma checkAnswer_success:
  assumes "length raw = 16"
  shows "in_success (checkAnswer url path (Encode raw) line deflate valid headers) \<longleftrightarrow>
           valid \<and> snd (parseStatusLine line) = 101 \<and>
           (\<exists>v. headerFind ''connection'' headers = Some v \<and> map to_lower v = ''upgrade'') \<and>
           headerGet ''sec-websocket-accept'' headers = base64 (fips_sha1 (bytes_of (Encode raw) @ websocketGuid))"
proof -
  have key: "generate (bytes_of (Encode raw)) = base64 (fips_sha1 (bytes_of (Encode raw) @ websocketGuid))"
    unfolding bytes_of_def using bytes_of_Encode(1) [OF assms] bytes_of_Encode(2) [of raw] by (rule generate_sha1)
  have "map to_lower ''Upgrade'' = ''upgrade''" by code_simp
  then show ?thesis
    by (auto simp: checkAnswer_def Let_def initResult_def key insensitive_lower headerGet_def split: option.splits)
qed

text \<open>C36. The upgrade on a connected socket succeeds exactly when the request could be written, a status
  line was read, it says HTTP/1.1 and status 101, the header after it was read to its end, the header's
  Connection value is Upgrade in any spelling, and its Sec-WebSocket-Accept value is the Base64 of the
  SHA-1, as FIPS 180 defines it, of the key sent (of 16 random characters) and the protocol's GUID: only a server that saw
  this request can give it. In every other case, among them an answer that says HTTP/1.0, the
  exchange does not succeed.\<close>

theorem upgrade_accepted_iff:
  assumes "length (nt_random nt k) = 16"
  shows "(\<exists>r k'. exchange nt d url extra p deflate k = Some (r, k') \<and> in_success r) \<longleftrightarrow>
           (let key = Encode (bytes_of (nt_random nt k));
                request = upgradeRequest (nt_userAgent nt) extra (up_protocol p) (up_host p) (up_path p) (up_port p) key
            in \<exists>k1 line k2 headers k3.
                 writeBytes nt d (bytes_of request) k = Some (True, k1) \<and>
                 readLine nt d k1 = Some ((True, line), k2) \<and> parseStatusLine line = (''HTTP/1.1'', 101) \<and>
                 parseHttpHeaders nt d [] k2 = Some ((True, headers), k3) \<and>
                 (\<exists>v. headerFind ''connection'' headers = Some v \<and> map to_lower v = ''upgrade'') \<and>
                 headerGet ''sec-websocket-accept'' headers = base64 (fips_sha1 (bytes_of key @ websocketGuid)))"
proof -
  have "length (bytes_of (nt_random nt k)) = 16" using assms by (simp add: bytes_of_def)
  note answer = checkAnswer_success [OF this]
  have failed: "\<not> in_success (initResult False status e h u)" "\<not> in_success (tooOld url line)" for status e h u url line
    by (simp_all add: initResult_def tooOld_def split: prod.split)
  show ?thesis
    unfolding exchange_def Let_def
    by (auto simp: answer failed prod_eq_iff split: option.splits prod.splits bool.splits if_splits)
qed

text \<open>A system that delivers what a server of the library answers.\<close>

theorem upgrade_accepted_iff_witness:
  "\<exists>k1 line k2 headers k3.
     readLine (kernel_net (\<lambda>m. True)) (0, 3) k1 = Some ((True, line), k2) \<and> parseStatusLine line = (''HTTP/1.1'', 101) \<and>
     parseHttpHeaders (kernel_net (\<lambda>m. True)) (0, 3) [] k2 = Some ((True, headers), k3) \<and>
     headerGet ''sec-websocket-accept'' headers =
       base64 (fips_sha1 (bytes_of (Encode (bytes_of (replicate 16 CHR ''x''))) @ websocketGuid))"
proof -
  define k where "k = (tlsSocket, kernel_init (bytes_of (upgradeAnswer ''ixwebsocket'' (Encode (bytes_of (replicate 16 CHR ''x''))))))"
  define p where "p = \<lparr>up_protocol = ''wss'', up_host = ''h'', up_path = ''/v1'', up_query = [], up_port = 443, up_isDefaultPort = True\<rparr>"
  have random: "nt_random (kernel_net (\<lambda>m. True)) k = replicate 16 CHR ''x''" by simp
  have "wf_header (''Server'', ''ixwebsocket'')" by code_simp
  moreover have "kernelUp (\<lambda>m. True) 3000 n k" for n by (simp add: kernelUp_def k_def)
  moreover have "kn_unread (snd k) = bytes_of (upgradeAnswer ''ixwebsocket'' (Encode (bytes_of (nt_random (kernel_net (\<lambda>m. True)) k)))) @ []"
    by (simp add: k_def)
  ultimately have "\<exists>r k'. exchange (kernel_net (\<lambda>m. True)) (0, 3) [] [] p True k = Some (r, k') \<and> in_success r"
    using client_accepts [OF kernel_stream_law [of "\<lambda>m. True" "(0, 3)"] _ refl refl, where userAgent = "''ixwebsocket''" and
        k = k and rest = "[]" and m = 0 and url = "[]" and extraHeaders = "[]" and p = p and deflate = True] by auto
  from this [unfolded upgrade_accepted_iff [of "kernel_net (\<lambda>m. True)" k, unfolded random length_replicate, OF refl]]
  show ?thesis unfolding Let_def random by blast
qed

section \<open>What a run reports\<close>

text \<open>C37. A run without automatic reconnection makes one attempt to connect. Whatever the network does and
  whenever other threads send or close, the messages are either a single error, and the run ends, or
  an opening first, no second opening and no error after it, and at least one close before it ends.\<close>

theorem run_reports:
  assumes "ws_session sk (connectToUrl nt) w0 pc w" and "ready_to_run w0"
  shows "ws_events w = [] \<and> pc = RunCheck True \<or>
         map wm_type (ws_events w) = [MtError] \<and> pc = RunDone \<or>
         (\<exists>ts. map wm_type (ws_events w) = MtOpen # ts \<and> MtOpen \<notin> set ts \<and> MtError \<notin> set ts \<and>
            (pc = RunDone \<longrightarrow> MtClose \<in> set ts))"
  using assms by (rule url.session_log)

definition demo_net :: "byte list net_api" where
  "demo_net =
     \<lparr>nt_sock = demo_socket, nt_create = (\<lambda>tls k. (Inr (), [])),
      nt_connect = (\<lambda>deadline host port k. Some ((False, ''refused''), k)),
      nt_clock = (\<lambda>k. 0), nt_random = (\<lambda>k. replicate 16 CHR ''x''), nt_requested = (\<lambda>k. False),
      nt_userAgent = ''ixwebsocket''\<rparr>"

definition demo_ws :: "byte list websocket" where
  "demo_ws = disableAutomaticReconnection (websocket_init demo_socket [])"

theorem run_reports_witness:
  "\<exists>w. ws_session demo_socket (connectToUrl demo_net) demo_ws RunDone w \<and> map wm_type (ws_events w) = [MtError]"
proof -
  have init: "t_readyState (ws_transport demo_ws) = CLOSED" "ws_urlText demo_ws = []" "\<not> ws_stop demo_ws"
    "\<not> ws_automaticReconnection demo_ws" "t_out (ws_transport demo_ws) = []" "ws_events demo_ws = []"
    "ws_pingIntervalSecs demo_ws = - 1"
    by (simp_all add: demo_ws_def websocket_init_def disableAutomaticReconnection_def transport_init_def)
  then have ready: "ready_to_run demo_ws" by (simp add: ready_to_run_def)
  have "parse [] = None" by (simp add: parse_def ParseURL_def parseScheme_def find_from_def rbind_def)
  then have "connectToUrl demo_net [] h s t = Some (initResult False 0 (''Could not parse url: '' @ [CHR 0x27] @ [CHR 0x27]) [] [], t)"
    for h s t by (simp add: connectToUrl_def eval_nat_numeral)
  then obtain r w1 where c: "wsConnect demo_socket (connectToUrl demo_net) (ws_handshakeTimeoutSecs demo_ws) demo_ws = Some (r, w1)"
    "\<not> in_success r" by (simp add: wsConnect_def init Let_def initResult_def)
  obtain w where run: "ws_session demo_socket (connectToUrl demo_net) demo_ws RunDone w" and w: "length (ws_events w) = 1"
    using url.refused_run [OF ready c] by (elim exE conjE)
  have one: "length (map wm_type (ws_events w)) = 1" using w by simp
  from run_reports [OF run ready] have "map wm_type (ws_events w) = [MtError] \<or>
      (\<exists>ts. map wm_type (ws_events w) = MtOpen # ts \<and> MtClose \<in> set ts)" by simp metis
  with one have "map wm_type (ws_events w) = [MtError]" by (elim disjE exE conjE) simp_all
  with run show ?thesis by (intro exI conjI)
qed

section \<open>A peer that falls silent\<close>

text \<open>C38. Closing ends a run: once an open connection is closing, the run loop returns although the peer never
  answers, after at most two steps for each request left to wake it and eight more for the 300 ms
  that an answer is waited for, and the close is reported once with the code and reason it was
  closed with.\<close>

theorem closing_ends:
  assumes "quiet_system os s Q queue" and "quietSocket s Q queue (t_socket (ws_transport w))" and "isClosing w"
    and "t_requestInitCancellation (ws_transport w)" and "t_out (ws_transport w) = []" and "starved (ws_transport w)"
    and "\<not> ws_automaticReconnection w"
    and "os_steady os (snd (t_socket (ws_transport w))) \<ge> t_closingTimePoint (ws_transport w)"
  shows "\<exists>n w'. n \<le> 2 * (requests queue (t_socket (ws_transport w)) + 5) \<and>
           runSteps (socket_api os) conn n (RunPoll, w) = Some (RunDone, w') \<and>
           ws_events w' = ws_events w @
             [toMessage (OutClose (t_closeCode (ws_transport w)) (t_closeReason (ws_transport w))
                (t_closeWireSize (ws_transport w)) (t_closeRemote (ws_transport w)))]"
  using closing_run_ends [OF quiet_socket_silent [OF assms(1)] assms(2-7)] assms(8) by simp

text \<open>A connection of the demo system, closed by this side.\<close>

definition silent_ws :: "kernel sockets websocket" where
  "silent_ws =
     (let w = disableAutomaticReconnection (websocket_init (nt_sock (kernel_net (\<lambda>m. True))) (tlsSocket, kernel_init []));
          t = (ws_transport w)\<lparr>t_readyState := CLOSING, t_requestInitCancellation := True,
                               t_closeCode := kNormalClosureCode, t_closeReason := kNormalClosureMessage\<rparr>
      in w\<lparr>ws_transport := t\<rparr>)"

theorem closing_ends_witness:
  "\<forall>conn. \<exists>n w'. n \<le> 10 \<and> runSteps (socket_api (kernel_os (\<lambda>m. True))) conn n (RunPoll, silent_ws) = Some (RunDone, w') \<and>
     ws_events w' = [toMessage (OutClose 1000 (bytes_of ''Normal closure'') 0 False)]"
proof -
  have w: "isClosing silent_ws" "t_requestInitCancellation (ws_transport silent_ws)" "t_out (ws_transport silent_ws) = []"
    "t_rxbuf (ws_transport silent_ws) = []" "\<not> ws_automaticReconnection silent_ws" "ws_events silent_ws = []"
    "t_closingTimePoint (ws_transport silent_ws) = 0" "t_socket (ws_transport silent_ws) = (tlsSocket, kernel_init [])"
    "t_closeCode (ws_transport silent_ws) = 1000" "t_closeReason (ws_transport silent_ws) = bytes_of ''Normal closure''"
    "t_closeWireSize (ws_transport silent_ws) = 0" "\<not> t_closeRemote (ws_transport silent_ws)"
    by (simp_all add: silent_ws_def isClosing_def websocket_init_def disableAutomaticReconnection_def transport_init_def
        Let_def kNormalClosureCode_def kNormalClosureMessage_def)
  have "starved (ws_transport silent_ws)" by (simp add: starved_def w parseHeader_def)
  moreover have "quietSocket tlsSocket (\<lambda>e. kn_unread e = []) kn_queue (t_socket (ws_transport silent_ws))"
    "requests kn_queue (t_socket (ws_transport silent_ws)) = 0" by (simp_all add: w kernel_quietSocket requests_def)
  ultimately show ?thesis using closing_ends [OF kernel_quiet _ w(1-3) _ w(5)] w by simp
qed

text \<open>C39. A connection that is cut in the middle of a frame is never reported: when the socket fails while a
  frame is incomplete, no ping interval is set and nobody closes the connection, the run loop goes on
  for any number of steps, without waiting in between, with the connection taken for open and not a
  single message, whatever the system does: the closed socket never asks it again.\<close>

theorem cut_connection_goes_unnoticed:
  assumes "isConnected w" and "\<not> ws_stop w" and "t_out (ws_transport w) = []"
    and "t_pingIntervalSecs (ws_transport w) \<le> 0"
    and "poll (socket_api os) (ws_transport w) = Some (AbnormalClose, t)" and "cutFrame t ws"
  shows "\<exists>pc w'. runSteps (socket_api os) conn n (RunPoll, w) = Some (pc, w') \<and> pc \<noteq> RunDone \<and>
           ws_events w' = ws_events w \<and> isConnected w'"
  using socket_closes_for_good assms by (rule cut_runs_on)

text \<open>The demo system with a TLS connection that fails when it is read from.\<close>

definition cut_os :: "kernel os_api" where
  "cut_os = (kernel_os (\<lambda>m. True))\<lparr>ssl_read := (\<lambda>n e. ((Inl (- 1), SSL_OTHER), e))\<rparr>"

text \<open>It stopped after one of the five bytes of a text.\<close>

definition cut_ws :: "kernel sockets websocket" where
  "cut_ws =
     (let w = disableAutomaticReconnection (websocket_init (socket_api cut_os) (tlsSocket, kernel_init [0]))
      in w\<lparr>ws_transport := setReadyState (socket_api cut_os) OPEN ((ws_transport w)\<lparr>t_rxbuf := [0x81, 5, 72]\<rparr>)\<rparr>)"

lemma cut_os_read:
  "isReadyToRead cut_os ms (tlsSocket, kernel_init [0]) = Some (PollReadyForRead, (tlsSocket, kernel_init [0]))"
  "socketRecv cut_os n (tlsSocket, kernel_init [0]) = (Inl (- 1), (tlsSocket, kernel_init [0]))"
  "\<not> isWaitNeeded cut_os (kernel_init [0])"
  by (simp_all add: isReadyToRead_def isReadyTo_def socketPoll_def kernelPoll_def no_events_def socketRecv_def isWaitNeeded_def
      errno_defs cut_os_def)

theorem cut_connection_goes_unnoticed_witness:
  "\<forall>conn n. \<exists>pc w'. runSteps (socket_api cut_os) conn n (RunPoll, cut_ws) = Some (pc, w') \<and> pc \<noteq> RunDone \<and>
     ws_events w' = [] \<and> isConnected w'"
proof (intro allI)
  fix conn n
  define t where "t = (ws_transport cut_ws)\<lparr>t_socket := socketClose cut_os (tlsSocket, kernel_init [0])\<rparr>"
  have w: "isConnected cut_ws" "\<not> ws_stop cut_ws" "t_out (ws_transport cut_ws) = []"
    "t_pingIntervalSecs (ws_transport cut_ws) \<le> 0" "ws_events cut_ws = []" "\<not> t_requestInitCancellation (ws_transport cut_ws)"
    "t_rxbuf (ws_transport cut_ws) = [0x81, 5, 72]" "t_rxbufWanted (ws_transport cut_ws) = 0"
    "t_socket (ws_transport cut_ws) = (tlsSocket, kernel_init [0])" "t_readyState (ws_transport cut_ws) = OPEN"
    by (simp_all add: cut_ws_def isConnected_def websocket_init_def disableAutomaticReconnection_def transport_init_def
        setReadyState_def Let_def)
  have same: "(ws_transport cut_ws)\<lparr>t_socket := (tlsSocket, kernel_init [0])\<rparr> = ws_transport cut_ws" using w(9) by simp
  have "heartBeatStep (socket_api cut_os) (ws_transport cut_ws) = ws_transport cut_ws"
    using w by (simp add: heartBeatStep_def pingIntervalExceeded_def)
  moreover have "receiveFromSocket (socket_api cut_os) (ws_transport cut_ws) = Some (False, t)"
    using w by (subst receiveFromSocket.simps) (simp add: cut_os_read closeSocket_def kChunkSize_def t_def)
  ultimately have "poll (socket_api cut_os) (ws_transport cut_ws) = Some (AbnormalClose, t)"
    using w by (simp add: poll_def Let_def cut_os_read same)
  moreover have "\<exists>ws. cutFrame t ws"
    using w by (simp add: cutFrame_def t_def parseHeader_def headerSize_def payloadLength_def)
  ultimately show "\<exists>pc w'. runSteps (socket_api cut_os) conn n (RunPoll, cut_ws) = Some (pc, w') \<and> pc \<noteq> RunDone \<and>
     ws_events w' = [] \<and> isConnected w'"
    using cut_connection_goes_unnoticed [OF w(1-4), of cut_os t _ conn n] w(5) by auto
qed

end
