(* ===== verification/AisSupervisorProofs.thy ===== *)
theory AisSupervisorProofs
  imports AisSupervisor
begin

text \<open>
  Correctness of the stream client: the invariant of the two threads and what follows from it
  (no session is missed by \<open>Stop\<close>, no thread outlives it, \<open>Stop\<close> returns once the session
  does), the order of the reported states, and the pacing of reconnections.
\<close>

section \<open>Reconnect pacing\<close>

lemmas backoff_defs = chooseBackoff_def nextBackoff_def kInitialBackoffSeconds_def
  kMaxBackoffSeconds_def

definition backoff_values :: "int set" where
  "backoff_values = {2, 4, 8, 16, 30}"

lemma backoff_values_step:
  "b \<in> backoff_values \<Longrightarrow> nextBackoff b \<in> backoff_values"
  "b \<in> backoff_values \<Longrightarrow> chooseBackoff r k b \<in> backoff_values"
  by (auto simp: backoff_values_def backoff_defs)

lemma chooseBackoff_nonneg: "b \<in> backoff_values \<Longrightarrow> 0 \<le> chooseBackoff r k b"
  by (auto simp: backoff_values_def backoff_defs)

lemma nextBackoff_mono: "a \<le> b \<Longrightarrow> nextBackoff a \<le> nextBackoff b"
  by (simp add: backoff_defs)

lemma nextBackoff_power:
  "(nextBackoff ^^ n) kInitialBackoffSeconds = min (2 ^ Suc n) kMaxBackoffSeconds"
proof (induction n)
  case 0
  show ?case by (simp add: backoff_defs)
next
  case (Suc n)
  then show ?case by (simp add: backoff_defs min_def)
qed

section \<open>What each step leaves alone\<close>

lemma report_fields [simp]:
  "client (report st d s) = client s" "m_socket (report st d s) = m_socket s"
  "sup (report st d s) = sup s" "backoffSeconds (report st d s) = backoffSeconds s"
  "caller (report st d s) = caller s" "terminated (report st d s) = terminated s"
  "subscribeMsg (report st d s) = subscribeMsg s" "authToken (report st d s) = authToken s"
  "reachedRunning (report st d s) = reachedRunning s"
  "serverRejected (report st d s) = serverRejected s"
  "errorReported (report st d s) = errorReported s"
  "reports (report st d s) = reports s @ [(st, d)]"
  by (simp_all add: report_def)

lemmas sup_defs = supLoop_def supPublish_def supTeardown_def supAfter_def supSleep_def supExit_def

lemma supStep_frame:
  "supStep s pc = Some s' \<Longrightarrow>
     client s' = client s \<and> caller s' = caller s \<and> terminated s' = terminated s \<and>
     subscribeMsg s' = subscribeMsg s \<and> authToken s' = authToken s"
  by (cases pc) (auto simp: sup_defs split: if_splits)

lemma onMessageCallback_frame:
  "client (onMessageCallback wx js e s) = client s \<and>
   caller (onMessageCallback wx js e s) = caller s \<and>
   sup (onMessageCallback wx js e s) = sup s \<and>
   backoffSeconds (onMessageCallback wx js e s) = backoffSeconds s \<and>
   subscribeMsg (onMessageCallback wx js e s) = subscribeMsg s \<and>
   authToken (onMessageCallback wx js e s) = authToken s"
  by (cases e) (simp_all add: onOpen_def onMessage_def onError_def onClose_def Let_def
        split: prod.split sum.split bool.split option.split)

lemma onMessageCallback_socket:
  "m_socket (onMessageCallback wx js e s) =
     (if \<exists>failed. e = IxOpen failed
      then map_option (\<lambda>h. h\<lparr>ws_sent := ws_sent h @ [subscribeMsg s]\<rparr>) (m_socket s)
      else m_socket s)"
  by (cases e) (simp_all add: onOpen_def onMessage_def onError_def onClose_def Let_def
        split: prod.split sum.split bool.split option.split)

section \<open>The invariant\<close>

text \<open>
  \<^item> a socket is published exactly while the thread is inside \<open>run()\<close> or tearing down;
  \<^item> while streaming is wanted the thread is in its loop and no call is in progress;
  \<^item> with no call in progress and streaming not wanted, there is no thread;
  \<^item> once \<open>Stop\<close> is past its locked section, any published socket has been closed;
  \<^item> a socket carries the subscribe message and the token of the running thread, only;
  \<^item> the thread's last report, when it has returned, is \<open>Stopped\<close>.
\<close>

definition sockets_inv :: "ais_sys \<Rightarrow> bool" where
  "sockets_inv s \<longleftrightarrow> (m_socket s \<noteq> None \<longleftrightarrow> sup s = SupRun \<or> sup s = SupTeardown)"

definition threads_inv :: "ais_sys \<Rightarrow> bool" where
  "threads_inv s \<longleftrightarrow>
     (if m_streaming (client s)
      then caller s = CallerIdle \<and> sup s \<notin> {SupNone, SupExit, SupDone}
      else caller s = CallerIdle \<longrightarrow> sup s = SupNone)"

definition closed_inv :: "ais_sys \<Rightarrow> bool" where
  "closed_inv s \<longleftrightarrow>
     (\<forall>next h. caller s = CallerJoin next \<longrightarrow> m_socket s = Some h \<longrightarrow> ws_closed h)"

definition handle_inv :: "ais_sys \<Rightarrow> bool" where
  "handle_inv s \<longleftrightarrow>
     (\<forall>h. m_socket s = Some h \<longrightarrow>
        h\<lparr>ws_closed := False, ws_sent := []\<rparr> = makeSocket (authToken s) \<and>
        set (ws_sent h) \<subseteq> {subscribeMsg s})"

definition backoff_inv :: "ais_sys \<Rightarrow> bool" where
  "backoff_inv s \<longleftrightarrow> backoffSeconds s \<in> backoff_values \<and>
     (\<forall>i. sup s = SupSleep i \<longrightarrow> int i \<le> backoffSeconds s * 10)"

definition stopped_inv :: "ais_sys \<Rightarrow> bool" where
  "stopped_inv s \<longleftrightarrow>
     (sup s = SupDone \<longrightarrow> reports s \<noteq> [] \<and> last (reports s) = (Stopped, []) \<and>
        (m_onStateChanged (client s) \<longrightarrow> log s \<noteq> [] \<and> last (log s) = StateReport Stopped []))"

definition flags_inv :: "ais_sys \<Rightarrow> bool" where
  "flags_inv s \<longleftrightarrow> (serverRejected s \<longrightarrow> errorReported s)"

definition sys_inv :: "ais_sys \<Rightarrow> bool" where
  "sys_inv s \<longleftrightarrow> sockets_inv s \<and> threads_inv s \<and> closed_inv s \<and> handle_inv s \<and>
     backoff_inv s \<and> stopped_inv s \<and> flags_inv s"

lemmas inv_defs = sockets_inv_def threads_inv_def closed_inv_def handle_inv_def backoff_inv_def
  stopped_inv_def flags_inv_def

lemma sys_inv_init: "sys_inv ais_sys_init"
  by (simp add: sys_inv_def inv_defs ais_sys_init_def ais_client_init_def backoff_values_def
      kInitialBackoffSeconds_def)

lemma makeSocket_fields [simp]:
  "ws_closed (makeSocket a) = False" "ws_sent (makeSocket a) = []"
  "(makeSocket a)\<lparr>ws_closed := False, ws_sent := []\<rparr> = makeSocket a"
  by (simp_all add: makeSocket_def)

lemma supLoop_inv: "sys_inv s \<Longrightarrow> sup s = SupLoop \<Longrightarrow> sys_inv (supLoop s)"
  by (cases "m_streaming (client s)") (simp_all add: sys_inv_def inv_defs supLoop_def)

lemma supPublish_inv: "sys_inv s \<Longrightarrow> sup s = SupPublish \<Longrightarrow> sys_inv (supPublish s)"
  by (cases "m_streaming (client s)") (simp_all add: sys_inv_def inv_defs supPublish_def)

lemma supTeardown_inv: "sys_inv s \<Longrightarrow> sup s = SupTeardown \<Longrightarrow> sys_inv (supTeardown s)"
  by (cases "m_streaming (client s)") (simp_all add: sys_inv_def inv_defs supTeardown_def)

lemma supAfter_inv: "sys_inv s \<Longrightarrow> sup s = SupAfter \<Longrightarrow> sys_inv (supAfter s)"
  by (cases "m_streaming (client s)")
     (simp_all add: sys_inv_def inv_defs supAfter_def backoff_values_step chooseBackoff_nonneg)

lemma supSleep_inv: "sys_inv s \<Longrightarrow> sup s = SupSleep i \<Longrightarrow> sys_inv (supSleep i s)"
  by (cases "m_streaming (client s)"; cases "int i < backoffSeconds s * 10")
     (simp_all add: sys_inv_def inv_defs supSleep_def backoff_values_step)

lemma supExit_inv: "sys_inv s \<Longrightarrow> sup s = SupExit \<Longrightarrow> sys_inv (supExit s)"
  by (cases "m_streaming (client s)")
     (simp_all add: sys_inv_def inv_defs supExit_def report_def SetState_def)

lemmas sup_invs = supLoop_inv supPublish_inv supTeardown_inv supAfter_inv supSleep_inv supExit_inv

lemma supStep_inv:
  assumes inv: "sys_inv s" and step: "supStep s (sup s) = Some s'"
  shows "sys_inv s'"
  using step sup_invs [OF inv] by (cases "sup s") auto

lemma Start_inv:
  assumes inv: "sys_inv s" and idle: "caller s = CallerIdle" and st: "Start js a s = Some s'"
  shows "sys_inv s'"
proof (cases "m_streaming (client s)")
  case True
  with st inv show ?thesis by (simp add: Start_def clientStart_def)
next
  case False
  with inv idle have none: "sup s = SupNone" "m_socket s = None"
    by (auto simp: sys_inv_def threads_inv_def sockets_inv_def)
  show ?thesis
  proof (cases "m_useToken (client s) \<and> m_token (client s) = []")
    case True
    with st False have "s' = report Error missingTokenMessage s"
      by (simp add: Start_def clientStart_def)
    with inv idle none False show ?thesis by (simp add: sys_inv_def inv_defs)
  next
    case started: False
    have "kInitialBackoffSeconds \<in> backoff_values"
      by (simp add: backoff_values_def kInitialBackoffSeconds_def)
    with st started False inv idle none show ?thesis
      by (auto simp: Start_def clientStart_def threadArgs_def sys_inv_def inv_defs)
  qed
qed

lemma StopClose_inv:
  "sys_inv s \<Longrightarrow> caller s = CallerStopLock n \<Longrightarrow> sys_inv (StopClose n s)"
  by (cases "m_streaming (client s)"; cases "m_socket s")
     (simp_all add: sys_inv_def inv_defs StopClose_def)

lemma callerStep_inv:
  assumes inv: "sys_inv s" and step: "callerStep js s (caller s) = Some s'"
  shows "sys_inv s'"
proof (cases "caller s")
  case CallerIdle
  with step show ?thesis by simp
next
  case (CallerStopLock n)
  with inv step show ?thesis by (auto intro: StopClose_inv)
next
  case (CallerJoin n)
  let ?s = "s\<lparr>sup := SupNone, caller := CallerIdle\<rparr>"
  from step CallerJoin have fin: "sup s = SupNone \<or> sup s = SupDone"
    by (auto simp: StopJoin_def split: if_splits)
  with inv CallerJoin have "sys_inv ?s"
    by (cases "m_streaming (client s)") (auto simp: sys_inv_def inv_defs)
  with step CallerJoin fin show ?thesis
    by (auto simp: StopJoin_def Let_def intro: Start_inv split: option.splits)
qed

lemma onMessage_flags: "flags_inv s \<Longrightarrow> flags_inv (onMessage wx js p s)"
  by (simp add: onMessage_def flags_inv_def Let_def split: prod.split sum.split bool.split)

lemma session_inv:
  assumes inv: "sys_inv s" and run: "sup s = SupRun"
  shows "sys_inv (onMessageCallback wx js e s)"
proof -
  define t where "t = onMessageCallback wx js e s"
  have frame: "client t = client s" "caller t = caller s" "sup t = SupRun"
    "backoffSeconds t = backoffSeconds s" "subscribeMsg t = subscribeMsg s"
    "authToken t = authToken s"
    using run by (simp_all add: t_def onMessageCallback_frame)
  have sock: "m_socket t = (if \<exists>failed. e = IxOpen failed
      then map_option (\<lambda>h. h\<lparr>ws_sent := ws_sent h @ [subscribeMsg s]\<rparr>) (m_socket s)
      else m_socket s)"
    by (simp add: t_def onMessageCallback_socket)
  have "flags_inv t"
    using inv onMessage_flags [of s] unfolding t_def
    by (cases e) (auto simp: sys_inv_def flags_inv_def onOpen_def onError_def onClose_def Let_def split: option.splits)
  moreover from inv run have "sockets_inv t" "closed_inv t" "handle_inv t"
    by (auto simp: sys_inv_def sockets_inv_def closed_inv_def handle_inv_def frame sock)
  moreover from inv run have "threads_inv t" "backoff_inv t" "stopped_inv t"
    by (simp_all add: sys_inv_def threads_inv_def backoff_inv_def stopped_inv_def frame
        split: if_splits)
  ultimately show ?thesis by (simp add: sys_inv_def t_def)
qed

lemma return_inv: "sys_inv s \<Longrightarrow> sup s = SupRun \<Longrightarrow> sys_inv (s\<lparr>sup := SupTeardown\<rparr>)"
  by (cases "m_streaming (client s)") (simp_all add: sys_inv_def inv_defs)

lemma call_inv:
  assumes "sys_inv s" and "caller s = CallerIdle"
  shows "sys_inv (StopFlag n s)" "sys_inv (Restart a s)"
    "sys_inv (s\<lparr>client := SetToken t (client s)\<rparr>)"
    "sys_inv (s\<lparr>client := SetTokenEnabled b (client s)\<rparr>)"
    "sys_inv (s\<lparr>client := SetStateCallback b (client s)\<rparr>)"
  using assms
  by (cases "m_streaming (client s)";
      force simp: sys_inv_def inv_defs StopFlag_def Restart_def clientStop_def
        SetToken_def SetTokenEnabled_def SetStateCallback_def)+

lemma ais_step_inv:
  assumes inv: "sys_inv s" and step: "ais_step wx js s e = Some s'"
  shows "sys_inv s'"
proof -
  from step have act: "ais_act wx js s e = Some s'" by (simp add: ais_step_def split: if_splits)
  show ?thesis
    by (cases e)
       (use act inv in \<open>auto intro: Start_inv callerStep_inv supStep_inv session_inv return_inv call_inv
          split: if_splits\<close>)
qed

lemma ais_reachable_inv: "ais_reachable wx js s \<Longrightarrow> sys_inv s"
  by (induction rule: ais_reachable.induct) (auto intro: sys_inv_init ais_step_inv)

section \<open>The order of the reports\<close>

text \<open>
  \<open>wellOrdered b rs\<close>: from a point where a session is open (\<open>b\<close>) or not, every \<open>Running\<close>
  falls between a \<open>Connecting\<close> and a \<open>Stopped\<close>, and so does every \<open>Error\<close> but the one for a
  missing token. \<open>endSession\<close> is whether a session is open afterwards.
\<close>

fun endSession :: "bool \<Rightarrow> (State \<times> string) list \<Rightarrow> bool" where
  "endSession b [] = b"
| "endSession b ((Connecting, _) # rs) = endSession True rs"
| "endSession b ((Stopped, _) # rs) = endSession False rs"
| "endSession b ((Running, _) # rs) = endSession b rs"
| "endSession b ((Error, _) # rs) = endSession b rs"

fun wellOrdered :: "bool \<Rightarrow> (State \<times> string) list \<Rightarrow> bool" where
  "wellOrdered b [] = True"
| "wellOrdered b ((Connecting, _) # rs) = wellOrdered True rs"
| "wellOrdered b ((Stopped, _) # rs) = wellOrdered False rs"
| "wellOrdered b ((Running, _) # rs) = (b \<and> wellOrdered b rs)"
| "wellOrdered b ((Error, d) # rs) = ((b \<or> d = missingTokenMessage) \<and> wellOrdered b rs)"

lemma endSession_append [simp]: "endSession b (rs @ rs') = endSession (endSession b rs) rs'"
  by (induction b rs rule: endSession.induct) auto

lemma wellOrdered_append [simp]:
  "wellOrdered b (rs @ rs') = (wellOrdered b rs \<and> wellOrdered (endSession b rs) rs')"
  by (induction b rs rule: endSession.induct) auto

definition order_inv :: "ais_sys \<Rightarrow> bool" where
  "order_inv s \<longleftrightarrow> wellOrdered False (reports s) \<and>
     (sup s = SupPublish \<or> sup s = SupRun \<longrightarrow> endSession False (reports s)) \<and>
     (sup s = SupNone \<or> sup s = SupDone \<longrightarrow> \<not> endSession False (reports s))"

lemma order_inv_init: "order_inv ais_sys_init"
  by (simp add: order_inv_def ais_sys_init_def)

lemma order_supStep: "order_inv s \<Longrightarrow> supStep s (sup s) = Some s' \<Longrightarrow> order_inv s'"
  by (cases "sup s") (auto simp: order_inv_def sup_defs split: if_splits)

lemma order_Start:
  assumes "order_inv s" and "Start js a s = Some s'"
  shows "order_inv s'"
proof -
  have "Start js a s = Some s'' \<Longrightarrow> s'' = s \<or> s'' = report Error missingTokenMessage s \<or>
      (sup s'' = SupLoop \<and> reports s'' = reports s)" for s''
    by (auto simp: Start_def clientStart_def split: if_splits prod.splits)
  from this [OF assms(2)] assms(1) show ?thesis by (auto simp: order_inv_def)
qed

lemma reportsOf_sentences [simp]: "reportsOf (map SentenceOut ss) = []"
  by (induction ss) auto

lemma HandleMessage_reports:
  "reportsOf (fst (HandleMessage wx js cl p)) = [] \<or>
   (\<exists>reason. reportsOf (fst (HandleMessage wx js cl p)) = [(Error, reason)])"
  using HandleMessage_effects [of wx js cl p]
  by (cases "HandleMessage wx js cl p") (auto simp: SetState_def)

lemma order_session:
  assumes "order_inv s" and "sup s = SupRun"
  shows "order_inv (onMessageCallback wx js e s)"
proof (cases e)
  case (IxMessage p)
  have "\<exists>rs. reports (onMessage wx js p s) = reports s @ rs \<and> (rs = [] \<or> (\<exists>r. rs = [(Error, r)]))"
    using HandleMessage_reports [of wx js "SetStateCallback True (client s)" p]
    by (auto simp: onMessage_def Let_def split: prod.splits sum.splits bool.splits)
  with assms IxMessage show ?thesis
    using onMessageCallback_frame [of wx js e s] by (auto simp: order_inv_def)
qed (use assms in \<open>auto simp: order_inv_def onOpen_def onError_def onClose_def Let_def split: option.splits\<close>)

lemma order_step:
  assumes inv: "order_inv s" and step: "ais_step wx js s e = Some s'"
  shows "order_inv s'"
proof -
  from step have act: "ais_act wx js s e = Some s'" by (simp add: ais_step_def split: if_splits)
  have join: "order_inv s'" if "StopJoin js next s = Some s'" for "next"
  proof -
    from that have "sup s = SupNone \<or> sup s = SupDone" by (simp add: StopJoin_def split: if_splits)
    with inv have "order_inv (s\<lparr>sup := SupNone, caller := CallerIdle\<rparr>)"
      by (auto simp: order_inv_def)
    with that show ?thesis
      by (auto simp: StopJoin_def Let_def intro: order_Start split: if_splits option.splits)
  qed
  show ?thesis
  proof (cases e)
    case (CallStart a)
    with act inv show ?thesis by (auto intro: order_Start split: if_splits)
  next
    case CallerStep
    with act inv join show ?thesis
      by (cases "caller s") (auto simp: StopClose_def order_inv_def)
  next
    case SupStep
    with act inv show ?thesis by (auto intro: order_supStep)
  next
    case (SessionEvent ev)
    with act inv show ?thesis by (auto intro: order_session split: if_splits)
  qed (use act inv in \<open>auto simp: StopFlag_def Restart_def order_inv_def split: if_splits\<close>)
qed

lemma ais_reachable_order: "ais_reachable wx js s \<Longrightarrow> order_inv s"
  by (induction rule: ais_reachable.induct) (auto intro: order_inv_init order_step)

end
