(* ===== verification/AisSession.thy ===== *)
theory AisSession
  imports AisSupervisorProofs IxSessionProofs
begin

text \<open>
  The supervisor thread on the WebSocket of the library. \<open>AisSupervisor\<close> lets the messages of a
  session be any and the session end at any time; here they are those of \<open>IxWebSocket.runStep\<close> on
  the socket that \<open>AisStreamClient::SupervisorFunc\<close> sets up, the subscribe message goes out through
  \<open>send\<close>, and \<open>Stop\<close> calls \<open>close\<close>. Every step of this system is a step of the abstract one or
  invisible there, so that what was proved of the client holds of it.
\<close>

section \<open>The socket and its messages\<close>

definition sessionSocket :: "'k sock_api \<Rightarrow> 'k \<Rightarrow> ws_handle \<Rightarrow> 'k websocket" where
  "sessionSocket sk k h =
     (let w = setUrl (ws_url h) (websocket_init sk k);
          w = (if ws_headers h \<noteq> []
               then setExtraHeaders (foldl (\<lambda>hs (name, v). headerSet name v hs) [] (ws_headers h)) w else w)
      in if ws_reconnect h then w else disableAutomaticReconnection w)"

text \<open>The switch of the message callback; \<open>failed\<close> concerns the send in its first case.\<close>

fun messageEvent :: "bool \<Rightarrow> ws_message \<Rightarrow> ix_event" where
  "messageEvent failed m =
     (case wm_type m of
        MtOpen \<Rightarrow> IxOpen failed
      | MtMessage \<Rightarrow> IxMessage (chars_of (wm_str m))
      | MtError \<Rightarrow> IxError (ei_reason (wm_errorInfo m))
      | MtClose \<Rightarrow> IxClose
      | _ \<Rightarrow> IxOther)"

declare messageEvent.simps [simp del]

section \<open>The two threads and the socket\<close>

text \<open>
  \<open>lv_socket\<close> is the object that \<open>m_socket\<close> owns, \<open>lv_pc\<close> where its run loop is, and \<open>lv_todo\<close> the
  messages for which the callback is still to be called.
\<close>

record 'k live_sys =
  lv_client :: ais_sys
  lv_socket :: "'k websocket option"
  lv_pc :: run_pc
  lv_todo :: "ws_message list"

definition live_init :: "'k live_sys" where
  "live_init = \<lparr>lv_client = ais_sys_init, lv_socket = None, lv_pc = RunDone, lv_todo = []\<rparr>"

definition newMessages :: "'k websocket \<Rightarrow> 'k websocket \<Rightarrow> ws_message list" where
  "newMessages w w' = drop (length (ws_events w)) (ws_events w')"

text \<open>Calls from outside, and the calling thread inside \<open>Stop\<close>, which closes the socket.\<close>

definition liveCall :: "wx_api \<Rightarrow> 'j json_api \<Rightarrow> ais_event \<Rightarrow> 'k live_sys \<Rightarrow> 'k live_sys option" where
  "liveCall wx js e s = map_option (\<lambda>c. s\<lparr>lv_client := c\<rparr>) (ais_step wx js (lv_client s) e)"

definition liveCaller :: "'k sock_api \<Rightarrow> wx_api \<Rightarrow> 'j json_api \<Rightarrow> 'k live_sys \<Rightarrow> 'k live_sys option" where
  "liveCaller sk wx js s =
     map_option
       (\<lambda>c. s\<lparr>lv_client := c,
              lv_socket := (case caller (lv_client s) of
                 CallerStopLock _ \<Rightarrow> map_option (wsClose sk kNormalClosureCode kNormalClosureMessage) (lv_socket s)
               | _ \<Rightarrow> lv_socket s)\<rparr>)
       (ais_step wx js (lv_client s) CallerStep)"

text \<open>The supervisor thread outside \<open>run()\<close>: it publishes a new socket, and destroys it when \<open>run()\<close> is over.\<close>

definition liveSup :: "'k sock_api \<Rightarrow> wx_api \<Rightarrow> 'j json_api \<Rightarrow> 'k \<Rightarrow> 'k live_sys \<Rightarrow> 'k live_sys option" where
  "liveSup sk wx js k s =
     map_option
       (\<lambda>c. if sup c = SupRun
            then s\<lparr>lv_client := c, lv_socket := Some (sessionSocket sk k (makeSocket (authToken c))),
                   lv_pc := RunCheck True, lv_todo := []\<rparr>
            else s\<lparr>lv_client := c, lv_socket := (if sup c = SupAfter then None else lv_socket s)\<rparr>)
       (ais_step wx js (lv_client s) SupStep)"

text \<open>Inside \<open>run()\<close>: a turn of the loop once all callbacks of the last one are done, a callback, the return.\<close>

definition liveRun :: "'k net_api \<Rightarrow> 'k live_sys \<Rightarrow> 'k live_sys option" where
  "liveRun nt s =
     (if sup (lv_client s) \<noteq> SupRun \<or> terminated (lv_client s) \<or> lv_todo s \<noteq> [] then None
      else
        (case lv_socket s of
           None \<Rightarrow> None
         | Some w \<Rightarrow>
             (case runStep (nt_sock nt) (connectToUrl nt) (lv_pc s, w) of
                None \<Rightarrow> None
              | Some (pc, w') \<Rightarrow> Some (s\<lparr>lv_socket := Some w', lv_pc := pc, lv_todo := newMessages w w'\<rparr>))))"

text \<open>
  \<open>send\<close> in the callback of the opening. If the connection turns out to be broken, its closing calls
  back before \<open>send\<close> returns, and the run loop finds the connection closed.
\<close>

definition sendSubscribe :: "'k sock_api \<Rightarrow> 'k live_sys \<Rightarrow> bool \<times> 'k live_sys" where
  "sendSubscribe sk s =
     (case lv_socket s of
        None \<Rightarrow> (False, s)
      | Some w \<Rightarrow>
          (let w' = snd (wsSend sk (bytes_of (subscribeMsg (lv_client s))) False w);
               closed = (lv_pc s = RunPoll \<and> t_readyState (ws_transport w') = CLOSED)
           in (newMessages w w' \<noteq> [], s\<lparr>lv_socket := Some w', lv_pc := (if closed then RunDone else lv_pc s)\<rparr>)))"

definition liveCallback :: "'k sock_api \<Rightarrow> wx_api \<Rightarrow> 'j json_api \<Rightarrow> 'k live_sys \<Rightarrow> 'k live_sys option" where
  "liveCallback sk wx js s =
     (case lv_todo s of
        [] \<Rightarrow> None
      | m # ms \<Rightarrow>
          (let (failed, s') = (if wm_type m = MtOpen then sendSubscribe sk s else (False, s))
           in map_option (\<lambda>c. s'\<lparr>lv_client := c, lv_todo := ms\<rparr>)
                (ais_step wx js (lv_client s) (SessionEvent (messageEvent failed m)))))"

definition liveReturn :: "wx_api \<Rightarrow> 'j json_api \<Rightarrow> 'k live_sys \<Rightarrow> 'k live_sys option" where
  "liveReturn wx js s =
     (if lv_pc s = RunDone \<and> lv_todo s = []
      then map_option (\<lambda>c. s\<lparr>lv_client := c\<rparr>) (ais_step wx js (lv_client s) SessionReturn)
      else None)"

datatype 'k live_event =
    LiveStart start_args | LiveStop | LiveRestart start_args
  | LiveSetToken string | LiveSetTokenEnabled bool | LiveSetStateCallback bool
  | LiveCaller | LiveSup 'k | LiveRun | LiveCallback | LiveReturn

fun live_step ::
  "'k net_api \<Rightarrow> wx_api \<Rightarrow> 'j json_api \<Rightarrow> 'k live_sys \<Rightarrow> 'k live_event \<Rightarrow> 'k live_sys option" where
  "live_step nt wx js s (LiveStart a) = liveCall wx js (CallStart a) s"
| "live_step nt wx js s LiveStop = liveCall wx js CallStop s"
| "live_step nt wx js s (LiveRestart a) = liveCall wx js (CallRestart a) s"
| "live_step nt wx js s (LiveSetToken t) = liveCall wx js (CallSetToken t) s"
| "live_step nt wx js s (LiveSetTokenEnabled b) = liveCall wx js (CallSetTokenEnabled b) s"
| "live_step nt wx js s (LiveSetStateCallback b) = liveCall wx js (CallSetStateCallback b) s"
| "live_step nt wx js s LiveCaller = liveCaller (nt_sock nt) wx js s"
| "live_step nt wx js s (LiveSup k) = liveSup (nt_sock nt) wx js k s"
| "live_step nt wx js s LiveRun = liveRun nt s"
| "live_step nt wx js s LiveCallback = liveCallback (nt_sock nt) wx js s"
| "live_step nt wx js s LiveReturn = liveReturn wx js s"

fun live_run ::
  "'k net_api \<Rightarrow> wx_api \<Rightarrow> 'j json_api \<Rightarrow> 'k live_sys \<Rightarrow> 'k live_event list \<Rightarrow> 'k live_sys option" where
  "live_run nt wx js s [] = Some s"
| "live_run nt wx js s (e # es) =
     (case live_step nt wx js s e of None \<Rightarrow> None | Some s' \<Rightarrow> live_run nt wx js s' es)"

inductive live_reachable :: "'k net_api \<Rightarrow> wx_api \<Rightarrow> 'j json_api \<Rightarrow> 'k live_sys \<Rightarrow> bool"
  for nt :: "'k net_api" and wx :: wx_api and js :: "'j json_api" where
  live_start: "live_reachable nt wx js live_init"
| live_next: "live_reachable nt wx js s \<Longrightarrow> live_step nt wx js s e = Some s' \<Longrightarrow> live_reachable nt wx js s'"

lemmas live_defs = liveCall_def liveCaller_def liveSup_def liveRun_def liveCallback_def liveReturn_def

end
