(* ===== verification/AisSessionProofs.thy ===== *)
theory AisSessionProofs
  imports AisSession IxClosing
begin

text \<open>
  The supervisor on its socket: every step is one of the abstract client or invisible to it, and the
  invariant of the two together, from which it follows that no session ends without an error being
  reported unless streaming was stopped.
\<close>

section \<open>The abstract client\<close>

lemma sendSubscribe_client [simp]:
  "lv_client (snd (sendSubscribe sk s)) = lv_client s" "lv_todo (snd (sendSubscribe sk s)) = lv_todo s"
  by (simp_all add: sendSubscribe_def Let_def split: option.splits)

text \<open>What a step of the system is to the client alone; only a turn of the run loop is nothing.\<close>

fun abstractStep :: "'k live_sys \<Rightarrow> 'k live_event \<Rightarrow> bool \<Rightarrow> ais_event option" where
  "abstractStep s (LiveStart a) failed = Some (CallStart a)"
| "abstractStep s LiveStop failed = Some CallStop"
| "abstractStep s (LiveRestart a) failed = Some (CallRestart a)"
| "abstractStep s (LiveSetToken t) failed = Some (CallSetToken t)"
| "abstractStep s (LiveSetTokenEnabled b) failed = Some (CallSetTokenEnabled b)"
| "abstractStep s (LiveSetStateCallback b) failed = Some (CallSetStateCallback b)"
| "abstractStep s LiveCaller failed = Some CallerStep"
| "abstractStep s (LiveSup k) failed = Some SupStep"
| "abstractStep s LiveRun failed = None"
| "abstractStep s LiveCallback failed = Some (SessionEvent (messageEvent failed (hd (lv_todo s))))"
| "abstractStep s LiveReturn failed = Some SessionReturn"

lemma live_step_simulated:
  assumes "live_step nt wx js s e = Some s'"
  shows "\<exists>failed. case abstractStep s e failed of
           None \<Rightarrow> lv_client s' = lv_client s
         | Some a \<Rightarrow> ais_step wx js (lv_client s) a = Some (lv_client s')"
  using assms
  by (cases e) (auto simp: live_defs Let_def split: option.splits if_splits list.splits prod.splits)

lemma live_reachable_ais: "live_reachable nt wx js s \<Longrightarrow> ais_reachable wx js (lv_client s)"
proof (induction rule: live_reachable.induct)
  case live_start
  then show ?case by (simp add: live_init_def ais_start)
next
  case (live_next s e s')
  from live_step_simulated [OF live_next.hyps(2)] obtain failed where
    "case abstractStep s e failed of None \<Rightarrow> lv_client s' = lv_client s
     | Some a \<Rightarrow> ais_step wx js (lv_client s) a = Some (lv_client s')" by blast
  with live_next.IH show ?case by (auto split: option.splits intro: ais_next)
qed

lemma live_reachable_run:
  "live_reachable nt wx js s \<Longrightarrow> live_run nt wx js s es = Some s' \<Longrightarrow> live_reachable nt wx js s'"
  by (induction es arbitrary: s) (auto split: option.splits intro: live_next)

lemma live_run_append:
  "live_run nt wx js s (es @ fs) =
     (case live_run nt wx js s es of None \<Rightarrow> None | Some s' \<Rightarrow> live_run nt wx js s' fs)"
  by (induction es arbitrary: s) (auto split: option.split)

section \<open>Reported errors\<close>

text \<open>The reports since the last \<open>Connecting\<close>, and whether an error is among them.\<close>

definition sessionReports :: "(State \<times> string) list \<Rightarrow> (State \<times> string) list" where
  "sessionReports rs = rev (takeWhile (\<lambda>r. fst r \<noteq> Connecting) (rev rs))"

definition errorShown :: "ais_sys \<Rightarrow> bool" where
  "errorShown s \<longleftrightarrow> (\<exists>d. (Error, d) \<in> set (sessionReports (reports s)))"

lemma sessionReports_append:
  "\<forall>r \<in> set rs'. fst r \<noteq> Connecting \<Longrightarrow> sessionReports (rs @ rs') = sessionReports rs @ rs'"
  by (simp add: sessionReports_def) (subst takeWhile_append2; simp)

text \<open>What a callback adds to the reports, and that \<open>errorReported\<close> is not set without an error.\<close>

definition callback_reports :: "ais_sys \<Rightarrow> ais_sys \<Rightarrow> bool" where
  "callback_reports s s' \<longleftrightarrow>
     (\<exists>rs. reports s' = reports s @ rs \<and> (\<forall>r \<in> set rs. fst r \<noteq> Connecting) \<and>
        (errorReported s' \<longrightarrow> errorReported s \<or> (\<exists>d. (Error, d) \<in> set rs)))"

lemma HandleMessage_result:
  "snd (HandleMessage wx js (SetStateCallback b cl) p) = snd (HandleMessage wx js cl p)"
  by (auto simp: HandleMessage_def SetStateCallback_def Let_def split: ais_split bool.splits prod.splits)

lemma callback_reports_onMessage: "callback_reports s (onMessage wx js p s)"
proof -
  define cl where "cl = SetStateCallback True (client s)"
  obtain effs r where h: "HandleMessage wx js cl p = (effs, r)" by fastforce
  have r: "snd (HandleMessage wx js (client s) p) = r"
    using HandleMessage_result [of wx js True "client s" p] h by (simp add: cl_def)
  have errors: "(\<forall>x \<in> set (reportsOf effs). fst x \<noteq> Connecting) \<and>
      (r = Inr True \<longrightarrow> (\<exists>d. (Error, d) \<in> set (reportsOf effs)))"
    using HandleMessage_effects [OF h] by (auto simp: SetState_def cl_def SetStateCallback_def)
  show ?thesis
    using errors r h
    by (cases "HandleMessage wx js (client s) p")
      (auto simp: onMessage_def callback_reports_def Let_def cl_def [symmetric] split: sum.splits bool.splits)
qed

lemma callback_reports_callback: "callback_reports s (onMessageCallback wx js e s)"
proof (cases e)
  case (IxMessage p)
  with callback_reports_onMessage show ?thesis by simp
qed (auto simp: callback_reports_def onOpen_def onError_def onClose_def Let_def
    split: option.splits)

lemma callback_keeps_error:
  assumes "callback_reports s s'" and "errorShown s"
  shows "errorShown s'"
  using assms by (auto simp: callback_reports_def errorShown_def sessionReports_append)

text \<open>An error, a close, and a send that fails each leave an error shown, if streaming is wanted.\<close>

definition endsSession :: "ws_message \<Rightarrow> bool" where
  "endsSession m \<longleftrightarrow> wm_type m = MtError \<or> wm_type m = MtClose"

lemma ending_callback:
  assumes "endsSession m \<or> wm_type m = MtOpen \<and> failed \<and> m_socket s \<noteq> None" and "m_streaming (client s)"
    and "errorReported s \<longrightarrow> errorShown s"
  shows "errorShown (onMessageCallback wx js (messageEvent failed m) s)"
proof -
  have add: "errorShown s'" if "reports s' = reports s @ rs" "\<forall>r \<in> set rs. fst r \<noteq> Connecting"
      "(Error, d) \<in> set rs \<or> errorReported s" for s' rs d
    using that assms(3) by (auto simp: errorShown_def sessionReports_append)
  have close: "errorShown (onClose s)"
    using assms(2,3) add [of "onClose s" "[(Error, connectionLost)]" connectionLost] by (auto simp: onClose_def)
  from assms(1) consider "wm_type m = MtError" | "wm_type m = MtClose"
    | h where "wm_type m = MtOpen" "failed" "m_socket s = Some h" by (auto simp: endsSession_def)
  then show ?thesis
  proof cases
    case 1
    with add [of "onError wx (ei_reason (wm_errorInfo m)) s" "[(Error, reason)]" reason for reason] show ?thesis
      by (simp add: messageEvent.simps onError_def)
  next
    case 2
    with close show ?thesis by (simp add: messageEvent.simps)
  next
    case 3
    define s1 where "s1 = s\<lparr>m_socket := Some (h\<lparr>ws_sent := ws_sent h @ [subscribeMsg s]\<rparr>)\<rparr>"
    have open': "onOpen True s = report Running [] ((onClose s1)\<lparr>reachedRunning := True\<rparr>)"
      using 3 by (simp add: onOpen_def Let_def s1_def)
    show ?thesis
    proof (cases "errorReported s")
      case True
      with add [of "onOpen True s" "[(Running, [])]"] assms(2) show ?thesis
        using 3 by (simp add: messageEvent.simps open' onClose_def s1_def)
    next
      case False
      with add [of "onOpen True s" "[(Error, connectionLost), (Running, [])]" connectionLost] assms(2) show ?thesis
        using 3 by (simp add: messageEvent.simps open' onClose_def s1_def)
    qed
  qed
qed

section \<open>The socket\<close>

lemma sessionSocket_ready: "ready_to_run (sessionSocket sk k (makeSocket auth))"
  by (simp add: ready_to_run_def sessionSocket_def makeSocket_def Let_def setUrl_def setExtraHeaders_def
      disableAutomaticReconnection_def websocket_init_def transport_init_def)

lemma session_inv_start: "session_inv (RunCheck True) (sessionSocket sk k (makeSocket auth))"
  using sessionSocket_ready [of sk k auth] by (simp add: session_inv_def ready_to_run_def)

lemma session_inv_wsClose: "session_inv pc w \<Longrightarrow> session_inv pc (wsClose sk code reason w)"
  using session_inv_call [of pc w sk "CallClose code reason"] by simp

lemma session_inv_wsSend:
  assumes "session_inv pc w"
  shows "session_inv pc (snd (wsSend sk msg binary w))"
  using session_inv_call [OF assms, of sk "CallSendText msg"] session_inv_call [OF assms, of sk "CallSendBinary msg"]
  by (simp add: wsSend_def)

text \<open>The messages only grow.\<close>

lemma newMessages_append: "ws_events w' = ws_events w @ ms \<Longrightarrow> newMessages w w' = ms"
  by (simp add: newMessages_def)

lemma deliver_events: "ws_events (deliver t w) = ws_events w @ map toMessage (t_out t)"
  by (simp add: deliver_def)

lemma checkConnection_events:
  assumes "checkConnection sk conn f n w = Some w'"
  shows "\<exists>ms. ws_events w' = ws_events w @ ms"
proof (rule checkConnection.raw_induct [of "\<lambda>sk conn f n w w'. \<exists>ms. ws_events w' = ws_events w @ ms", OF _ assms],
    goal_cases)
  case (1 f sk conn first n w w')
  have connected: "\<exists>ms. ws_events w1 = ws_events w @ ms"
    if "wsConnect sk conn (ws_handshakeTimeoutSecs w) w = Some (st, w1)" for st w1
    using that by (auto simp: wsConnect_def Let_def say_def deliver_events split: option.splits if_splits)
  from 1(2) show ?case
    by (auto simp: Let_def say_def split: if_splits option.splits prod.splits
        dest!: connected 1(1) intro: connected)
qed

lemma runStep_events:
  assumes "runStep sk conn (pc, w) = Some (pc', w')"
  shows "ws_events w' = ws_events w @ newMessages w w'"
proof -
  have "\<exists>ms. ws_events w' = ws_events w @ ms"
    using assms checkConnection_events by (cases pc) (auto simp: deliver_events split: option.splits)
  with newMessages_append show ?thesis by fastforce
qed

lemma wsCall_events: "ws_events (wsCall sk c w) = ws_events w @ newMessages w (wsCall sk c w)"
proof -
  have "\<exists>ms. ws_events (wsCall sk c w) = ws_events w @ ms"
    by (rule wsCall_deliver [of sk c w]) (simp_all add: deliver_events)
  with newMessages_append show ?thesis by fastforce
qed

lemma wsSend_events:
  "ws_events (snd (wsSend sk msg binary w)) = ws_events w @ newMessages w (snd (wsSend sk msg binary w))"
  using wsCall_events [of sk "CallSendText msg" w] wsCall_events [of sk "CallSendBinary msg" w]
  by (simp add: wsSend_def)

text \<open>\<open>close\<close> itself calls nobody back: the connection is closing by the time it sends.\<close>

lemma wsClose_events:
  assumes "t_out (ws_transport w) = []"
  shows "ws_events (wsClose sk code reason w) = ws_events w"
proof -
  have "t_out (close sk code reason 0 False (ws_transport w)) = []"
    using assms by (simp add: csD(2) [OF cs_sendCloseFrame] close_def Let_def wakeUpFromPoll_def setReadyState_def setCloseInfo_def)
  then show ?thesis by (simp add: wsClose_def deliver_events)
qed

section \<open>The invariant\<close>

text \<open>
  While \<open>run()\<close> is active, the messages so far are those of a run, and those that end it have been
  shown as an error or are still to be delivered, unless streaming is no longer wanted.
\<close>

definition shown_inv :: "ais_sys \<Rightarrow> ws_message list \<Rightarrow> ws_message list \<Rightarrow> bool" where
  "shown_inv c events todo \<longleftrightarrow>
     (errorReported c \<longrightarrow> errorShown c) \<and>
     (\<not> m_streaming (client c) \<or> errorShown c \<or> (\<forall>m \<in> set events. endsSession m \<longrightarrow> m \<in> set todo))"

definition live_inv :: "'k live_sys \<Rightarrow> bool" where
  "live_inv s \<longleftrightarrow>
     (lv_socket s = None \<longleftrightarrow> m_socket (lv_client s) = None) \<and>
     (sup (lv_client s) = SupPublish \<longrightarrow> \<not> errorReported (lv_client s)) \<and>
     (sup (lv_client s) = SupRun \<longrightarrow>
        (\<exists>w. lv_socket s = Some w \<and> session_inv (lv_pc s) w \<and> shown_inv (lv_client s) (ws_events w) (lv_todo s)))"

text \<open>What calls from outside, and \<open>Stop\<close>, change of a client that is connecting or running.\<close>

definition call_frame :: "ais_sys \<Rightarrow> ais_sys \<Rightarrow> bool" where
  "call_frame c c' \<longleftrightarrow>
     sup c' = sup c \<and> errorReported c' = errorReported c \<and> (m_streaming (client c') \<longrightarrow> m_streaming (client c)) \<and>
     (m_socket c' = None \<longleftrightarrow> m_socket c = None) \<and>
     (\<exists>rs. reports c' = reports c @ rs \<and> (\<forall>r \<in> set rs. fst r \<noteq> Connecting))"

lemma call_frame_Start:
  assumes "Start js a c = Some c'"
  shows "call_frame c c' \<or> sup c' = SupLoop \<and> m_socket c' = m_socket c"
  using assms by (auto simp: Start_def clientStart_def call_frame_def split: if_splits prod.splits)

lemma call_frame_step:
  assumes "ais_step wx js c e = Some c'" and "e \<noteq> SupStep" and "e \<noteq> SessionReturn" and "\<forall>ev. e \<noteq> SessionEvent ev"
  shows "call_frame c c' \<or> sup c' \<noteq> SupRun \<and> sup c' \<noteq> SupPublish \<and> m_socket c' = m_socket c"
proof -
  from assms(1) have act: "ais_act wx js c e = Some c'" by (simp add: ais_step_def split: if_splits)
  have flag: "call_frame c (StopFlag n c)" for n by (simp add: call_frame_def StopFlag_def clientStop_def)
  have join: "sup c' \<noteq> SupRun \<and> sup c' \<noteq> SupPublish \<and> m_socket c' = m_socket c" if "StopJoin js n c = Some c'" for n
    using that by (auto simp: StopJoin_def Let_def Start_def clientStart_def split: if_splits option.splits prod.splits)
  show ?thesis
  proof (cases e)
    case (CallStart a)
    with act call_frame_Start [of js a c c'] show ?thesis by (auto split: if_splits)
  next
    case CallStop
    with act flag show ?thesis by (auto split: if_splits)
  next
    case (CallRestart a)
    with act flag show ?thesis by (auto simp: Restart_def call_frame_def split: if_splits)
  next
    case CallerStep
    with act join show ?thesis by (cases "caller c") (auto simp: call_frame_def StopClose_def)
  qed (use act assms(2-4) in
    \<open>auto simp: call_frame_def SetToken_def SetTokenEnabled_def SetStateCallback_def split: if_splits\<close>)
qed

lemma shown_inv_frame:
  assumes "call_frame c c'" and "shown_inv c events todo"
  shows "shown_inv c' events todo"
  using assms by (auto simp: call_frame_def shown_inv_def errorShown_def sessionReports_append)

lemma live_inv_call:
  assumes "live_inv s" and "call_frame (lv_client s) c \<or> sup c \<noteq> SupRun \<and> sup c \<noteq> SupPublish \<and> m_socket c = m_socket (lv_client s)"
    and "lv_socket s' = lv_socket s \<or> lv_socket s' = map_option (wsClose sk code reason) (lv_socket s)"
    and "lv_client s' = c" and "lv_pc s' = lv_pc s" and "lv_todo s' = lv_todo s"
  shows "live_inv s'"
proof (cases "sup c = SupRun \<or> sup c = SupPublish")
  case True
  with assms(2) have f: "call_frame (lv_client s) c" by auto
  then have keep: "sup c = sup (lv_client s)" "errorReported c = errorReported (lv_client s)"
    "m_socket c = None \<longleftrightarrow> m_socket (lv_client s) = None" by (auto simp: call_frame_def)
  have "\<exists>w'. lv_socket s' = Some w' \<and> session_inv (lv_pc s') w' \<and> shown_inv c (ws_events w') (lv_todo s')"
    if "sup c = SupRun"
  proof -
    from that keep assms(1) obtain w where w: "lv_socket s = Some w" "session_inv (lv_pc s) w"
      "shown_inv (lv_client s) (ws_events w) (lv_todo s)" by (auto simp: live_inv_def)
    have "ws_events (wsClose sk code reason w) = ws_events w"
      using w(2) by (intro wsClose_events) (simp add: session_inv_def)
    with w assms(3,5,6) session_inv_wsClose [OF w(2), of sk code reason] shown_inv_frame [OF f w(3)]
    show ?thesis by auto
  qed
  with True keep assms show ?thesis by (auto simp: live_inv_def)
next
  case False
  with assms show ?thesis by (auto simp: live_inv_def call_frame_def)
qed

lemma live_inv_liveCall:
  assumes "live_inv s" and "liveCall wx js e s = Some s'"
    and "e \<noteq> SupStep" and "e \<noteq> SessionReturn" and "\<forall>ev. e \<noteq> SessionEvent ev"
  shows "live_inv s'"
proof -
  from assms(2) obtain c where c: "ais_step wx js (lv_client s) e = Some c" "s' = s\<lparr>lv_client := c\<rparr>"
    by (auto simp: liveCall_def)
  from live_inv_call [OF assms(1) call_frame_step [OF c(1) assms(3-5)], of s'] c(2) show ?thesis by simp
qed

lemma live_inv_liveCaller:
  assumes "live_inv s" and "liveCaller sk wx js s = Some s'"
  shows "live_inv s'"
proof -
  from assms(2) obtain c where c: "ais_step wx js (lv_client s) CallerStep = Some c" "lv_client s' = c"
    "lv_pc s' = lv_pc s" "lv_todo s' = lv_todo s"
    "lv_socket s' = lv_socket s \<or>
     lv_socket s' = map_option (wsClose sk kNormalClosureCode kNormalClosureMessage) (lv_socket s)"
    by (auto simp: liveCaller_def split: caller_pc.splits)
  from live_inv_call [OF assms(1) call_frame_step [OF c(1)] c(5)] c show ?thesis by simp
qed

lemma live_inv_liveSup:
  assumes "live_inv s" and "sys_inv (lv_client s)" and "liveSup sk wx js k s = Some s'"
  shows "live_inv s'"
proof -
  from assms(3) obtain c where act: "supStep (lv_client s) (sup (lv_client s)) = Some c"
    and s': "s' = (if sup c = SupRun
            then s\<lparr>lv_client := c, lv_socket := Some (sessionSocket sk k (makeSocket (authToken c))),
                   lv_pc := RunCheck True, lv_todo := []\<rparr>
            else s\<lparr>lv_client := c, lv_socket := (if sup c = SupAfter then None else lv_socket s)\<rparr>)"
    by (auto simp: liveSup_def ais_step_def split: if_splits)
  have none: "m_socket (lv_client s) = None" if "sup (lv_client s) \<noteq> SupRun" "sup (lv_client s) \<noteq> SupTeardown"
    using assms(2) that by (simp add: sys_inv_def sockets_inv_def)
  have new: "ws_events (sessionSocket sk k h) = []" for h
    by (simp add: sessionSocket_def websocket_init_def Let_def setUrl_def setExtraHeaders_def disableAutomaticReconnection_def)
  show ?thesis
    using assms(1) act s' none session_inv_start [of sk k "authToken c"]
    by (cases "sup (lv_client s)") (auto simp: live_inv_def shown_inv_def sup_defs new split: if_splits)
qed

lemma live_inv_liveRun:
  assumes "live_inv s" and "liveRun nt s = Some s'"
  shows "live_inv s'"
proof -
  from assms(2) obtain w pc w' where run: "sup (lv_client s) = SupRun" "lv_todo s = []" "lv_socket s = Some w"
    "runStep (nt_sock nt) (connectToUrl nt) (lv_pc s, w) = Some (pc, w')"
    and s': "s' = s\<lparr>lv_socket := Some w', lv_pc := pc, lv_todo := newMessages w w'\<rparr>"
    by (auto simp: liveRun_def split: option.splits if_splits)
  from assms(1) run have w: "session_inv (lv_pc s) w" "shown_inv (lv_client s) (ws_events w) []"
    by (auto simp: live_inv_def)
  from url.session_inv_step [OF w(1) run(4)] have "session_inv pc w'" .
  moreover have "shown_inv (lv_client s) (ws_events w') (newMessages w w')"
    using w(2) runStep_events [OF run(4)] by (auto simp: shown_inv_def)
  ultimately show ?thesis using assms(1) run s' by (auto simp: live_inv_def)
qed

text \<open>What \<open>send\<close> in the callback leaves behind.\<close>

lemma sendSubscribe_inv:
  assumes "lv_socket s = Some w" and "session_inv (lv_pc s) w" and "sendSubscribe sk s = (failed, s')"
  obtains w' where "lv_socket s' = Some w'" and "session_inv (lv_pc s') w'"
    and "ws_events w' = ws_events w @ newMessages w w'" and "failed \<longleftrightarrow> newMessages w w' \<noteq> []"
proof -
  define w' where "w' = snd (wsSend sk (bytes_of (subscribeMsg (lv_client s))) False w)"
  from session_inv_wsSend [OF assms(2)] have inv: "session_inv (lv_pc s) w'" by (simp add: w'_def)
  have s': "lv_socket s' = Some w'"
    "lv_pc s' = (if lv_pc s = RunPoll \<and> t_readyState (ws_transport w') = CLOSED then RunDone else lv_pc s)"
    "failed \<longleftrightarrow> newMessages w w' \<noteq> []"
    using assms(1,3) by (auto simp: sendSubscribe_def Let_def w'_def [symmetric])
  with inv session_inv_closed [of w'] have "session_inv (lv_pc s') w'" by auto
  with s' that wsSend_events [of sk "bytes_of (subscribeMsg (lv_client s))" False w] show ?thesis
    unfolding w'_def by blast
qed

lemma onMessageCallback_streaming [simp]:
  "m_streaming (client (onMessageCallback wx js e s)) = m_streaming (client s)"
  by (simp add: onMessageCallback_frame)

lemma shown_inv_callback:
  assumes "shown_inv c events (m # ms)"
    and "failed \<longrightarrow> wm_type m = MtOpen \<and> m_socket c \<noteq> None" and "failed \<or> new = []"
  shows "shown_inv (onMessageCallback wx js (messageEvent failed m) c) (events @ new) ms"
proof -
  define c' where "c' = onMessageCallback wx js (messageEvent failed m) c"
  have reports: "callback_reports c c'" by (simp add: c'_def callback_reports_callback)
  from assms(1) have shown: "errorReported c \<longrightarrow> errorShown c" by (simp add: shown_inv_def)
  have "errorReported c' \<longrightarrow> errorShown c'"
    using reports shown callback_keeps_error [OF reports]
    by (auto simp: callback_reports_def errorShown_def sessionReports_append)
  moreover have "errorShown c'" if "m_streaming (client c)" "endsSession m \<or> failed"
    using ending_callback [of m failed c wx js] that assms(2) shown by (auto simp: c'_def)
  moreover have "errorShown c'" if "errorShown c" using callback_keeps_error [OF reports that] .
  moreover have "m_streaming (client c') = m_streaming (client c)" by (simp add: c'_def)
  ultimately show ?thesis
    using assms(1,3) unfolding c'_def [symmetric] by (auto simp: shown_inv_def)
qed

lemma live_inv_liveCallback:
  assumes "live_inv s" and "liveCallback sk wx js s = Some s'"
  shows "live_inv s'"
proof -
  from assms(2) obtain m ms failed s1 c where todo: "lv_todo s = m # ms"
    and send: "(if wm_type m = MtOpen then sendSubscribe sk s else (False, s)) = (failed, s1)"
    and step: "ais_step wx js (lv_client s) (SessionEvent (messageEvent failed m)) = Some c"
    and s': "s' = s1\<lparr>lv_client := c, lv_todo := ms\<rparr>"
    by (auto simp: liveCallback_def split: list.splits prod.splits)
  from step have sup: "sup (lv_client s) = SupRun"
    and c: "c = onMessageCallback wx js (messageEvent failed m) (lv_client s)"
    by (auto simp: ais_step_def split: if_splits)
  from assms(1) sup todo obtain w where w: "lv_socket s = Some w" "session_inv (lv_pc s) w"
    "shown_inv (lv_client s) (ws_events w) (m # ms)" "m_socket (lv_client s) \<noteq> None"
    by (auto simp: live_inv_def)
  obtain w' new where w': "lv_socket s1 = Some w'" "session_inv (lv_pc s1) w'" "ws_events w' = ws_events w @ new"
    "failed \<or> new = []" "failed \<longrightarrow> wm_type m = MtOpen"
  proof (cases "wm_type m = MtOpen")
    case True
    with send have "sendSubscribe sk s = (failed, s1)" by simp
    from sendSubscribe_inv [OF w(1,2) this] that True show ?thesis by metis
  next
    case False
    with send w that show ?thesis by auto
  qed
  from shown_inv_callback [OF w(3), of failed new wx js] w(4) w'(4,5)
  have "shown_inv c (ws_events w') ms" by (simp add: c w'(3))
  moreover have "m_socket c \<noteq> None" "sup c = SupRun"
    using w(4) sup by (auto simp: c onMessageCallback_frame onMessageCallback_socket)
  ultimately show ?thesis using w' s' by (simp add: live_inv_def)
qed

lemma live_inv_liveReturn:
  assumes "live_inv s" and "liveReturn wx js s = Some s'"
  shows "live_inv s'"
  using assms by (auto simp: liveReturn_def ais_step_def live_inv_def split: if_splits)

lemma live_reachable_inv: "live_reachable nt wx js s \<Longrightarrow> live_inv s"
proof (induction rule: live_reachable.induct)
  case live_start
  then show ?case by (simp add: live_inv_def live_init_def ais_sys_init_def)
next
  case (live_next s e s')
  have sys: "sys_inv (lv_client s)" by (rule ais_reachable_inv [OF live_reachable_ais [OF live_next.hyps(1)]])
  show ?case
    using live_next.hyps(2) live_next.IH
    by (cases e)
      (auto intro: live_inv_liveCall live_inv_liveCaller live_inv_liveRun live_inv_liveCallback
        live_inv_liveReturn live_inv_liveSup [OF _ sys])
qed

lemmas live_reachable_sys_inv = ais_reachable_inv [OF live_reachable_ais]

text \<open>A run that is over has told its end.\<close>

lemma run_over_ends:
  assumes "session_inv RunDone w"
  shows "\<exists>m \<in> set (ws_events w). endsSession m"
  using assms by (auto simp: session_inv_def refused_def opened_def endsSession_def)

section \<open>Following the run loop\<close>

lemma runSteps_events:
  "runSteps sk conn n (pc, w) = Some (pc', w') \<Longrightarrow> ws_events w' = ws_events w @ newMessages w w'"
proof (induction n arbitrary: pc w)
  case 0
  then show ?case by (simp add: newMessages_def)
next
  case (Suc n)
  then obtain pc1 w1 where step: "runStep sk conn (pc, w) = Some (pc1, w1)" "runSteps sk conn n (pc1, w1) = Some (pc', w')"
    by (auto split: option.splits)
  from runStep_events [OF step(1)] Suc.IH [OF step(2)] newMessages_append show ?case by (metis append_assoc)
qed

lemma newMessages_split:
  assumes "ws_events w1 = ws_events w @ newMessages w w1" and "ws_events w2 = ws_events w1 @ newMessages w1 w2"
  shows "newMessages w w2 = newMessages w w1 @ newMessages w1 w2"
  using assms by (metis append_assoc newMessages_append)

text \<open>Closures that are delivered once streaming is over change nothing but the list of what is to be delivered.\<close>

lemma deliver_closures:
  assumes "\<forall>m \<in> set (lv_todo s). wm_type m = MtClose" and "sup (lv_client s) = SupRun"
    and "\<not> terminated (lv_client s)" and "\<not> m_streaming (client (lv_client s))"
  shows "live_run nt wx js s (replicate (length (lv_todo s)) LiveCallback) = Some (s\<lparr>lv_todo := []\<rparr>)"
  using assms
proof (induction "lv_todo s" arbitrary: s)
  case Nil
  then show ?case by simp
next
  case (Cons m ms)
  from Cons.hyps(2) have todo: "lv_todo s = m # ms" by simp
  with Cons.prems have "live_step nt wx js s LiveCallback = Some (s\<lparr>lv_todo := ms\<rparr>)"
    by (simp add: liveCallback_def ais_step_def messageEvent.simps onClose_def)
  with Cons.hyps(1) [of "s\<lparr>lv_todo := ms\<rparr>"] Cons.prems todo show ?case by simp
qed

text \<open>The system follows a run of the loop in which nothing but closures are reported.\<close>

lemma live_follow:
  assumes "runSteps (nt_sock nt) (connectToUrl nt) n (lv_pc s, w) = Some (pc', w')"
    and "\<forall>m \<in> set (newMessages w w'). wm_type m = MtClose" and "lv_socket s = Some w" and "lv_todo s = []"
    and "sup (lv_client s) = SupRun" and "\<not> terminated (lv_client s)" and "\<not> m_streaming (client (lv_client s))"
  shows "\<exists>es. length es = n + length (newMessages w w') \<and>
           live_run nt wx js s es = Some (s\<lparr>lv_socket := Some w', lv_pc := pc', lv_todo := []\<rparr>)"
  using assms
proof (induction n arbitrary: s w)
  case 0
  then have "s\<lparr>lv_socket := Some w', lv_pc := pc', lv_todo := []\<rparr> = s" by simp
  with 0 show ?case by (intro exI [of _ "[]"]) (simp add: newMessages_def)
next
  case (Suc n)
  then obtain pc1 w1 where step: "runStep (nt_sock nt) (connectToUrl nt) (lv_pc s, w) = Some (pc1, w1)"
    "runSteps (nt_sock nt) (connectToUrl nt) n (pc1, w1) = Some (pc', w')"
    by (auto split: option.splits)
  have new: "newMessages w w' = newMessages w w1 @ newMessages w1 w'"
    using newMessages_split [OF runStep_events [OF step(1)] runSteps_events [OF step(2)]] .
  define s1 where "s1 = s\<lparr>lv_socket := Some w1, lv_pc := pc1, lv_todo := newMessages w w1\<rparr>"
  define s2 where "s2 = s1\<lparr>lv_todo := []\<rparr>"
  have "live_step nt wx js s LiveRun = Some s1" using step(1) Suc.prems by (simp add: liveRun_def s1_def)
  moreover have "live_run nt wx js s1 (replicate (length (newMessages w w1)) LiveCallback) = Some s2"
    using deliver_closures [of s1 nt wx js] Suc.prems new by (simp add: s1_def s2_def)
  moreover obtain es where "length es = n + length (newMessages w1 w')"
    "live_run nt wx js s2 es = Some (s2\<lparr>lv_socket := Some w', lv_pc := pc', lv_todo := []\<rparr>)"
    using Suc.IH [of s2 w1] step(2) Suc.prems new by (auto simp: s1_def s2_def)
  ultimately show ?case
    by (intro exI [of _ "LiveRun # replicate (length (newMessages w w1)) LiveCallback @ es"])
       (simp add: live_run_append new s1_def s2_def)
qed

text \<open>From a run that is over, with streaming stopped, three steps end the thread and the join succeeds.\<close>

lemma live_return:
  assumes "lv_pc s = RunDone" and "lv_todo s = []" and "sup (lv_client s) = SupRun" and "\<not> terminated (lv_client s)"
    and "\<not> m_streaming (client (lv_client s))" and "caller (lv_client s) = CallerJoin None"
  shows "\<exists>s'. live_run nt wx js s [LiveReturn, LiveSup k, LiveSup k, LiveSup k, LiveCaller] = Some s' \<and>
           caller (lv_client s') = CallerIdle \<and> sup (lv_client s') = SupNone \<and> lv_socket s' = None \<and>
           m_socket (lv_client s') = None \<and> reports (lv_client s') = reports (lv_client s) @ [(Stopped, [])]"
  using assms
  by (simp add: live_defs ais_step_def supTeardown_def supAfter_def supExit_def StopJoin_def Let_def)

section \<open>Sending the subscribe message\<close>

text \<open>A socket in a state in which whatever is sent next fails at once.\<close>

definition broken :: "'k sock_api \<Rightarrow> 'k \<Rightarrow> bool" where
  "broken sk k \<longleftrightarrow>
     (\<forall>bs. fst (sk_send sk bs k) \<le> 0 \<and> \<not> (fst (sk_send sk bs k) < 0 \<and> sk_isWaitNeeded sk (snd (sk_send sk bs k))))"

text \<open>The connection is closed, and that is reported once.\<close>

definition dropped :: "'k transport \<Rightarrow> 'k transport \<Rightarrow> bool" where
  "dropped t t' \<longleftrightarrow> t_readyState t' = CLOSED \<and> (\<exists>e. t_out t' = t_out t @ [e] \<and> isClose e)"

lemma dropped_wake [simp]: "dropped t (wakeUpFromPoll sk c t') = dropped t t'"
  by (simp add: dropped_def wakeUpFromPoll_def)

lemma broken_sendOnSocket:
  assumes "broken sk (t_socket t)" and "t_txbuf t \<noteq> []" and "t_readyState t = OPEN"
  shows "\<not> fst (sendOnSocket sk t) \<and> dropped t (snd (sendOnSocket sk t))"
proof -
  obtain ret k where r: "sk_send sk (t_txbuf t) (t_socket t) = (ret, k)" by fastforce
  with assms(1) have "ret \<le> 0" "\<not> (ret < 0 \<and> sk_isWaitNeeded sk k)"
    unfolding broken_def by (metis fst_conv snd_conv)+
  then show ?thesis
    using assms(2,3) r
    by (subst (1 2) sendOnSocket.simps) (auto simp: Let_def closeSocket_def setReadyState_def isClose_def dropped_def)
qed

lemma broken_sendFragment:
  assumes "broken sk (t_socket t)" and "t_readyState t = OPEN"
  shows "\<not> fst (sendFragment sk type fin m c t) \<and> dropped t (snd (sendFragment sk type fin m c t))"
proof -
  define t1 where "t1 = appendToSendBuffer (frameHeader (t_useMask t) type fin c (of_nat (length m))
        (maskingKey (sk_seconds sk (t_socket t)))) m (maskingKey (sk_seconds sk (t_socket t))) t"
  have "t_txbuf t1 \<noteq> []" "t_readyState t1 = OPEN" and out: "t_out t1 = t_out t" and "broken sk (t_socket t1)"
    using assms by (simp_all add: t1_def appendToSendBuffer_def frameHeader_def Let_def)
  with broken_sendOnSocket [of sk t1] have "\<not> fst (sendOnSocket sk t1)" "dropped t (snd (sendOnSocket sk t1))"
    by (simp_all add: dropped_def)
  then show ?thesis by (simp add: t1_def sendFragment_def Let_def)
qed

lemma broken_sendData:
  assumes "broken sk (t_socket t)" and "t_readyState t = OPEN"
  shows "dropped t (snd (sendData sk type m False t))"
proof -
  have steps: "\<not> fst (sendSteps sk type False n w t) \<and> dropped t (snd (sendSteps sk type False n w t))" if n: "0 < n" for n w
  proof (cases n)
    case (Suc n')
    define part where "part = (if n' = 0 then w else take kChunkSize w)"
    obtain ok t1 where f: "sendFragment sk type (n' = 0) part False t = (ok, t1)" by fastforce
    with broken_sendFragment [OF assms, of type "n' = 0" part False] show ?thesis
      by (simp add: Suc Let_def part_def)
  qed (use n in simp)
  have n: "0 < length w div kChunkSize" if "\<not> length w < kChunkSize" for w :: "byte list"
    using that by (simp add: div_greater_zero_iff kChunkSize_def)
  show ?thesis
  proof (cases rule: sendData_cases [of t sk type m False])
    case (single w ok t1)
    with broken_sendFragment [OF assms, of type True w False] show ?thesis by simp
  next
    case (failed w t1)
    with steps [OF n [OF failed(2)], of w] show ?thesis by simp
  next
    case (several w t1)
    with steps [OF n [OF several(2)], of w] show ?thesis by simp
  qed (use assms(2) in simp_all)
qed

lemma wsSend_text:
  assumes "validateUtf8 msg" and "isConnected w" and "\<not> t_enablePerMessageDeflate (ws_transport w)"
  shows "snd (wsSend sk msg False w) = deliver (snd (sendData sk TEXT_FRAME msg False (ws_transport w))) w"
  using assms by (simp add: wsSend_def wsSendText_def sendMessage_def sendText_def split: prod.split)

lemma sendSubscribe_broken:
  assumes "broken sk (t_socket (ws_transport w))" and "lv_socket s = Some w" and "lv_pc s = RunPoll" and "isConnected w"
    and "\<not> t_enablePerMessageDeflate (ws_transport w)" and "validateUtf8 (bytes_of (subscribeMsg (lv_client s)))"
  obtains w' where "sendSubscribe sk s = (True, s\<lparr>lv_socket := Some w', lv_pc := RunDone\<rparr>)"
proof -
  define w' where "w' = snd (wsSend sk (bytes_of (subscribeMsg (lv_client s))) False w)"
  define t where "t = snd (sendData sk TEXT_FRAME (bytes_of (subscribeMsg (lv_client s))) False (ws_transport w))"
  have "t_readyState (ws_transport w) = OPEN" using assms(4) by (simp add: isConnected_def)
  from broken_sendData [OF assms(1) this, of TEXT_FRAME "bytes_of (subscribeMsg (lv_client s))"]
  have t: "t_readyState t = CLOSED" "t_out t \<noteq> []" by (auto simp: t_def dropped_def)
  have w': "w' = deliver t w" using wsSend_text [OF assms(6,4,5), of sk] by (simp add: w'_def t_def)
  have "newMessages w w' \<noteq> []" using t(2) by (simp add: w' newMessages_def deliver_events)
  moreover have "t_readyState (ws_transport w') = CLOSED" using t(1) by (simp add: w')
  ultimately have "sendSubscribe sk s = (True, s\<lparr>lv_socket := Some w', lv_pc := RunDone\<rparr>)"
    using assms(2,3) by (simp add: sendSubscribe_def Let_def w'_def)
  with that show ?thesis by blast
qed

text \<open>One that changes nothing about the connection leaves it open, with nothing to call back.\<close>

lemma sendSubscribe_kept:
  assumes "cs (snd (sendData sk TEXT_FRAME (bytes_of (subscribeMsg (lv_client s))) False (ws_transport w))) = cs (ws_transport w)"
    and "lv_socket s = Some w" and "isConnected w" and "t_out (ws_transport w) = []"
    and "\<not> t_enablePerMessageDeflate (ws_transport w)" and "validateUtf8 (bytes_of (subscribeMsg (lv_client s)))"
  obtains w' where "sendSubscribe sk s = (False, s\<lparr>lv_socket := Some w'\<rparr>)" and "isConnected w'"
    and "rx (ws_transport w') = rx (ws_transport w)"
    and "ws_transport w' =
           (snd (sendData sk TEXT_FRAME (bytes_of (subscribeMsg (lv_client s))) False (ws_transport w)))\<lparr>t_out := []\<rparr>"
proof -
  define w' where "w' = snd (wsSend sk (bytes_of (subscribeMsg (lv_client s))) False w)"
  define t where "t = snd (sendData sk TEXT_FRAME (bytes_of (subscribeMsg (lv_client s))) False (ws_transport w))"
  have "cs t = cs (ws_transport w)" unfolding t_def by (rule assms(1))
  then have t: "t_readyState t = OPEN" "t_out t = []" using assms(3,4) csD(1,2) by (fastforce simp: isConnected_def)+
  have w': "w' = deliver t w" using wsSend_text [OF assms(6,3,5), of sk] by (simp add: w'_def t_def)
  have "newMessages w w' = []" using t(2) by (simp add: w' newMessages_def deliver_events)
  moreover have "t_readyState (ws_transport w') = OPEN" using t(1) by (simp add: w')
  moreover have "rx (ws_transport w') = rx (ws_transport w)" by (simp add: w' deliver_def t_def rx_def) (use rx_sendData in \<open>simp add: rx_def\<close>)
  moreover have "s\<lparr>lv_socket := Some w', lv_pc := lv_pc s\<rparr> = s\<lparr>lv_socket := Some w'\<rparr>" by simp
  ultimately have "sendSubscribe sk s = (False, s\<lparr>lv_socket := Some w'\<rparr>)" "isConnected w'"
    using assms(2) by (simp_all add: sendSubscribe_def Let_def w'_def [symmetric] isConnected_def)
  moreover have "ws_transport w' = t\<lparr>t_out := []\<rparr>" by (simp add: w' deliver_def)
  ultimately show ?thesis
    using that \<open>rx (ws_transport w') = rx (ws_transport w)\<close> unfolding t_def by blast
qed

section \<open>An idle connection\<close>

text \<open>
  A connection on which nothing arrives. As long as \<open>up n\<close> holds, \<open>n\<close> more bytes are taken, in parts perhaps,
  and waiting without a time limit does not end.
\<close>

definition idle_socket :: "'k sock_api \<Rightarrow> (nat \<Rightarrow> 'k \<Rightarrow> bool) \<Rightarrow> bool" where
  "idle_socket sk up \<longleftrightarrow>
     (\<forall>n k bs ret k'. up n k \<longrightarrow> bs \<noteq> [] \<longrightarrow> length bs \<le> n \<longrightarrow> sk_send sk bs k = (ret, k') \<longrightarrow>
        0 < ret \<and> ret \<le> int (length bs) \<and> up (n - nat ret) k') \<and>
     (\<forall>n k. up n k \<longrightarrow> sk_isReadyToRead sk (- 1) k = None \<and> sk_isWakeUpFromPollSupported sk k)"

text \<open>What is sent in that room is sent at once, and nothing else happens.\<close>

definition passed :: "(nat \<Rightarrow> 'k \<Rightarrow> bool) \<Rightarrow> nat \<Rightarrow> 'k transport \<Rightarrow> bool \<times> 'k transport \<Rightarrow> bool" where
  "passed up n t r \<longleftrightarrow> fst r \<and> t_txbuf (snd r) = [] \<and> up n (t_socket (snd r)) \<and> cs (snd r) = cs t"

lemma idle_sendOnSocket:
  "idle_socket sk up \<Longrightarrow> up (length (t_txbuf t) + m) (t_socket t) \<Longrightarrow> passed up m t (sendOnSocket sk t)"
proof (induction sk t rule: sendOnSocket.induct)
  case (1 sk t)
  obtain ret k where r: "sk_send sk (t_txbuf t) (t_socket t) = (ret, k)" by fastforce
  show ?case
  proof (cases "t_txbuf t = []")
    case True
    then show ?thesis using "1.prems"(2) by (simp add: sendOnSocket.simps passed_def)
  next
    case False
    have k: "0 < ret" "ret \<le> int (length (t_txbuf t))" "up (length (t_txbuf t) + m - nat ret) k"
      using "1.prems" False r unfolding idle_socket_def by (metis le_add1)+
    define t1 where "t1 = t\<lparr>t_socket := k, t_txbuf := drop (nat ret) (t_txbuf t)\<rparr>"
    have "length (t_txbuf t) + m - nat ret = length (t_txbuf t1) + m" using k(1,2) by (simp add: t1_def)
    then have "passed up m t1 (sendOnSocket sk t1)"
      using "1.IH" [OF False refl r [symmetric] refl _ _ "1.prems"(1)] k by (simp add: t1_def)
    moreover have "sendOnSocket sk t = sendOnSocket sk t1"
      using False k(1) by (subst sendOnSocket.simps) (simp add: r Let_def t1_def)
    moreover have "cs t1 = cs t" by (simp add: t1_def)
    ultimately show ?thesis by (simp add: passed_def)
  qed
qed

text \<open>The bytes of a message with its headers, each of at most 14 bytes.\<close>

definition frameRoom :: nat where
  "frameRoom = 14"

definition wireRoom :: "byte list \<Rightarrow> nat" where
  "wireRoom m = length m + frameRoom * (length m div kChunkSize + 1)"

lemma length_frameHeader: "length (frameHeader useMask type fin c n (maskingKey x)) \<le> frameRoom"
  by (simp add: frameHeader_def Let_def frameRoom_def)

lemma idle_sendFragment:
  assumes "idle_socket sk up" and "t_txbuf t = []" and "up (length m + frameRoom + n) (t_socket t)"
  obtains j where "passed up (n + j) t (sendFragment sk type fin m c t)"
proof -
  define h where "h = frameHeader (t_useMask t) type fin c (of_nat (length m)) (maskingKey (sk_seconds sk (t_socket t)))"
  define t1 where "t1 = appendToSendBuffer h m (maskingKey (sk_seconds sk (t_socket t))) t"
  have "length h \<le> frameRoom" unfolding h_def by (rule length_frameHeader)
  moreover have "length (t_txbuf t1) = length h + length m" using assms(2) by (simp add: t1_def appendToSendBuffer_def)
  ultimately have "length (t_txbuf t1) + (n + (frameRoom - length h)) = length m + frameRoom + n" by simp
  moreover have "t_socket t1 = t_socket t" by (simp add: t1_def appendToSendBuffer_def)
  ultimately have "up (length (t_txbuf t1) + (n + (frameRoom - length h))) (t_socket t1)" using assms(3) by metis
  from idle_sendOnSocket [OF assms(1) this] have "passed up (n + (frameRoom - length h)) t1 (sendOnSocket sk t1)" .
  moreover have "cs t1 = cs t" "sendFragment sk type fin m c t = sendOnSocket sk t1"
    by (simp_all add: t1_def h_def sendFragment_def Let_def)
  ultimately show ?thesis using that [of "frameRoom - length h"] by (simp add: passed_def)
qed

lemma idle_sendSteps:
  assumes "idle_socket sk up" and "t_txbuf t = []" and "up (length w + frameRoom * n + m) (t_socket t)"
    and "n = 0 \<or> (n - 1) * kChunkSize \<le> length w"
  shows "\<exists>j. passed up j t (sendSteps sk type c n w t)"
  using assms(2-)
proof (induction n arbitrary: type w t m)
  case 0
  then show ?case by (intro exI [of _ "length w + m"]) (simp add: passed_def)
next
  case (Suc n)
  define part where "part = (if n = 0 then w else take kChunkSize w)"
  define rest where "rest = drop kChunkSize w"
  have part: "n \<noteq> 0 \<Longrightarrow> length w = length part + length rest"
    using Suc.prems(3) by (cases n) (auto simp: part_def rest_def)
  have "length part \<le> length w" by (simp add: part_def)
  then have "length w + frameRoom * Suc n + m = length part + frameRoom + ((length w - length part) + frameRoom * n + m)" by simp
  then obtain j where "passed up ((length w - length part) + frameRoom * n + m + j) t
      (sendFragment sk type (n = 0) part c t)"
    using idle_sendFragment [OF assms(1) Suc.prems(1)] Suc.prems(2) by metis
  then obtain t1 where f: "sendFragment sk type (n = 0) part c t = (True, t1)" "t_txbuf t1 = []" "cs t1 = cs t"
    and up: "up ((length w - length part) + frameRoom * n + m + j) (t_socket t1)"
    by (cases "sendFragment sk type (n = 0) part c t") (auto simp: passed_def)
  have steps: "sendSteps sk type c (Suc n) w t = sendSteps sk CONTINUATION c n rest t1"
    using f(1) by (simp add: part_def rest_def)
  show ?case
  proof (cases "n = 0")
    case True
    then show ?thesis unfolding steps using f up by (auto simp: passed_def)
  next
    case False
    with part have "(length w - length part) + frameRoom * n + m + j = length rest + frameRoom * n + (m + j)" by simp
    moreover have "(n - 1) * kChunkSize \<le> length rest"
      using Suc.prems(3) False by (cases n) (auto simp: rest_def)
    ultimately obtain i where "passed up i t1 (sendSteps sk CONTINUATION c n rest t1)"
      using Suc.IH [OF f(2), of rest "m + j" CONTINUATION] up by (metis (no_types))
    then show ?thesis unfolding steps using f(3) by (auto simp: passed_def)
  qed
qed

lemma idle_sendData:
  assumes "idle_socket sk up" and "t_txbuf t = []" and "up (wireRoom m) (t_socket t)" and "t_readyState t = OPEN"
  shows "\<exists>j. up j (t_socket (snd (sendData sk type m False t)))" and "cs (snd (sendData sk type m False t)) = cs t"
proof -
  have all: "\<exists>j. passed up j t (sendSteps sk type False (length m div kChunkSize) m t)"
  proof (rule idle_sendSteps [OF assms(1,2)])
    show "up (length m + frameRoom * (length m div kChunkSize) + frameRoom) (t_socket t)"
      using assms(3) by (simp add: wireRoom_def algebra_simps)
    have "(length m div kChunkSize - 1) * kChunkSize \<le> (length m div kChunkSize) * kChunkSize" by simp
    then show "length m div kChunkSize = 0 \<or> (length m div kChunkSize - 1) * kChunkSize \<le> length m"
      using div_times_less_eq_dividend [of "length m" kChunkSize] by linarith
  qed
  have "(\<exists>j. up j (t_socket (snd (sendData sk type m False t)))) \<and> cs (snd (sendData sk type m False t)) = cs t"
  proof (cases rule: sendData_cases [of t sk type m False])
    case (single wire ok t1)
    then have "length wire + frameRoom + frameRoom * (length wire div kChunkSize) = wireRoom m" by (simp add: wireRoom_def algebra_simps)
    with assms(3) single(1) have "up (length wire + frameRoom + frameRoom * (length wire div kChunkSize)) (t_socket t)" by simp
    from idle_sendFragment [OF assms(1,2) this, of type True False] single show ?thesis by (auto simp: passed_def)
  next
    case (failed wire t1)
    with all show ?thesis by (auto simp: passed_def)
  next
    case (several wire t1)
    with all show ?thesis by (auto simp: passed_def)
  qed (use assms(4) in simp_all)
  then show "\<exists>j. up j (t_socket (snd (sendData sk type m False t)))" "cs (snd (sendData sk type m False t)) = cs t" by blast+
qed

text \<open>An open connection with nothing to do; on an idle socket its run loop waits.\<close>

definition idle :: "'k websocket \<Rightarrow> bool" where
  "idle w \<longleftrightarrow>
     isConnected w \<and> t_out (ws_transport w) = [] \<and> \<not> ws_stop w \<and> t_pingIntervalSecs (ws_transport w) \<le> 0 \<and>
     starved (ws_transport w)"

lemma idle_blocks:
  assumes "idle_socket sk up" and "idle w" and "t_pingIntervalSecs (ws_transport w) = - 1"
    and "\<not> t_requestInitCancellation (ws_transport w)" and "up n (t_socket (ws_transport w))"
  shows "runStep sk conn (RunPoll, w) = None"
proof -
  define t where "t = ws_transport w"
  have t: "t_readyState t = OPEN" "t_pingIntervalSecs t = - 1" "\<not> t_requestInitCancellation t"
    using assms(2-4) by (simp_all add: idle_def isConnected_def t_def)
  have k: "sk_isReadyToRead sk (- 1) (t_socket t) = None" "sk_isWakeUpFromPollSupported sk (t_socket t)"
    using assms(1,5) by (auto simp: idle_socket_def t_def)
  have "heartBeatStep sk t = t" using t(2) by (simp add: heartBeatStep_def pingIntervalExceeded_def)
  moreover have "pollTimeout sk t = - 1" using t k(2) by (simp add: pollTimeout_def)
  ultimately have "poll sk t = None" using k(1) by (simp add: poll_def)
  then show ?thesis by (simp add: t_def)
qed

end
