(* ===== verification/AisDemo.thy ===== *)
theory AisDemo
  imports AisMessages
begin

text \<open>
  Concrete instances of the two libraries the client is parametrised by, for the witnesses: a
  JSON value type with jsoncpp's type errors, and a few functions of wxWidgets on ASCII text.
  Nothing of the program is modelled here.
\<close>

datatype jval =
  JNull | JBool bool | JNum real | JUInt uint32 | JStr string | JArr "jval list"
  | JObj "(string \<times> jval) list"

fun jv_isMember :: "jval \<Rightarrow> string \<Rightarrow> (json_exn, bool) result" where
  "jv_isMember (JObj kvs) k = Inr (map_of kvs k \<noteq> None)"
| "jv_isMember JNull k = Inr False"
| "jv_isMember _ k = Inl JsonLogicError"

fun jv_get :: "jval \<Rightarrow> string \<Rightarrow> (json_exn, jval) result" where
  "jv_get (JObj kvs) k = Inr (case map_of kvs k of None \<Rightarrow> JNull | Some v \<Rightarrow> v)"
| "jv_get JNull k = Inr JNull"
| "jv_get _ k = Inl JsonLogicError"

fun jv_asString :: "jval \<Rightarrow> (json_exn, string) result" where
  "jv_asString (JStr s) = Inr s"
| "jv_asString JNull = Inr []"
| "jv_asString (JBool b) = Inr (if b then ''true'' else ''false'')"
| "jv_asString _ = Inl JsonLogicError"

fun jv_isString :: "jval \<Rightarrow> bool" where
  "jv_isString (JStr _) = True"
| "jv_isString _ = False"

fun jv_isArray :: "jval \<Rightarrow> bool" where
  "jv_isArray (JArr _) = True"
| "jv_isArray _ = False"

fun jv_elems :: "jval \<Rightarrow> jval list" where
  "jv_elems (JArr vs) = vs"
| "jv_elems (JObj kvs) = map snd kvs"
| "jv_elems _ = []"

fun jv_append :: "jval \<Rightarrow> jval \<Rightarrow> jval" where
  "jv_append (JArr vs) v = JArr (vs @ [v])"
| "jv_append _ v = JArr [v]"

fun jv_set :: "jval \<Rightarrow> string \<Rightarrow> jval \<Rightarrow> jval" where
  "jv_set (JObj kvs) k v = JObj ((k, v) # kvs)"
| "jv_set _ k v = JObj [(k, v)]"

text \<open>A table of the payloads the witnesses use.\<close>

definition demo_error_frame :: string where
  "demo_error_frame = ''E''"

definition demo_event_frame :: string where
  "demo_event_frame = ''V''"

definition demo_array_frame :: string where
  "demo_array_frame = ''[]''"

definition jv_parse :: "string \<Rightarrow> jval option" where
  "jv_parse s =
     (if s = ''E'' then Some (JObj [(''type'', JStr ''error''), (''error'', JStr ''busy'')])
      else if s = ''V'' then
        Some (JObj [(''type'', JStr ''event''),
                    (''nmea'', JArr [JStr ''!AIVDM,1'', JNull, JStr ''$GPGGA''])])
      else if s = ''[]'' then Some (JArr [])
      else None)"

definition demo_js :: "jval json_api" where
  "demo_js =
     \<lparr>js_parse = jv_parse, js_isMember = jv_isMember, js_get = jv_get,
      js_asString = jv_asString, js_isString = jv_isString, js_isArray = jv_isArray,
      js_elems = jv_elems, js_null = JNull, js_arrayValue = JArr [], js_append = jv_append,
      js_set = jv_set, js_ofDouble = JNum, js_ofUInt = JUInt, js_ofString = JStr,
      js_ofBool = JBool, js_write = (\<lambda>v. ''{}'' @ [CHR 0x0A])\<rparr>"

fun digits_value :: "nat \<Rightarrow> string \<Rightarrow> nat option" where
  "digits_value acc [] = Some acc"
| "digits_value acc (c # cs) =
     (let d = (of_char c :: nat) in
      if 48 \<le> d \<and> d \<le> 57 then digits_value (10 * acc + (d - 48)) cs else None)"

fun decimal_digits :: "nat \<Rightarrow> nat \<Rightarrow> string" where
  "decimal_digits 0 n = []"
| "decimal_digits (Suc k) n = decimal_digits k (n div 10) @ [''0123456789'' ! (n mod 10)]"

lemma decimal_digits_numeral:
  "decimal_digits (numeral k) n = decimal_digits (pred_numeral k) (n div 10) @ [''0123456789'' ! (n mod 10)]"
  using decimal_digits.simps(2) [of "pred_numeral k" n] by (simp only: numeral_eq_Suc [symmetric])

lemma decimal_digits_one: "decimal_digits 1 n = [''0123456789'' ! (n mod 10)]"
  using decimal_digits.simps(2) [of 0 n] by simp

definition demo_wx :: wx_api where
  "demo_wx =
     \<lparr>wx_FromUTF8 = id,
      wx_ToULong = (\<lambda>s. if s = [] then None else digits_value 0 s),
      wx_Tokenize = (\<lambda>s. if s = [] then [] else split_on (CHR '','') s),
      wx_TrimRight = (\<lambda>s. rev (dropWhile (\<lambda>c. c = CHR '' '') (rev s))),
      wx_TrimLeft = dropWhile (\<lambda>c. c = CHR '' ''),
      wx_fmt6f = (\<lambda>_. ''0''), wx_fmt0f = (\<lambda>_. ''0''),
      wx_fmtu = (\<lambda>n. decimal_digits 9 (unat n)), wx_fmt09u = (\<lambda>n. decimal_digits 9 (unat n)),
      wx_tr = id\<rparr>"

lemmas demo_defs = demo_js_def demo_wx_def jv_parse_def demo_error_frame_def
  demo_event_frame_def demo_array_frame_def

end
