(* ===== verification/AisClientProperties.thy ===== *)
theory AisClientProperties
  imports AisSupervisorProofs AisDemo
begin

text \<open>
  The properties of the stream client, each with a witness on the concrete library instances
  of \<open>AisDemo\<close>: what it forwards and requests, how its two threads stop, what it reports and
  how it paces reconnections.
\<close>

section \<open>Runs\<close>

lemma ais_reachable_run:
  "ais_reachable wx js s \<Longrightarrow> ais_run wx js s es = Some s' \<Longrightarrow> ais_reachable wx js s'"
  by (induction es arbitrary: s) (auto split: option.splits intro: ais_next)

lemma ais_run_append:
  "ais_run wx js s (es @ fs) =
     (case ais_run wx js s es of None \<Rightarrow> None | Some s' \<Rightarrow> ais_run wx js s' fs)"
  by (induction es arbitrary: s) (auto split: option.split)

lemma ais_run_then:
  "ais_run wx js s es = Some s' \<Longrightarrow> ais_run wx js s (es @ fs) = ais_run wx js s' fs"
  by (simp add: ais_run_append)

definition demo_args :: start_args where
  "demo_args =
     \<lparr>sa_latitude = 48, sa_longitude = -4, sa_boxSizeDegrees = 1,
      sa_activateVesselsFollowing = True, sa_mmsiList = [227000000], sa_snapshot = False,
      sa_onSentence = True\<rparr>"

definition demo_run :: "ais_event list \<Rightarrow> ais_sys" where
  "demo_run es = the (ais_run demo_wx demo_js ais_sys_init es)"

text \<open>Runs of the demo instance evaluate by these rules.\<close>

lemmas run_simps = ais_step_def ais_sys_init_def ais_client_init_def Start_def clientStart_def
  threadArgs_def demo_args_def StopFlag_def StopClose_def StopJoin_def Restart_def clientStop_def
  supLoop_def supPublish_def supTeardown_def supAfter_def supSleep_def supExit_def report_def
  SetState_def SetToken_def SetTokenEnabled_def SetStateCallback_def makeSocket_def onOpen_def
  onMessage_def onError_def onClose_def

text \<open>The demo client inside a session, and the same client in \<open>Stop\<close>, waiting to join.\<close>

definition demo_session :: "ais_event list" where
  "demo_session = [CallStart demo_args, SupStep, SupStep, SessionEvent (IxOpen False)]"

definition demo_stopping :: "ais_event list" where
  "demo_stopping = demo_session @ [CallStop, CallerStep]"

lemma demo_session_run:
  "ais_run demo_wx demo_js ais_sys_init demo_session = Some (demo_run demo_session)"
  "sup (demo_run demo_session) = SupRun" "m_streaming (client (demo_run demo_session))"
  "caller (demo_run demo_session) = CallerIdle" "\<not> terminated (demo_run demo_session)"
  "m_socket (demo_run demo_session) \<noteq> None"
  by (simp_all add: demo_run_def demo_session_def run_simps)

lemma demo_stopping_run:
  "ais_run demo_wx demo_js ais_sys_init demo_stopping = Some (demo_run demo_stopping)"
  "sup (demo_run demo_stopping) = SupRun" "caller (demo_run demo_stopping) = CallerJoin None"
  "\<not> terminated (demo_run demo_stopping)" "m_socket (demo_run demo_stopping) \<noteq> None"
  by (simp_all add: demo_run_def demo_stopping_def demo_session_def run_simps)

lemmas demo_session_reachable = ais_reachable_run [OF ais_start demo_session_run(1)]
lemmas demo_stopping_reachable = ais_reachable_run [OF ais_start demo_stopping_run(1)]


section \<open>Stopping\<close>

definition returnEvents :: "ais_sys \<Rightarrow> ais_event list" where
  "returnEvents s = (if sup s = SupRun then [SessionReturn] else [])"

lemma stop_drain:
  assumes "\<not> m_streaming (client s)" and "\<not> terminated s"
  shows "\<exists>k \<le> 3. \<exists>s'. ais_run wx js s (returnEvents s @ replicate k SupStep) = Some s' \<and>
           sup s' = (if sup s = SupNone then SupNone else SupDone) \<and>
           client s' = client s \<and> caller s' = caller s \<and> \<not> terminated s'"
proof (cases "sup s")
  case SupNone
  with assms show ?thesis by (intro exI [of _ 0]) (simp add: returnEvents_def)
next
  case SupDone
  with assms show ?thesis by (intro exI [of _ 0]) (simp add: returnEvents_def)
next
  case SupExit
  with assms show ?thesis
    by (intro exI [of _ 1]) (simp add: returnEvents_def ais_step_def sup_defs)
next
  case SupLoop
  with assms show ?thesis
    by (intro exI [of _ 2]) (simp add: returnEvents_def ais_step_def sup_defs numeral_2_eq_2)
next
  case SupPublish
  with assms show ?thesis
    by (intro exI [of _ 2]) (simp add: returnEvents_def ais_step_def sup_defs numeral_2_eq_2)
next
  case SupAfter
  with assms show ?thesis
    by (intro exI [of _ 2]) (simp add: returnEvents_def ais_step_def sup_defs numeral_2_eq_2)
next
  case SupRun
  with assms show ?thesis
    by (intro exI [of _ 3]) (simp add: returnEvents_def ais_step_def sup_defs numeral_3_eq_3)
next
  case SupTeardown
  with assms show ?thesis
    by (intro exI [of _ 3]) (simp add: returnEvents_def ais_step_def sup_defs numeral_3_eq_3)
next
  case (SupSleep i)
  with assms show ?thesis
    by (intro exI [of _ 3]) (simp add: returnEvents_def ais_step_def sup_defs numeral_3_eq_3)
qed

lemma caller_busy_not_streaming:
  "sys_inv s \<Longrightarrow> caller s \<noteq> CallerIdle \<Longrightarrow> \<not> m_streaming (client s)"
  by (auto simp: sys_inv_def threads_inv_def split: if_splits)

text \<open>C8. Once \<open>Stop\<close> waits to join and the current session has returned (if the thread is in
  one), at most three steps of the supervisor end its thread; the join then succeeds, and
  leaves no thread and no socket. If there was a thread, the last state it reported is
  \<open>Stopped\<close>.\<close>

theorem stop_returns:
  assumes "ais_reachable wx js s" and "\<not> terminated s" and "caller s = CallerJoin None"
  shows "\<exists>k \<le> 3. \<exists>s'. ais_run wx js s (returnEvents s @ replicate k SupStep @ [CallerStep]) = Some s' \<and>
           caller s' = CallerIdle \<and> sup s' = SupNone \<and> m_socket s' = None \<and>
           client s' = client s \<and> (sup s \<noteq> SupNone \<longrightarrow> last (reports s') = (Stopped, []))"
proof -
  from assms(1) have inv: "sys_inv s" by (rule ais_reachable_inv)
  with assms(3) have "\<not> m_streaming (client s)" by (simp add: caller_busy_not_streaming)
  from stop_drain [OF this assms(2), of wx js] obtain k s1 where
    k: "k \<le> 3" "ais_run wx js s (returnEvents s @ replicate k SupStep) = Some s1" and
    s1: "sup s1 = (if sup s = SupNone then SupNone else SupDone)" "client s1 = client s"
      "caller s1 = caller s" "\<not> terminated s1"
    by blast
  from ais_reachable_run [OF assms(1) k(2)] have "sys_inv s1" by (rule ais_reachable_inv)
  then have sock: "m_socket s1 = None" and rep: "sup s1 = SupDone \<longrightarrow> last (reports s1) = (Stopped, [])"
    using s1 by (auto simp: sys_inv_def sockets_inv_def stopped_inv_def split: if_splits)
  let ?s' = "s1\<lparr>sup := SupNone, caller := CallerIdle\<rparr>"
  have "ais_run wx js s ((returnEvents s @ replicate k SupStep) @ [CallerStep]) = Some ?s'"
    unfolding ais_run_then [OF k(2)] using s1 assms(3) by (simp add: ais_step_def StopJoin_def)
  with k(1) s1 sock rep show ?thesis by (intro exI [of _ k] conjI exI [of _ ?s']) simp_all
qed

theorem stop_returns_witness:
  "\<exists>k \<le> 3. \<exists>s'. ais_run demo_wx demo_js (demo_run demo_stopping)
       (returnEvents (demo_run demo_stopping) @ replicate k SupStep @ [CallerStep]) = Some s' \<and>
     sup s' = SupNone \<and> last (reports s') = (Stopped, [])"
  using stop_returns [OF demo_stopping_reachable demo_stopping_run(4,3)] demo_stopping_run(2)
  by auto

text \<open>
  What the other threads do while a call of the client is in progress: steps of the supervisor,
  callbacks of its session, and the session's return.
\<close>

fun byOthers :: "ais_event \<Rightarrow> bool" where
  "byOthers SupStep = True"
| "byOthers (SessionEvent e) = True"
| "byOthers SessionReturn = True"
| "byOthers _ = False"

lemma byOthers_frame:
  assumes "ais_run wx js s es = Some s'" and "list_all byOthers es"
  shows "client s' = client s \<and> caller s' = caller s"
  using assms
proof (induction es arbitrary: s)
  case (Cons e es)
  then obtain t where t: "ais_step wx js s e = Some t" "ais_run wx js t es = Some s'" "byOthers e"
    by (auto split: option.splits)
  then have "client t = client s \<and> caller t = caller s"
    by (cases e) (auto simp: ais_step_def onMessageCallback_frame dest: supStep_frame split: if_splits)
  with Cons.IH [OF t(2)] Cons.prems(2) show ?case by simp
qed simp

text \<open>What the sequential \<open>clientRestart\<close> makes of the client, and the thread it leaves.\<close>

definition restarted :: "'j json_api \<Rightarrow> start_args \<Rightarrow> ais_client \<Rightarrow> ais_sys \<Rightarrow> bool" where
  "restarted js a cl s' \<longleftrightarrow>
     caller s' = CallerIdle \<and> client s' = fst (clientRestart js a cl) \<and>
     (case snd (snd (clientRestart js a cl)) of
        None \<Rightarrow> sup s' = SupNone \<and> last (reports s') = (Error, missingTokenMessage)
      | Some (msg, auth) \<Rightarrow> sup s' = SupLoop \<and> subscribeMsg s' = msg \<and> authToken s' = auth \<and>
          backoffSeconds s' = kInitialBackoffSeconds \<and> m_socket s' = None)"

lemma restart_joined:
  assumes "sys_inv s" and "caller s = CallerJoin (Some a)" and "client s = clientStop cl"
    and "m_streaming cl" and "callerStep js s (caller s) = Some s'"
  shows "restarted js a cl s'"
proof -
  let ?t = "s\<lparr>sup := SupNone, caller := CallerIdle\<rparr>"
  from assms(2,5) have gone: "sup s = SupNone \<or> sup s = SupDone" and start: "Start js a ?t = Some s'"
    by (auto simp: StopJoin_def Let_def split: if_splits)
  from gone assms(1) have "m_socket s = None" by (auto simp: sys_inv_def sockets_inv_def)
  with start assms(3,4) show ?thesis
    by (auto simp: restarted_def clientRestart_def Start_def clientStart_def clientStop_def
        threadArgs_def report_def split: if_splits)
qed

lemma Start_free: "sup s = SupNone \<Longrightarrow> \<exists>s'. Start js a s = Some s'"
  by (auto simp: Start_def split: prod.splits option.splits)

text \<open>C9. \<open>Restart\<close> of a running client against every interleaving: \<open>es1\<close> is whatever the supervisor
  and its session do between the cleared flag and the locked section of \<open>Stop\<close>, \<open>es2\<close> whatever
  they do between that section and the join, any number of steps of either kind in any order.
  Whenever the join succeeds then, the call has the outcome of the sequential \<open>clientRestart\<close>:
  the old thread is gone, and the new one runs with the new subscribe message and token and the
  initial delay, or there is none and the missing token is reported. And the join does succeed,
  unless an exception in a callback has ended the process: once the session returns (if the
  thread is in one), at most three steps of the supervisor let it.\<close>

theorem restart_refines:
  assumes "ais_reachable wx js s" and "caller s = CallerIdle" and "m_streaming (client s)"
    and "list_all byOthers es1" and "list_all byOthers es2"
    and "ais_run wx js s (CallRestart a # es1 @ CallerStep # es2) = Some s1"
  shows "(\<forall>s'. ais_step wx js s1 CallerStep = Some s' \<longrightarrow> restarted js a (client s) s') \<and>
         (terminated s1 \<or>
          (\<exists>k \<le> 3. \<exists>s'. ais_run wx js s1 (returnEvents s1 @ replicate k SupStep @ [CallerStep]) = Some s' \<and>
             restarted js a (client s) s'))"
proof -
  from assms(2,3,6) obtain s2 s3 where
    s2: "ais_run wx js (StopFlag (Some a) s) es1 = Some s2" and
    s3: "ais_step wx js s2 CallerStep = Some s3" "ais_run wx js s3 es2 = Some s1"
    by (auto simp: ais_step_def Restart_def ais_run_append split: if_splits option.splits)
  from byOthers_frame [OF s2 assms(4)] s3(1)
  have "s3 = StopClose (Some a) s2" "client s2 = clientStop (client s)"
    by (auto simp: ais_step_def StopFlag_def split: if_splits)
  with byOthers_frame [OF s3(2) assms(5)]
  have s1: "client s1 = clientStop (client s)" "caller s1 = CallerJoin (Some a)"
    by (simp_all add: StopClose_def)
  have reach: "ais_reachable wx js s1" by (rule ais_reachable_run [OF assms(1,6)])
  have safe: "restarted js a (client s) s'"
    if "ais_reachable wx js t" "client t = client s1" "caller t = caller s1"
      "ais_step wx js t CallerStep = Some s'" for t s'
    using restart_joined [OF ais_reachable_inv [OF that(1)], of a "client s" js s'] that s1 assms(3)
    by (simp add: ais_step_def split: if_splits)
  have "\<exists>k \<le> 3. \<exists>s'. ais_run wx js s1 (returnEvents s1 @ replicate k SupStep @ [CallerStep]) = Some s' \<and>
      restarted js a (client s) s'" if live: "\<not> terminated s1"
  proof -
    have "\<not> m_streaming (client s1)" by (simp add: s1(1) clientStop_def)
    from stop_drain [OF this live, of wx js] obtain k t where
      k: "k \<le> 3" "ais_run wx js s1 (returnEvents s1 @ replicate k SupStep) = Some t" and
      t: "sup t = SupNone \<or> sup t = SupDone" "client t = client s1" "caller t = caller s1" "\<not> terminated t"
      by (metis (no_types, lifting))
    from t(1,3,4) s1(2) Start_free [of "t\<lparr>sup := SupNone, caller := CallerIdle\<rparr>" js a]
    obtain s' where s': "ais_step wx js t CallerStep = Some s'"
      by (auto simp: ais_step_def StopJoin_def)
    have "ais_run wx js s1 ((returnEvents s1 @ replicate k SupStep) @ [CallerStep]) = Some s'"
      unfolding ais_run_then [OF k(2)] using s' by simp
    with safe [OF ais_reachable_run [OF reach k(2)] t(2,3) s'] k(1) show ?thesis
      by (intro exI [of _ k] conjI exI [of _ s']) simp_all
  qed
  with safe [OF reach refl refl] show ?thesis by blast
qed

text \<open>The session hears an error and returns before the locked section, and the supervisor takes
  its socket down after it.\<close>

theorem restart_refines_witness:
  "\<exists>k \<le> 3. \<exists>s'. ais_run demo_wx demo_js (demo_run demo_session)
       ((CallRestart demo_args # [SessionEvent (IxError ''x''), SessionReturn] @ CallerStep # [SupStep]) @
        replicate k SupStep @ [CallerStep]) = Some s' \<and>
     restarted demo_js demo_args (client (demo_run demo_session)) s'"
proof -
  let ?es = "CallRestart demo_args # [SessionEvent (IxError ''x''), SessionReturn] @ CallerStep # [SupStep]"
  obtain s1 where s1: "ais_run demo_wx demo_js (demo_run demo_session) ?es = Some s1"
      "sup s1 \<noteq> SupRun" "\<not> terminated s1"
    by (simp add: demo_run_def demo_session_def run_simps)
  then have "returnEvents s1 = []" by (simp add: returnEvents_def)
  with restart_refines [OF demo_session_reachable demo_session_run(4,3) _ _ s1(1)] s1(3)
  show ?thesis unfolding ais_run_then [OF s1(1)] by simp
qed

text \<open>C7. A session is never missed by \<open>Stop\<close>: when \<open>Stop\<close> is past its locked section, a socket
  that is published has been closed, although the supervisor may publish one at any moment
  before.\<close>

theorem stop_misses_no_socket:
  assumes "ais_reachable wx js s" and "caller s = CallerJoin next" and "m_socket s = Some h"
  shows "ws_closed h \<and> \<not> m_streaming (client s)"
  using ais_reachable_inv [OF assms(1)] assms(2,3) caller_busy_not_streaming [of s]
  by (auto simp: sys_inv_def closed_inv_def)

theorem stop_misses_no_socket_witness:
  "\<exists>h. m_socket (demo_run demo_stopping) = Some h \<and> ws_closed h"
proof -
  from demo_stopping_run(5) obtain h where h: "m_socket (demo_run demo_stopping) = Some h" by auto
  from stop_misses_no_socket [OF demo_stopping_reachable demo_stopping_run(3) h] h
  show ?thesis by blast
qed

text \<open>C13. With no call in progress, there is a supervisor thread exactly when streaming is
  wanted, so \<open>Start\<close> never meets a thread it would have to reap, and no socket or thread
  outlives \<open>Stop\<close>.\<close>

theorem no_orphan_thread:
  assumes "ais_reachable wx js s" and "caller s = CallerIdle"
  shows "(sup s \<notin> {SupNone, SupExit, SupDone}) = m_streaming (client s) \<and>
         (\<not> m_streaming (client s) \<longrightarrow> sup s = SupNone \<and> m_socket s = None) \<and>
         (\<exists>s'. Start js a s = Some s')"
proof -
  from ais_reachable_inv [OF assms(1)] assms(2)
  have sup: "if m_streaming (client s) then sup s \<notin> {SupNone, SupExit, SupDone} else sup s = SupNone"
    and sock: "m_socket s \<noteq> None \<longleftrightarrow> sup s = SupRun \<or> sup s = SupTeardown"
    by (simp_all add: sys_inv_def threads_inv_def sockets_inv_def split: if_splits)
  then have "\<exists>s'. Start js a s = Some s'"
    by (auto simp: Start_def clientStart_def split: prod.split option.split)
  with sup sock show ?thesis by (auto split: if_splits)
qed

theorem no_orphan_thread_witness:
  "(sup (demo_run demo_session) \<notin> {SupNone, SupExit, SupDone}) =
     m_streaming (client (demo_run demo_session))"
  using no_orphan_thread [OF demo_session_reachable demo_session_run(4)] by blast

text \<open>C14. Every session uses the fixed URL, so the token is never part of it; the token, if there
  is one, is the bearer of the \<open>Authorization\<close> header and the only header; the library's own
  reconnection is off; and nothing but the subscribe message of this thread is sent.\<close>

theorem session_configuration:
  assumes "ais_reachable wx js s" and "m_socket s = Some h"
  shows "ws_url h = kAisUrl \<and> \<not> ws_reconnect h \<and> set (ws_sent h) \<subseteq> {subscribeMsg s} \<and>
         ws_headers h =
           (if authToken s = [] then [] else [(''Authorization'', ''Bearer '' @ authToken s)])"
proof -
  from ais_reachable_inv [OF assms(1)] assms(2)
  have h: "h\<lparr>ws_closed := False, ws_sent := []\<rparr> = makeSocket (authToken s)"
    and sent: "set (ws_sent h) \<subseteq> {subscribeMsg s}"
    by (simp_all add: sys_inv_def handle_inv_def)
  from arg_cong [OF h, of ws_url] arg_cong [OF h, of ws_reconnect] arg_cong [OF h, of ws_headers] sent
  show ?thesis by (simp add: makeSocket_def)
qed

theorem session_configuration_witness:
  "\<exists>h. m_socket (demo_run demo_session) = Some h \<and> ws_url h = kAisUrl \<and>
       set (ws_sent h) \<subseteq> {subscribeMsg (demo_run demo_session)}"
proof -
  from demo_session_run(6) obtain h where h: "m_socket (demo_run demo_session) = Some h" by auto
  from session_configuration [OF demo_session_reachable h] h show ?thesis by blast
qed

text \<open>C12. The reported states follow the life of the sessions: \<open>Running\<close>, and any \<open>Error\<close> other
  than the one for a missing token, is reported only after a \<open>Connecting\<close> and before the next
  \<open>Stopped\<close>; a thread that has returned has reported \<open>Stopped\<close> last, to the callback too.\<close>

theorem reports_ordered:
  assumes "ais_reachable wx js s"
  shows "wellOrdered False (reports s) \<and>
         (sup s = SupDone \<longrightarrow> last (reports s) = (Stopped, []) \<and>
            (m_onStateChanged (client s) \<longrightarrow> last (log s) = StateReport Stopped []))"
  using ais_reachable_order [OF assms] ais_reachable_inv [OF assms]
  by (simp add: order_inv_def sys_inv_def stopped_inv_def)

theorem reports_ordered_witness: "wellOrdered False (reports (demo_run demo_session))"
  using reports_ordered [OF demo_session_reachable] by blast

text \<open>With token authentication on and no token, \<open>Start\<close> refuses: it reports the error
  \<open>Token is missing\<close>, starts no thread, and streaming stays off.\<close>

theorem start_refuses_missing_token:
  assumes "\<not> m_streaming (client s)" and "m_useToken (client s)" and "m_token (client s) = []"
  shows "\<exists>s'. Start js a s = Some s' \<and> reports s' = reports s @ [(Error, ''Token is missing'')] \<and>
              \<not> m_streaming (client s') \<and> sup s' = sup s \<and> client s' = client s"
  using assms by (simp add: Start_def clientStart_def missingTokenMessage_def)

theorem start_refuses_missing_token_witness:
  "\<exists>s'. Start demo_js demo_args (demo_run [CallSetTokenEnabled True]) = Some s' \<and>
        reports s' = [(Error, ''Token is missing'')] \<and> sup s' = SupNone"
  using start_refuses_missing_token [of "demo_run [CallSetTokenEnabled True]" demo_js demo_args]
  by (simp add: demo_run_def run_simps)

section \<open>Reconnecting\<close>

text \<open>The sleep of \<open>b\<close> seconds is ten chunks a second, then one test that ends the loop.\<close>

lemma sleep_run:
  assumes "m_streaming (client s)" and "\<not> terminated s" and "sup s = SupSleep i"
    and "int i + int n = backoffSeconds s * 10"
  shows "ais_run wx js s (replicate (Suc n) SupStep) =
           Some (s\<lparr>backoffSeconds := nextBackoff (backoffSeconds s), sup := SupLoop\<rparr>)"
  using assms
proof (induction n arbitrary: i s)
  case 0
  then show ?case by (simp add: ais_step_def supSleep_def)
next
  case (Suc n)
  let ?s = "s\<lparr>sup := SupSleep (Suc i)\<rparr>"
  from Suc.prems have "ais_step wx js s SupStep = Some ?s"
    by (simp add: ais_step_def supSleep_def)
  moreover have "ais_run wx js ?s (replicate (Suc n) SupStep) =
      Some (?s\<lparr>backoffSeconds := nextBackoff (backoffSeconds ?s), sup := SupLoop\<rparr>)"
    using Suc.prems by (intro Suc.IH [of _ "Suc i"]) simp_all
  ultimately show ?case by simp
qed

definition failedSession :: "int \<Rightarrow> string \<Rightarrow> ais_event list" where
  "failedSession b reason =
     [SupStep, SupStep, SessionEvent (IxError reason), SessionReturn, SupStep, SupStep] @
     replicate (Suc (nat (b * 10))) SupStep"

definition between_sessions :: "ais_sys \<Rightarrow> bool" where
  "between_sessions s \<longleftrightarrow> m_streaming (client s) \<and> \<not> terminated s \<and> sup s = SupLoop"

lemma failedSession_run:
  assumes "between_sessions s" and "0 \<le> backoffSeconds s"
  shows "\<exists>s'. ais_run wx js s (failedSession (backoffSeconds s) reason) = Some s' \<and>
     between_sessions s' \<and> backoffSeconds s' = nextBackoff (backoffSeconds s) \<and>
     reports s' = reports s @ [(Connecting, []), (Error, wx_FromUTF8 wx (c_str reason))]"
proof -
  obtain s1 where s1: "ais_run wx js s
      [SupStep, SupStep, SessionEvent (IxError reason), SessionReturn, SupStep, SupStep] = Some s1"
    and f: "m_streaming (client s1)" "\<not> terminated s1" "sup s1 = SupSleep 0"
      "backoffSeconds s1 = backoffSeconds s"
      "reports s1 = reports s @ [(Connecting, []), (Error, wx_FromUTF8 wx (c_str reason))]"
    using assms(1)
    by (simp add: between_sessions_def ais_step_def sup_defs onError_def chooseBackoff_def)
  have "ais_run wx js s1 (replicate (Suc (nat (backoffSeconds s * 10))) SupStep) =
      Some (s1\<lparr>backoffSeconds := nextBackoff (backoffSeconds s1), sup := SupLoop\<rparr>)"
    using f assms(2) by (intro sleep_run [where i = 0]) simp_all
  with f show ?thesis
    unfolding failedSession_def ais_run_then [OF s1] by (simp add: between_sessions_def)
qed

text \<open>C10. After \<open>n\<close> sessions in a row that fail to connect, the next wait is
  \<open>min (2^(n+1)) 30\<close> seconds, and the thread spent the whole of each earlier wait asleep: it
  waited 2, 4, 8, 16, 30, 30, \<dots> seconds and reported an error for each failure.\<close>

theorem failed_sessions_back_off:
  assumes "between_sessions s" and "backoffSeconds s = kInitialBackoffSeconds"
  shows "\<exists>s'. ais_run wx js s
           (concat (map (\<lambda>i. failedSession (min (2 ^ Suc i) kMaxBackoffSeconds) reason) [0..<n])) =
           Some s' \<and> between_sessions s' \<and> backoffSeconds s' = min (2 ^ Suc n) kMaxBackoffSeconds \<and>
           length (reports s') = length (reports s) + 2 * n"
proof (induction n)
  case 0
  with assms show ?case by (simp add: backoff_defs)
next
  case (Suc n)
  then obtain s1 where s1: "ais_run wx js s
      (concat (map (\<lambda>i. failedSession (min (2 ^ Suc i) kMaxBackoffSeconds) reason) [0..<n])) = Some s1"
    "between_sessions s1" "backoffSeconds s1 = min (2 ^ Suc n) kMaxBackoffSeconds"
    "length (reports s1) = length (reports s) + 2 * n"
    by blast
  have "0 \<le> backoffSeconds s1" by (simp add: s1(3) kMaxBackoffSeconds_def)
  from failedSession_run [OF s1(2) this, of wx js reason] obtain s2 where
    s2: "ais_run wx js s1 (failedSession (backoffSeconds s1) reason) = Some s2"
      "between_sessions s2" "backoffSeconds s2 = nextBackoff (backoffSeconds s1)"
      "length (reports s2) = length (reports s1) + 2"
    by auto
  have "nextBackoff (backoffSeconds s1) = min (2 ^ Suc (Suc n)) kMaxBackoffSeconds"
    unfolding s1(3) nextBackoff_power [of n, symmetric] nextBackoff_power [of "Suc n", symmetric]
    by simp
  with s1 s2 show ?case by (simp add: ais_run_append)
qed

definition demo_started :: "ais_event list" where
  "demo_started = [CallStart demo_args]"

lemma demo_started_run:
  "between_sessions (demo_run demo_started)"
  "backoffSeconds (demo_run demo_started) = kInitialBackoffSeconds"
  by (simp_all add: demo_run_def demo_started_def between_sessions_def run_simps)

theorem failed_sessions_back_off_witness:
  "\<exists>s'. ais_run demo_wx demo_js (demo_run demo_started)
     (concat (map (\<lambda>i. failedSession (min (2 ^ Suc i) kMaxBackoffSeconds) ''down'') [0..<5])) = Some s' \<and>
     backoffSeconds s' = 30"
  using failed_sessions_back_off [OF demo_started_run, of demo_wx demo_js "''down''" 5]
  by (auto simp: kMaxBackoffSeconds_def)

text \<open>C11. When the server rejects the subscription with an error frame and then closes, the
  server's reason is reported and the close does not overwrite it; the thread then waits the
  maximum of 30 seconds, whatever the backoff was and although the session had been running.\<close>

theorem rejection_waits_longest:
  assumes "sup s = SupRun" and "m_streaming (client s)" and "\<not> terminated s"
    and "m_onStateChanged (client s)"
    and "HandleMessage wx js (client s) payload = ([StateReport Error reason], Inr True)"
  shows "\<exists>s'. ais_run wx js s [SessionEvent (IxMessage payload), SessionEvent IxClose, SessionReturn, SupStep, SupStep] = Some s' \<and>
           sup s' = SupSleep 0 \<and> backoffSeconds s' = kMaxBackoffSeconds \<and>
           log s' = log s @ [StateReport Error reason] \<and>
           reports s' = reports s @ [(Error, reason)]"
proof -
  have "SetStateCallback True (client s) = client s"
    using assms(4) by (simp add: SetStateCallback_def)
  with assms show ?thesis
    by (simp add: ais_step_def onMessage_def onClose_def sup_defs chooseBackoff_def)
qed

definition demo_reporting :: "ais_event list" where
  "demo_reporting = CallSetStateCallback True # demo_session"

lemma demo_reporting_run:
  "sup (demo_run demo_reporting) = SupRun" "m_streaming (client (demo_run demo_reporting))"
  "\<not> terminated (demo_run demo_reporting)" "m_onStateChanged (client (demo_run demo_reporting))"
  "m_onSentence (client (demo_run demo_reporting))"
  by (simp_all add: demo_run_def demo_reporting_def demo_session_def run_simps)

lemmas message_defs = HandleMessage_def hasType_def errorReason_def SetState_def
  ProcessAisEvent_def nmeaArray_def nmeaOf_def c_str_def

theorem rejection_waits_longest_witness:
  "\<exists>s'. ais_run demo_wx demo_js (demo_run demo_reporting)
     [SessionEvent (IxMessage demo_error_frame), SessionEvent IxClose, SessionReturn, SupStep, SupStep] = Some s' \<and>
     backoffSeconds s' = kMaxBackoffSeconds \<and> last (log s') = StateReport Error ''busy''"
proof -
  have "HandleMessage demo_wx demo_js (client (demo_run demo_reporting)) demo_error_frame =
      ([StateReport Error ''busy''], Inr True)"
    using demo_reporting_run(4) by (simp add: message_defs demo_defs)
  from rejection_waits_longest [OF demo_reporting_run(1-4) this] show ?thesis by auto
qed

text \<open>A session that had been running and is dropped is reported as lost, once, and followed
  by the shortest wait; a close after \<open>Stop\<close> has cleared the flag is not reported at all.\<close>

theorem drop_and_deliberate_close:
  assumes "sup s = SupRun" and "\<not> terminated s" and "\<not> errorReported s" and "reachedRunning s"
    and "\<not> serverRejected s"
  shows "\<exists>s'. ais_run wx js s [SessionEvent IxClose, SessionReturn, SupStep, SupStep] = Some s' \<and>
           (if m_streaming (client s)
            then sup s' = SupSleep 0 \<and> backoffSeconds s' = kInitialBackoffSeconds \<and>
                 reports s' = reports s @ [(Error, connectionLost)]
            else sup s' = SupExit \<and> reports s' = reports s \<and> log s' = log s)"
  using assms
  by (cases "m_streaming (client s)")
     (simp_all add: ais_step_def onClose_def sup_defs chooseBackoff_def)

theorem drop_and_deliberate_close_witness:
  "\<exists>s'. ais_run demo_wx demo_js (demo_run demo_session) [SessionEvent IxClose, SessionReturn, SupStep, SupStep] = Some s' \<and>
     sup s' = SupSleep 0 \<and> backoffSeconds s' = kInitialBackoffSeconds"
proof -
  have "\<not> errorReported (demo_run demo_session)" "reachedRunning (demo_run demo_session)"
    "\<not> serverRejected (demo_run demo_session)"
    by (simp_all add: demo_run_def demo_session_def run_simps)
  from drop_and_deliberate_close [OF demo_session_run(2,5) this] demo_session_run(3)
  show ?thesis by auto
qed

section \<open>Frames\<close>

text \<open>C15. Whatever frame arrives, the only sentences passed on are AIVDM sentences that end in
  CRLF.\<close>

theorem forwards_only_vdm:
  "list_all (\<lambda>eff. case eff of SentenceOut s \<Rightarrow> prefix ''!AIVDM'' s \<and> suffix crlf s
                             | StateReport st d \<Rightarrow> st = Error)
     (fst (HandleMessage wx js cl payload))"
  using HandleMessage_effects [of wx js cl payload]
  by (cases "HandleMessage wx js cl payload")
     (auto simp: list_all_iff SetState_def vdm_line_def)

text \<open>For a library that reads every string value, the loop over the sentences of an event
  is the filter and map one expects: it keeps the order and the AIVDM sentences, each as it
  came or with the missing CRLF added, and drops everything else.\<close>

theorem sentences_reference:
  assumes "\<And>v. js_isString js v \<Longrightarrow> \<exists>s. js_asString js v = Inr s"
    and "js_parse js payload = Some ev" and "hasType js ev ''error'' = Inr False"
    and "hasType js ev ''event'' = Inr True" and "nmeaArray js ev = Inr (Some arr)"
    and "m_onSentence cl"
  shows "HandleMessage wx js cl payload =
           (map SentenceOut (List.map_filter (\<lambda>v. case js_asString js v of
               Inr text \<Rightarrow> if js_isString js v then nmeaOf wx text else None | Inl _ \<Rightarrow> None)
             (js_elems js arr)), Inr False)"
proof -
  have "sentencesOf wx js vs = List.map_filter (\<lambda>v. case js_asString js v of
      Inr text \<Rightarrow> if js_isString js v then nmeaOf wx text else None | Inl _ \<Rightarrow> None) vs" for vs
  proof (induction vs)
    case Nil
    show ?case by (simp add: sentencesOf_def map_filter_simps)
  next
    case (Cons v vs)
    then show ?case using assms(1) [of v]
      by (auto simp: sentencesOf_def map_filter_simps split: option.splits sum.splits)
  qed
  with assms show ?thesis
    by (simp add: HandleMessage_def ProcessAisEvent_def sendSentences_reference)
qed

theorem sentences_reference_witness:
  "HandleMessage demo_wx demo_js (client (demo_run demo_reporting)) demo_event_frame =
     ([SentenceOut (''!AIVDM,1'' @ crlf)], Inr False)"
proof -
  let ?ev = "the (jv_parse demo_event_frame)"
  let ?arr = "JArr [JStr ''!AIVDM,1'', JNull, JStr ''$GPGGA'']"
  have str: "js_isString demo_js v \<Longrightarrow> \<exists>s. js_asString demo_js v = Inr s" for v
    by (cases v) (simp_all add: demo_js_def)
  have "js_parse demo_js demo_event_frame = Some ?ev" "hasType demo_js ?ev ''error'' = Inr False"
    "hasType demo_js ?ev ''event'' = Inr True" "nmeaArray demo_js ?ev = Inr (Some ?arr)"
    by (simp_all add: message_defs demo_defs)
  from sentences_reference [OF str this demo_reporting_run(5), of demo_wx] show ?thesis
    by (simp add: message_defs demo_js_def demo_wx_def map_filter_simps crlf_def suffix_def)
qed

text \<open>C16. A frame whose type test makes the JSON library throw ends the process: nothing on the
  supervisor thread catches the exception, so it leaves the thread function. With jsoncpp this
  is any frame that is a JSON array, string, number or boolean.\<close>

theorem malformed_frame_terminates:
  assumes "sup s = SupRun" and "\<not> terminated s" and "js_parse js payload = Some v"
    and "js_isMember js v ''type'' = Inl e"
  shows "\<exists>s'. ais_step wx js s (SessionEvent (IxMessage payload)) = Some s' \<and> terminated s' \<and>
              ais_step wx js s' ev = None"
  using assms by (simp add: ais_step_def onMessage_def message_defs)

theorem malformed_frame_terminates_witness:
  "\<exists>s'. ais_step demo_wx demo_js (demo_run demo_session) (SessionEvent (IxMessage demo_array_frame)) = Some s' \<and>
        terminated s' \<and> ais_step demo_wx demo_js s' CallStop = None"
  by (rule malformed_frame_terminates [OF demo_session_run(2,5), of _ _ "JArr []" JsonLogicError])
     (simp_all add: demo_defs)

section \<open>The subscribe request\<close>

text \<open>The requested area is a square centred on the search position; its side is the chosen
  size, capped at 10 degrees, or at 20 with a token.\<close>

theorem subscribe_area:
  "let b = searchBox lat lon (clampedBoxSize cl sz) in
     length b = 4 \<and> (b ! 0 + b ! 2) / 2 = lat \<and> (b ! 1 + b ! 3) / 2 = lon \<and>
     b ! 2 - b ! 0 = min sz (if m_useToken cl then 20 else 10) \<and>
     b ! 3 - b ! 1 = b ! 2 - b ! 0"
  by (simp add: searchBox_def clampedBoxSize_def kTokenMaxBoxSizeDegrees_def
      kStandardMaxBoxSizeDegrees_def field_simps)

text \<open>C17. The request document, for a library whose objects behave as maps: it is a subscription
  with the snapshot flag and one bounding box, and it names vessels exactly when following is on
  and the list is not empty; the names are then the list, in order.\<close>

theorem subscribe_document:
  assumes "\<And>d k v k' m. js_isMember js d k' = Inr m \<Longrightarrow> js_isMember js (js_set js d k v) k' = Inr (k' = k \<or> m)"
    and "\<And>d k v k' x. js_get js d k' = Inr x \<Longrightarrow> js_get js (js_set js d k v) k' = Inr (if k' = k then v else x)"
    and "\<And>k. js_isMember js (js_null js) k = Inr False"
    and "\<And>k. js_get js (js_null js) k = Inr (js_null js)"
  shows "let doc = subscribeDocument js cl lat lon sz following mmsis snapshot in
         js_get js doc ''type'' = Inr (js_ofString js ''subscribe'') \<and>
         js_get js doc ''snapshot'' = Inr (js_ofBool js snapshot) \<and>
         js_get js doc ''bbox'' = Inr (jsonArray js [jsonArray js (map (js_ofDouble js)
             (searchBox lat lon (clampedBoxSize cl sz)))]) \<and>
         js_isMember js doc ''mmsi'' = Inr (mmsis \<noteq> [] \<and> following) \<and>
         js_get js doc ''mmsi'' = Inr (if mmsis \<noteq> [] \<and> following
             then jsonArray js (map (js_ofUInt js) mmsis) else js_null js)"
proof -
  define bbox where "bbox = jsonArray js [jsonArray js (map (js_ofDouble js)
      (searchBox lat lon (clampedBoxSize cl sz)))]"
  define names where "names = jsonArray js (map (js_ofUInt js) mmsis)"
  define d1 where "d1 = js_set js (js_set js (js_null js) ''type'' (js_ofString js ''subscribe'')) ''bbox'' bbox"
  define d2 where "d2 = (if mmsis \<noteq> [] \<and> following then js_set js d1 ''mmsi'' names else d1)"
  have "js_isMember js d1 ''mmsi'' = Inr False"
    using assms(1) [OF assms(1) [OF assms(3)]] by (simp add: d1_def)
  with assms(1) [OF this] have "js_isMember js d2 ''mmsi'' = Inr (mmsis \<noteq> [] \<and> following)"
    by (auto simp: d2_def)
  from assms(1) [OF this] have mem: "js_isMember js (js_set js d2 ''snapshot'' (js_ofBool js snapshot))
      ''mmsi'' = Inr (mmsis \<noteq> [] \<and> following)" by simp
  have doc: "subscribeDocument js cl lat lon sz following mmsis snapshot =
      js_set js d2 ''snapshot'' (js_ofBool js snapshot)"
    by (simp add: subscribeDocument_def Let_def d2_def d1_def bbox_def names_def)
  show ?thesis
    unfolding doc Let_def using mem
    by (simp add: d2_def d1_def bbox_def names_def assms(2,4))
qed

theorem subscribe_document_witness:
  "js_isMember demo_js (subscribeDocument demo_js ais_client_init 48 (-4) 1 True [227000000] False) ''mmsi'' =
     Inr True"
proof -
  have "jv_isMember (jv_set d k v) k' = Inr (k' = k \<or> m)" if "jv_isMember d k' = Inr m" for d k v k' m
    using that by (cases d) auto
  moreover have "jv_get (jv_set d k v) k' = Inr (if k' = k then v else x)"
    if "jv_get d k' = Inr x" for d k v k' x
    using that by (cases d) auto
  ultimately show ?thesis
    using subscribe_document [of demo_js ais_client_init 48 "-4" 1 True "[227000000]" False]
    by (simp add: demo_js_def Let_def)
qed

end
