(* ===== verification/IxServerProperties.thy ===== *)
theory IxServerProperties
  imports IxSocketDemo IxUrlProofs
begin

text \<open>
  The handshake of a client and a server of the library with each other, and what follows for
  connecting to a URL behind which such a server is.
\<close>

section \<open>The handshake\<close>

lemma wf_key:
  assumes "length raw = 16"
  shows "wf_header (''Sec-WebSocket-Key'', Encode (bytes_of raw))"
proof -
  have "length (Encode (bytes_of raw)) = 24" using assms by (intro length_Encode) (simp add: bytes_of_def)
  then show ?thesis
    by (intro base64_header) (simp_all only: Encode_safe, simp_all add: lineFree_def cr_def lf_def)
qed

text \<open>C40. The two sides of the handshake agree: a server that reads what the client writes accepts the
  request for the same path, and the client that reads what this server writes back accepts the
  answer with status 101, having consumed exactly the answer; whatever the address, the path and the
  additional header, as long as they break neither a line nor a header of the protocol, and however the
  bytes are delayed and cut into pieces on the way.\<close>

theorem handshake_agrees:
  assumes "stream_law nt d ok delay unread sent" and "stream_law sv d' ok' delay' unread' sent'"
    and "wf_request (nt_userAgent nt) extra (up_protocol p) (up_host p) (up_path p) (up_port p)"
    and "wf_header (''Server'', nt_userAgent sv)" and "length (nt_random nt k) = 16"
    and "request = upgradeRequest (nt_userAgent nt) extra (up_protocol p) (up_host p) (up_path p) (up_port p)
                     (Encode (bytes_of (nt_random nt k)))"
    and "unread' k' = bytes_of request" and "sent' k' = []" and "ok (length request) k"
    and "ok' (length (upgradeAnswer (nt_userAgent sv) (Encode (bytes_of (nt_random nt k))))) k'"
  shows "\<exists>rs s'. serverExchange sv d' None k' = Some (rs, s') \<and> in_success rs \<and> in_uri rs = up_path p \<and>
           (\<forall>rest. unread k = sent' s' @ rest \<longrightarrow>
              (\<exists>r s. exchange nt d url extra p deflate k = Some (r, s) \<and> in_success r \<and> in_http_status r = 101 \<and>
                 sent s = sent k @ bytes_of request \<and> unread s = rest))"
proof -
  define key where "key = Encode (bytes_of (nt_random nt k))"
  have "unread' k' = bytes_of (upgradeRequest (nt_userAgent nt) extra (up_protocol p) (up_host p) (up_path p) (up_port p) key) @ []"
    using assms(6,7) by (simp add: key_def)
  from server_accepts [OF assms(2,3) wf_key [OF assms(5), folded key_def] this, where m = 0] assms(8,10) obtain rs s' where
    s: "serverExchange sv d' None k' = Some (rs, s')" "in_success rs" "in_uri rs = up_path p"
      "sent' s' = bytes_of (upgradeAnswer (nt_userAgent sv) key)" by (auto simp: key_def)
  have c: "\<exists>r s. exchange nt d url extra p deflate k = Some (r, s) \<and> in_success r \<and> in_http_status r = 101 \<and>
      sent s = sent k @ bytes_of request \<and> unread s = rest"
    if "unread k = bytes_of (upgradeAnswer (nt_userAgent sv) key) @ rest" for rest
    using client_accepts [OF assms(1,4) key_def _ that, where m = 0 and p = p and extraHeaders = extra and
        request = request and url = url and deflate = deflate] assms(6,9)
    by (auto simp: key_def)
  from s c show ?thesis by (intro exI [of _ rs] exI [of _ s']) simp
qed

section \<open>Connecting\<close>

text \<open>A URL behind which such a server answers is connected to, and nothing beyond the answer is read.\<close>

lemma connect_succeeds:
  assumes "parse address = Some p" and "nt_create nt (up_protocol p = ''wss'') (t_socket t) = (Inr (), k0)"
    and "nt_connect nt (nt_clock nt k0, secs) (up_host p) (up_port p) k0 = Some ((True, e), k)"
    and "stream_law nt (nt_clock nt k0, secs) ok delay unread sent" and "wf_header (''Server'', userAgent)"
    and "request = upgradeRequest (nt_userAgent nt) hs (up_protocol p) (up_host p) (up_path p) (up_port p)
                     (Encode (bytes_of (nt_random nt k)))"
    and "unread k = bytes_of (upgradeAnswer userAgent (Encode (bytes_of (nt_random nt k)))) @ rest"
    and "ok (length request + m) k"
  shows "\<exists>r k'. connectToUrl nt address hs secs t =
             Some (r, setReadyState (nt_sock nt) OPEN (t\<lparr>t_socket := k', t_requestInitCancellation := nt_requested nt k',
                                                       t_enablePerMessageDeflate := False\<rparr>)) \<and>
           in_success r \<and> ok m k' \<and> unread k' = rest \<and> sent k' = sent k @ bytes_of request"
proof -
  define t0 where "t0 = t\<lparr>t_socket := k0\<rparr>"
  from client_accepts [OF assms(4,5) refl assms(6-8), of address "t_enablePerMessageDeflate t0"] obtain r k' where
    x: "exchange nt (nt_clock nt k0, secs) address hs p (t_enablePerMessageDeflate t0) k = Some (r, k')" "in_success r"
      "in_http_status r = 101" "ok m k'" "unread k' = rest" "sent k' = sent k @ bytes_of request" by blast
  have "clientHandshake nt address hs p secs t0 =
      Some (r, t0\<lparr>t_socket := k', t_requestInitCancellation := nt_requested nt k', t_enablePerMessageDeflate := False\<rparr>)"
    using assms(3) x by (simp add: clientHandshake_def t0_def)
  then have "connectToUrl nt address hs secs t =
      Some (r, setReadyState (nt_sock nt) OPEN (t\<lparr>t_socket := k', t_requestInitCancellation := nt_requested nt k',
                                                 t_enablePerMessageDeflate := False\<rparr>))"
    using assms(1,2) x by (simp add: connectToUrl_def eval_nat_numeral isRedirect_def t0_def)
  with x show ?thesis by blast
qed

definition demo_url :: url_parts where
  "demo_url =
     \<lparr>up_protocol = ''wss'', up_host = ''h'', up_path = ''/v1'', up_query = [], up_port = 443, up_isDefaultPort = True\<rparr>"

lemma wf_demo_request: "wf_request ''ixwebsocket'' [(''Authorization'', ''Bearer t'')] ''wss'' ''h'' ''/v1'' 443"
  by code_simp

theorem handshake_agrees_witness:
  "\<exists>rs s'. serverExchange (kernel_net (\<lambda>m. True)) (0, 3) None
      (tlsSocket, kernel_init (bytes_of (upgradeRequest ''ixwebsocket'' [(''Authorization'', ''Bearer t'')] ''wss'' ''h'' ''/v1'' 443
         (Encode (bytes_of (replicate 16 CHR ''x'')))))) = Some (rs, s') \<and>
     in_success rs \<and> in_uri rs = ''/v1''"
proof -
  define request where "request = upgradeRequest ''ixwebsocket'' [(''Authorization'', ''Bearer t'')] ''wss'' ''h'' ''/v1'' 443
         (Encode (bytes_of (replicate 16 CHR ''x'')))"
  have "wf_header (''Server'', ''ixwebsocket'')" by code_simp
  moreover have "kernelUp (\<lambda>m. True) 3000 n (tlsSocket, kernel_init u)" for n u by (simp add: kernelUp_def)
  ultimately show ?thesis
    using handshake_agrees [OF kernel_stream_law [of "\<lambda>m. True" "(0, 3)"] kernel_stream_law [of "\<lambda>m. True" "(0, 3)"],
        where extra = "[(''Authorization'', ''Bearer t'')]" and p = demo_url and k = "(tlsSocket, kernel_init [])" and
          request = request and k' = "(tlsSocket, kernel_init (bytes_of request))"] wf_demo_request
    unfolding request_def [symmetric] by (simp add: demo_url_def request_def) blast
qed

end
