(* ===== verification/AisSessionOpen.thy ===== *)
theory AisSessionOpen
  imports AisSessionProofs AisClientProperties IxServerProperties
begin

text \<open>
  How a session begins: the connection is made and the callback of the opening subscribes. What it takes of the
  network for that, and what a \<open>Stop\<close> does that comes before.
\<close>

section \<open>Opening a session\<close>

text \<open>A connection just made: nothing received or to be sent yet, no extension, no pings.\<close>

definition fresh :: "'k transport \<Rightarrow> bool" where
  "fresh t \<longleftrightarrow> t_rxbuf t = [] \<and> t_txbuf t = [] \<and> \<not> t_enablePerMessageDeflate t \<and> t_pingIntervalSecs t = - 1 \<and>
     \<not> t_requestInitCancellation t"

lemma fresh_rx: "rx t' = rx t \<Longrightarrow> fresh t \<Longrightarrow> starved t' \<and> t_pingIntervalSecs t' = - 1"
  by (auto simp: fresh_def starved_def parseHeader_def dest: rxD)

text \<open>The first turn of the loop, when connecting succeeds, and the callback that it leads to.\<close>

lemma live_connect:
  assumes "live_inv s" and "sup (lv_client s) = SupRun" and "\<not> terminated (lv_client s)" and "lv_pc s = RunCheck True"
    and "lv_todo s = []" and "lv_socket s = Some w"
    and "wsConnect (nt_sock nt) (connectToUrl nt) (ws_handshakeTimeoutSecs w) w = Some (r, w1)" and "in_success r"
  shows "live_step nt wx js s LiveRun = Some (s\<lparr>lv_socket := Some w1, lv_pc := RunPoll, lv_todo := [openMessage r]\<rparr>)"
    and "session_inv RunPoll w1" and "isConnected w1"
proof -
  from assms(1,2,4,6) have inv: "session_inv (RunCheck True) w" by (simp add: live_inv_def)
  note c = url.attempt_succeeds [OF inv assms(7,8)]
  have "newMessages w w1 = [openMessage r]" using inv c(4) by (simp add: newMessages_def session_inv_def)
  then show "live_step nt wx js s LiveRun = Some (s\<lparr>lv_socket := Some w1, lv_pc := RunPoll, lv_todo := [openMessage r]\<rparr>)"
    using assms(2-6) c(2) by (simp add: liveRun_def)
  show "session_inv RunPoll w1" by (rule url.session_inv_step [OF inv c(2)])
  show "isConnected w1" by (rule c(3))
qed

lemma live_subscribe:
  assumes "sup (lv_client s) = SupRun" and "\<not> terminated (lv_client s)" and "lv_pc s = RunPoll" and "lv_todo s = [m]"
    and "wm_type m = MtOpen" and "lv_socket s = Some w" and "session_inv RunPoll w" and "isConnected w"
    and "fresh (ws_transport w)" and "validateUtf8 (bytes_of (subscribeMsg (lv_client s)))"
    and "cs (snd (sendData (nt_sock nt) TEXT_FRAME (bytes_of (subscribeMsg (lv_client s))) False (ws_transport w))) =
         cs (ws_transport w)"
  shows "\<exists>w'. live_step nt wx js s LiveCallback =
             Some (s\<lparr>lv_client := onOpen False (lv_client s), lv_socket := Some w', lv_todo := []\<rparr>) \<and> idle w' \<and>
           ws_transport w' = (snd (sendData (nt_sock nt) TEXT_FRAME (bytes_of (subscribeMsg (lv_client s))) False
             (ws_transport w)))\<lparr>t_out := []\<rparr>"
proof -
  have out: "t_out (ws_transport w) = []" using assms(7) by (simp add: session_inv_def)
  obtain w' where send: "sendSubscribe (nt_sock nt) s = (False, s\<lparr>lv_socket := Some w'\<rparr>)" "isConnected w'"
    "rx (ws_transport w') = rx (ws_transport w)"
    and t: "ws_transport w' = (snd (sendData (nt_sock nt) TEXT_FRAME (bytes_of (subscribeMsg (lv_client s))) False
      (ws_transport w)))\<lparr>t_out := []\<rparr>"
    using sendSubscribe_kept [OF assms(11,6,8) out _ assms(10)] assms(9) by (auto simp: fresh_def)
  obtain w'' where "lv_socket (s\<lparr>lv_socket := Some w'\<rparr>) = Some w''" "session_inv RunPoll w''"
    using sendSubscribe_inv [OF assms(6) _ send(1)] assms(3,7) by auto
  with send(2) fresh_rx [OF send(3) assms(9)] have "idle w'" by (simp add: idle_def session_inv_def)
  moreover have "live_step nt wx js s LiveCallback =
      Some (s\<lparr>lv_client := onOpen False (lv_client s), lv_socket := Some w', lv_todo := []\<rparr>)"
    using send(1) assms(1,2,4,5) by (simp add: liveCallback_def ais_step_def messageEvent.simps)
  ultimately show ?thesis using t by blast
qed

lemma live_open:
  assumes "live_inv s" and "sup (lv_client s) = SupRun" and "\<not> terminated (lv_client s)" and "lv_pc s = RunCheck True"
    and "lv_todo s = []" and "lv_socket s = Some w"
    and "wsConnect (nt_sock nt) (connectToUrl nt) (ws_handshakeTimeoutSecs w) w = Some (r, w1)" and "in_success r"
    and "fresh (ws_transport w1)" and "validateUtf8 (bytes_of (subscribeMsg (lv_client s)))"
    and "isConnected w1 \<Longrightarrow>
         cs (snd (sendData (nt_sock nt) TEXT_FRAME (bytes_of (subscribeMsg (lv_client s))) False (ws_transport w1))) =
         cs (ws_transport w1)"
  shows "\<exists>s' w'. live_run nt wx js s [LiveRun, LiveCallback] = Some s' \<and>
           lv_client s' = onOpen False (lv_client s) \<and> lv_pc s' = RunPoll \<and> lv_todo s' = [] \<and>
           lv_socket s' = Some w' \<and> idle w' \<and>
           ws_transport w' = (snd (sendData (nt_sock nt) TEXT_FRAME (bytes_of (subscribeMsg (lv_client s))) False
             (ws_transport w1)))\<lparr>t_out := []\<rparr>"
proof -
  define s1 where "s1 = s\<lparr>lv_socket := Some w1, lv_pc := RunPoll, lv_todo := [openMessage r]\<rparr>"
  note c = live_connect [OF assms(1-8), folded s1_def]
  have s1: "sup (lv_client s1) = SupRun" "\<not> terminated (lv_client s1)" "lv_pc s1 = RunPoll" "lv_todo s1 = [openMessage r]"
    "wm_type (openMessage r) = MtOpen" "lv_socket s1 = Some w1" "validateUtf8 (bytes_of (subscribeMsg (lv_client s1)))"
    using assms(2,3,10) by (simp_all add: s1_def openMessage_def)
  have "cs (snd (sendData (nt_sock nt) TEXT_FRAME (bytes_of (subscribeMsg (lv_client s1))) False (ws_transport w1))) =
      cs (ws_transport w1)" using assms(11) [OF c(3)] by (simp add: s1_def)
  from live_subscribe [OF s1(1-6) c(2,3) assms(9) s1(7) this] obtain w' where
    "live_step nt wx js s1 LiveCallback = Some (s1\<lparr>lv_client := onOpen False (lv_client s1), lv_socket := Some w', lv_todo := []\<rparr>)"
    "idle w'" and t: "ws_transport w' = (snd (sendData (nt_sock nt) TEXT_FRAME (bytes_of (subscribeMsg (lv_client s1))) False
      (ws_transport w1)))\<lparr>t_out := []\<rparr>" by blast
  with c(1) show ?thesis by (simp add: s1_def)
qed

text \<open>The header of a session's request, which depends on the token alone.\<close>

definition sessionHeader :: "string \<Rightarrow> http_headers" where
  "sessionHeader auth = foldl (\<lambda>hs (name, v). headerSet name v hs) [] (ws_headers (makeSocket auth))"

text \<open>
  From \<open>k\<close>, the service is reached with a request of this header, nothing beyond its answer has been read then,
  and the socket is as \<open>up\<close> says.
\<close>

definition serves :: "'k net_api \<Rightarrow> http_headers \<Rightarrow> 'k \<Rightarrow> ('k \<Rightarrow> bool) \<Rightarrow> bool" where
  "serves nt hs k up \<longleftrightarrow>
     (\<forall>t. t_socket t = k \<longrightarrow>
        (\<exists>r k'. connectToUrl nt kAisUrl hs 60 t =
           Some (r, setReadyState (nt_sock nt) OPEN (t\<lparr>t_socket := k', t_requestInitCancellation := False,
                                                     t_enablePerMessageDeflate := False\<rparr>)) \<and> in_success r \<and> up k'))"

lemma serves_mono: "serves nt hs k up \<Longrightarrow> (\<And>k'. up k' \<Longrightarrow> up' k') \<Longrightarrow> serves nt hs k up'"
  unfolding serves_def by blast

lemma connects_fresh:
  assumes "connectToUrl nt (ws_urlText w) (subProtocolsHeader w) (ws_handshakeTimeoutSecs w)
             (configure (deflateEnabled w) (ws_enablePong w) (ws_pingIntervalSecs w) (ws_transport w)) =
           Some (r, setReadyState (nt_sock nt) OPEN
                      ((configure (deflateEnabled w) (ws_enablePong w) (ws_pingIntervalSecs w) (ws_transport w))
                         \<lparr>t_socket := k, t_requestInitCancellation := False, t_enablePerMessageDeflate := False\<rparr>))"
    and "in_success r" and "ws_pingIntervalSecs w = - 1" and "t_rxbuf (ws_transport w) = []" and "t_txbuf (ws_transport w) = []"
  shows "\<exists>w1. wsConnect (nt_sock nt) (connectToUrl nt) (ws_handshakeTimeoutSecs w) w = Some (r, w1) \<and>
           fresh (ws_transport w1) \<and> t_socket (ws_transport w1) = k"
  using assms by (simp add: wsConnect_def deliver_def say_def fresh_def setReadyState_def configure_def)

lemma serves_connects:
  assumes "serves nt (subProtocolsHeader w) (t_socket (ws_transport w)) up" and "ws_urlText w = kAisUrl"
    and "ws_handshakeTimeoutSecs w = 60" and "ws_pingIntervalSecs w = - 1"
    and "t_rxbuf (ws_transport w) = []" and "t_txbuf (ws_transport w) = []"
  shows "\<exists>r w1. wsConnect (nt_sock nt) (connectToUrl nt) (ws_handshakeTimeoutSecs w) w = Some (r, w1) \<and> in_success r \<and>
           fresh (ws_transport w1) \<and> up (t_socket (ws_transport w1))"
proof -
  define t where "t = configure (deflateEnabled w) (ws_enablePong w) (ws_pingIntervalSecs w) (ws_transport w)"
  have "t_socket t = t_socket (ws_transport w)" by (simp add: t_def configure_def)
  with assms(1) obtain r k' where "connectToUrl nt kAisUrl (subProtocolsHeader w) 60 t =
      Some (r, setReadyState (nt_sock nt) OPEN (t\<lparr>t_socket := k', t_requestInitCancellation := False,
                                                t_enablePerMessageDeflate := False\<rparr>))" "in_success r" "up k'"
    unfolding serves_def by blast
  with connects_fresh [of nt w r k'] assms(2-6) show ?thesis by (auto simp: t_def)
qed

lemma sessionSocket_fields [simp]:
  "ws_urlText (sessionSocket sk k (makeSocket auth)) = kAisUrl"
  "ws_handshakeTimeoutSecs (sessionSocket sk k (makeSocket auth)) = 60"
  "ws_pingIntervalSecs (sessionSocket sk k (makeSocket auth)) = - 1"
  "t_rxbuf (ws_transport (sessionSocket sk k (makeSocket auth))) = []"
  "t_txbuf (ws_transport (sessionSocket sk k (makeSocket auth))) = []"
  "t_readyState (ws_transport (sessionSocket sk k (makeSocket auth))) = CLOSED"
  "t_socket (ws_transport (sessionSocket sk k (makeSocket auth))) = k"
  "subProtocolsHeader (sessionSocket sk k (makeSocket auth)) = sessionHeader auth"
  by (simp_all add: sessionHeader_def subProtocolsHeader_def sessionSocket_def makeSocket_def Let_def setUrl_def setExtraHeaders_def
      disableAutomaticReconnection_def websocket_init_def transport_init_def)

section \<open>A stop before the connection is made\<close>

text \<open>
  \<open>close\<close> on a WebSocket that has no socket yet: it is as it was, but for a request to cancel.
\<close>

lemma wsClose_unconnected:
  assumes "session_inv (RunCheck True) w" and "\<not> sk_isWakeUpFromPollSupported sk (t_socket (ws_transport w))"
  shows "session_inv (RunCheck True) (wsClose sk code reason w)"
    and "ws_urlText (wsClose sk code reason w) = ws_urlText w"
    and "ws_handshakeTimeoutSecs (wsClose sk code reason w) = ws_handshakeTimeoutSecs w"
    and "ws_pingIntervalSecs (wsClose sk code reason w) = ws_pingIntervalSecs w"
    and "subProtocolsHeader (wsClose sk code reason w) = subProtocolsHeader w"
    and "t_socket (ws_transport (wsClose sk code reason w)) = t_socket (ws_transport w)"
    and "t_rxbuf (ws_transport (wsClose sk code reason w)) = t_rxbuf (ws_transport w)"
    and "t_txbuf (ws_transport (wsClose sk code reason w)) = t_txbuf (ws_transport w)"
  using session_inv_wsClose [OF assms(1), of sk code reason] assms
  by (auto simp: wsClose_def close_def deliver_def session_inv_def Let_def subProtocolsHeader_def)

text \<open>Nothing can happen: no thread can take a step, and the calling thread makes no call.\<close>

lemma standstill:
  assumes "sup (lv_client s) = SupRun" and "caller (lv_client s) = CallerJoin a" and "lv_todo s = []" and "lv_pc s = RunPoll"
    and "lv_socket s = Some w" and "runStep (nt_sock nt) (connectToUrl nt) (RunPoll, w) = None"
  shows "live_step nt wx js s e = None"
  using assms
  by (cases e) (simp_all add: live_defs ais_step_def StopJoin_def del: runStep.simps)

text \<open>
  A \<open>Stop\<close> between the publication of the socket and the beginning of \<open>run()\<close>: the calling thread waits for the
  thread of the stream, whose WebSocket is as it was set up but for a request to cancel.
\<close>

lemma lost_stop:
  assumes "live_reachable nt wx js s" and "sup (lv_client s) = SupPublish" and "m_streaming (client (lv_client s))"
    and "\<not> terminated (lv_client s)" and "\<not> sk_isWakeUpFromPollSupported (nt_sock nt) k"
  obtains s1 w where "live_run nt wx js s [LiveSup k, LiveStop, LiveCaller] = Some s1" and "live_inv s1"
    and "sup (lv_client s1) = SupRun" and "\<not> terminated (lv_client s1)" and "caller (lv_client s1) = CallerJoin None"
    and "subscribeMsg (lv_client s1) = subscribeMsg (lv_client s)" and "\<not> m_streaming (client (lv_client s1))"
    and "reports (lv_client s1) = reports (lv_client s)" and "m_socket (lv_client s1) \<noteq> None"
    and "lv_pc s1 = RunCheck True" and "lv_todo s1 = []" and "lv_socket s1 = Some w" and "session_inv (RunCheck True) w"
    and "ws_urlText w = kAisUrl" and "ws_handshakeTimeoutSecs w = 60" and "ws_pingIntervalSecs w = - 1"
    and "subProtocolsHeader w = sessionHeader (authToken (lv_client s))" and "t_socket (ws_transport w) = k"
    and "t_rxbuf (ws_transport w) = []" and "t_txbuf (ws_transport w) = []"
proof -
  have free: "caller (lv_client s) = CallerIdle"
    using live_reachable_sys_inv [OF assms(1)] caller_busy_not_streaming assms(3) by blast
  define w0 where "w0 = sessionSocket (nt_sock nt) k (makeSocket (authToken (lv_client s)))"
  define w where "w = wsClose (nt_sock nt) kNormalClosureCode kNormalClosureMessage w0"
  have k: "\<not> sk_isWakeUpFromPollSupported (nt_sock nt) (t_socket (ws_transport w0))" using assms(5) by (simp add: w0_def)
  note c = wsClose_unconnected [OF session_inv_start [of "nt_sock nt" k "authToken (lv_client s)", folded w0_def] k,
      of kNormalClosureCode kNormalClosureMessage, folded w_def]
  define s1 where "s1 = s\<lparr>lv_client := StopClose None (StopFlag None (supPublish (lv_client s))),
    lv_socket := Some w, lv_pc := RunCheck True, lv_todo := []\<rparr>"
  have s1: "live_run nt wx js s [LiveSup k, LiveStop, LiveCaller] = Some s1"
    using assms(2-4) free
    by (simp add: liveSup_def liveCall_def liveCaller_def ais_step_def supPublish_def StopFlag_def s1_def w_def w0_def clientStop_def)
  show ?thesis
  proof (rule that [OF s1 live_reachable_inv [OF live_reachable_run [OF assms(1) s1]], where w = w])
  qed (use assms(3,4) c in \<open>simp_all add: s1_def StopClose_def StopFlag_def supPublish_def clientStop_def w0_def\<close>)
qed

text \<open>
  A socket \<open>s\<close> that is open, on a system on which nothing arrives: a poll without a time limit does not
  return, and what is sent is taken, at least in part, as long as there is room.
\<close>

definition idle_system :: "'e os_api \<Rightarrow> socket \<Rightarrow> (nat \<Rightarrow> 'e \<Rightarrow> bool) \<Rightarrow> bool" where
  "idle_system os s up \<longleftrightarrow>
     so_sockfd s \<noteq> - 1 \<and> so_readFd s \<noteq> - 1 \<and>
     (\<forall>n e. up n e \<longrightarrow> os_poll os [(so_sockfd s, True), (so_readFd s, True)] (- 1) e = None) \<and>
     (\<forall>n e bs ret k'. up n e \<longrightarrow> bs \<noteq> [] \<longrightarrow> length bs \<le> n \<longrightarrow> socketSend os bs (s, e) = (ret, k') \<longrightarrow>
        0 < ret \<and> ret \<le> int (length bs) \<and> fst k' = s \<and> up (n - nat ret) (snd k'))"

definition idleSocket :: "socket \<Rightarrow> (nat \<Rightarrow> 'e \<Rightarrow> bool) \<Rightarrow> nat \<Rightarrow> 'e sockets \<Rightarrow> bool" where
  "idleSocket s up n k \<longleftrightarrow> fst k = s \<and> up n (snd k)"

lemma idle_system_socket:
  assumes "idle_system os s up"
  shows "idle_socket (socket_api os) (idleSocket s up)"
proof -
  have "0 < ret \<and> ret \<le> int (length bs) \<and> idleSocket s up (n - nat ret) k'"
    if up: "idleSocket s up n k" and send: "bs \<noteq> []" "length bs \<le> n" "socketSend os bs k = (ret, k')" for n k bs ret k'
  proof -
    obtain e where k: "k = (s, e)" "up n e" using up by (cases k) (simp add: idleSocket_def)
    have "0 < ret \<and> ret \<le> int (length bs) \<and> fst k' = s \<and> up (n - nat ret) (snd k')"
      using assms k send unfolding idle_system_def by metis
    then show ?thesis by (simp add: idleSocket_def)
  qed
  moreover have "isReadyToRead os (- 1) k = None \<and> isWakeUpFromPollSupported k" if "idleSocket s up n k" for n k
    using that assms
    by (cases k) (auto simp: idle_system_def idleSocket_def isReadyToRead_def isReadyTo_def socketPoll_def isWakeUpFromPollSupported_def)
  ultimately show ?thesis unfolding idle_socket_def socket_api_simps by blast
qed

lemma fresh_sent:
  assumes "fresh t" and "t' = (snd (sendData sk opcode m compress t))\<lparr>t_out := []\<rparr>"
  shows "t_pingIntervalSecs t' = - 1" and "\<not> t_requestInitCancellation t'"
proof -
  have "rx t' = rx (snd (sendData sk opcode m compress t))" by (simp add: assms(2) rx_def)
  then have "rx t' = rx t" by simp
  then show "t_pingIntervalSecs t' = - 1" using fresh_rx [OF _ assms(1)] by blast
  show "\<not> t_requestInitCancellation t'" using assms by (simp add: fresh_def)
qed

end
