(* ===== verification/AisSessionDemo.thy ===== *)
theory AisSessionDemo
  imports AisSessionOpen
begin

text \<open>
  The client and the sockets of the library together on the demo system: there the service is reached, the
  connection is idle after the opening, and it breaks when no more bytes fit.
\<close>

section \<open>The demo system\<close>

definition kernelIdle :: "(nat \<Rightarrow> bool) \<Rightarrow> nat \<Rightarrow> kernel \<Rightarrow> bool" where
  "kernelIdle fits n e \<longleftrightarrow> kernelUp fits 60000 n (tlsSocket, e) \<and> kn_unread e = []"

lemma kernel_idle: "idle_system (kernel_os fits) tlsSocket (kernelIdle fits)"
proof -
  have "0 < ret \<and> ret \<le> int (length bs) \<and> fst k' = tlsSocket \<and> kernelIdle fits (n - nat ret) (snd k')"
    if up: "kernelIdle fits n e" and bs: "bs \<noteq> []" "length bs \<le> n" and s: "socketSend (kernel_os fits) bs (tlsSocket, e) = (ret, k')"
    for n e bs ret k'
  proof -
    have fits: "fits (length (kn_sent e) + m)" if "m \<le> n" for m using up that by (simp add: kernelIdle_def kernelUp_def)
    have "fits (length (kn_sent e) + length bs + m)" if "m \<le> n - length bs" for m
      using fits [of "length bs + m"] that bs(2) by (simp add: add.assoc)
    then show ?thesis using up bs s fits [OF bs(2)] by (auto simp: kernel_send kernelIdle_def kernelUp_def)
  qed
  then show ?thesis by (auto simp: idle_system_def kernelIdle_def kernelUp_def kernelPoll_def)
qed

text \<open>It breaks when no byte fits any more.\<close>

lemma kernel_broken:
  assumes "fst k = tlsSocket" and "\<And>m. 0 < m \<Longrightarrow> \<not> fits (length (kn_sent (snd k)) + m)" and "kn_errno (snd k) = 0"
  shows "broken (socket_api (kernel_os fits)) k"
proof -
  obtain e where k: "k = (tlsSocket, e)" using assms(1) by (cases k) auto
  have w: "\<not> isWaitNeeded (kernel_os fits) e" using assms(3) by (simp add: isWaitNeeded_def errno_defs k)
  have "\<not> fits (length (kn_sent e) + length bs)" if "bs \<noteq> []" for bs :: "byte list" using assms(2) that by (simp add: k)
  then show ?thesis using w by (auto simp: broken_def k kernel_send)
qed

section \<open>The service\<close>

text \<open>The answer of a server to the demo key.\<close>

definition serverAnswer :: "byte list" where
  "serverAnswer = bytes_of (upgradeAnswer ''server'' (Encode (bytes_of (replicate 16 CHR ''x''))))"

text \<open>What a session of the client sends on it to be upgraded.\<close>

definition aisRequest :: "http_headers \<Rightarrow> string" where
  "aisRequest hs =
     (let p = the (parse kAisUrl)
      in upgradeRequest ''ixwebsocket'' hs (up_protocol p) (up_host p) (up_path p) (up_port p)
           (Encode (bytes_of (replicate 16 CHR ''x''))))"

lemma serves_kernel:
  assumes "\<And>j. j \<le> length (aisRequest hs) + m \<Longrightarrow> fits j"
  shows "serves (kernel_net fits) hs (no_socket serverAnswer)
           (\<lambda>k. kernelUp fits 60000 m k \<and> kn_unread (snd k) = [] \<and> kn_sent (snd k) = bytes_of (aisRequest hs))"
proof -
  have "map_option up_protocol (parse kAisUrl) = Some ''wss''" by code_simp
  then obtain p where p: "parse kAisUrl = Some p" "up_protocol p = ''wss''" by blast
  have server: "wf_header (''Server'', ''server'')" by code_simp
  define k0 where "k0 = ((newSocket True)\<lparr>so_readFd := 4, so_writeFd := 5\<rparr>, kernel_init serverAnswer)"
  have clock: "kn_clock (snd k0) = 0" by (simp add: k0_def)
  have create: "nt_create (kernel_net fits) (up_protocol p = ''wss'') (no_socket serverAnswer) = (Inr (), k0)"
    using p(2) by (simp add: kernel_create k0_def)
  have connect: "nt_connect (kernel_net fits) (nt_clock (kernel_net fits) k0, 60) host port k0 =
      Some ((True, ''no error''), (tlsSocket, kernel_init serverAnswer))" for host port
    unfolding kernel_net_simps clock by (simp add: k0_def kernel_connect)
  have up: "kernelUp fits (fst (nt_clock (kernel_net fits) k0, 60) + 1000 * snd (nt_clock (kernel_net fits) k0, 60 :: int))
      (length (aisRequest hs) + m) (tlsSocket, kernel_init serverAnswer)"
    using assms by (simp add: kernelUp_def clock)
  have request: "aisRequest hs = upgradeRequest (nt_userAgent (kernel_net fits)) hs (up_protocol p) (up_host p) (up_path p) (up_port p)
      (Encode (bytes_of (nt_random (kernel_net fits) (tlsSocket, kernel_init serverAnswer))))" by (simp add: aisRequest_def p)
  show ?thesis unfolding serves_def
  proof (intro allI impI)
    fix t :: "kernel sockets transport" assume t: "t_socket t = no_socket serverAnswer"
    from connect_succeeds [OF p(1) create [folded t] connect kernel_stream_law server request _ up, where rest = "[]"]
    show "\<exists>r k'. connectToUrl (kernel_net fits) kAisUrl hs 60 t =
        Some (r, setReadyState (nt_sock (kernel_net fits)) OPEN (t\<lparr>t_socket := k', t_requestInitCancellation := False,
                                                               t_enablePerMessageDeflate := False\<rparr>)) \<and>
        in_success r \<and> kernelUp fits 60000 m k' \<and> kn_unread (snd k') = [] \<and> kn_sent (snd k') = bytes_of (aisRequest hs)"
      by (simp add: clock) (simp add: serverAnswer_def)
  qed
qed

lemma serves_idle:
  assumes "\<And>j. fits j"
  shows "serves (kernel_net fits) hs (no_socket serverAnswer) (idleSocket tlsSocket (kernelIdle fits) m)"
proof (rule serves_mono [OF serves_kernel [where m = m]])
  fix k :: "kernel sockets"
  assume "kernelUp fits 60000 m k \<and> kn_unread (snd k) = [] \<and> kn_sent (snd k) = bytes_of (aisRequest hs)"
  then show "idleSocket tlsSocket (kernelIdle fits) m k" by (cases k) (simp add: kernelUp_def idleSocket_def kernelIdle_def assms)
qed (rule assms)

text \<open>On a system that takes everything it is quiet then.\<close>

lemma serves_quiet:
  "serves (kernel_net (\<lambda>m. True)) hs (no_socket serverAnswer) (quietSocket tlsSocket (\<lambda>e. kn_unread e = []) kn_queue)"
proof (rule serves_mono [OF serves_kernel [where m = 0]])
  fix k :: "kernel sockets"
  assume "kernelUp (\<lambda>m. True) 60000 0 k \<and> kn_unread (snd k) = [] \<and> kn_sent (snd k) = bytes_of (aisRequest hs)"
  then show "quietSocket tlsSocket (\<lambda>e. kn_unread e = []) kn_queue k"
    by (cases k) (simp add: kernelUp_def kernel_quietSocket)
qed simp

section \<open>The client\<close>

text \<open>The demo client at the start of its first session, with the socket in state \<open>k\<close>.\<close>

definition demo_live :: "'k net_api \<Rightarrow> 'k \<Rightarrow> 'k live_sys" where
  "demo_live nt k =
     \<lparr>lv_client = demo_run [CallStart demo_args, SupStep, SupStep],
      lv_socket = Some (sessionSocket (nt_sock nt) k (makeSocket [])), lv_pc = RunCheck True, lv_todo = []\<rparr>"

lemma demo_live_client:
  "sup (lv_client (demo_live nt k)) = SupRun" "\<not> terminated (lv_client (demo_live nt k))"
  "m_streaming (client (lv_client (demo_live nt k)))" "caller (lv_client (demo_live nt k)) = CallerIdle"
  "\<not> errorReported (lv_client (demo_live nt k))" "subscribeMsg (lv_client (demo_live nt k)) = ''{}''"
  by (simp_all add: demo_live_def demo_run_def run_simps) (simp add: demo_js_def BuildSubscribeMessage_def, code_simp)

lemma demo_live_fields [simp]:
  "lv_socket (demo_live nt k) = Some (sessionSocket (nt_sock nt) k (makeSocket []))"
  "lv_pc (demo_live nt k) = RunCheck True" "lv_todo (demo_live nt k) = []"
  by (simp_all add: demo_live_def)

lemma demo_live_run:
  "live_run nt demo_wx demo_js live_init [LiveStart demo_args, LiveSup k, LiveSup k] = Some (demo_live nt k)"
  by (simp add: demo_live_def demo_run_def live_init_def live_defs run_simps)

lemmas demo_live_reachable = live_reachable_run [OF live_start demo_live_run]

lemma demo_text: "validateUtf8 (bytes_of ''{}'')"
  by code_simp

text \<open>The demo client in an open session on the demo system.\<close>

lemma demo_live_open:
  assumes "serves nt (sessionHeader []) k (up (wireRoom (bytes_of ''{}'')))" and "idle_socket (nt_sock nt) up"
  shows "\<exists>s w j. live_reachable nt demo_wx demo_js s \<and> lv_client s = onOpen False (lv_client (demo_live nt k)) \<and>
           lv_pc s = RunPoll \<and> lv_todo s = [] \<and> lv_socket s = Some w \<and> idle w \<and> up j (t_socket (ws_transport w))"
proof -
  define w where "w = sessionSocket (nt_sock nt) k (makeSocket [])"
  obtain r w1 where c: "wsConnect (nt_sock nt) (connectToUrl nt) (ws_handshakeTimeoutSecs w) w = Some (r, w1)" "in_success r"
    "fresh (ws_transport w1)" and up: "up (wireRoom (bytes_of ''{}'')) (t_socket (ws_transport w1))"
    using serves_connects [of nt w "up (wireRoom (bytes_of ''{}''))"] assms(1) by (auto simp: w_def)
  define t where "t = snd (sendData (nt_sock nt) TEXT_FRAME (bytes_of ''{}'') False (ws_transport w1))"
  have open1: "isConnected w1" using url.attempt_succeeds(3) [OF session_inv_start c(1,2) [unfolded w_def]] .
  then have sent: "cs t = cs (ws_transport w1)" and "\<exists>j. up j (t_socket t)"
    using idle_sendData [OF assms(2) _ up] c(3) by (simp_all add: t_def fresh_def isConnected_def)
  then obtain j where j: "up j (t_socket t)" by blast
  obtain s' w' where run: "live_run nt demo_wx demo_js (demo_live nt k) [LiveRun, LiveCallback] = Some s'"
    and s': "lv_client s' = onOpen False (lv_client (demo_live nt k))" "lv_pc s' = RunPoll" "lv_todo s' = []"
      "lv_socket s' = Some w'" "idle w'" "ws_transport w' = t\<lparr>t_out := []\<rparr>"
    using live_open [OF live_reachable_inv [OF demo_live_reachable], of nt k w nt r w1 demo_wx demo_js] c sent demo_text
    by (auto simp: demo_live_client w_def [symmetric] t_def simp del: live_run.simps)
  from live_reachable_run [OF demo_live_reachable run] s' j show ?thesis by fastforce
qed

end
