(* ===== verification/AisSessionProperties.thy ===== *)
theory AisSessionProperties
  imports AisSessionDemo
begin

text \<open>
  The properties of the supervisor thread on the WebSocket of the library: what it has reported when
  a session ends, that \<open>Stop\<close> ends an open session, and two races in which it does not do what it
  means to.
\<close>

section \<open>Every end of a session is shown\<close>

text \<open>C1. However the network behaves, and whatever the calling thread does meanwhile: when \<open>run()\<close> has returned,
  all its messages are delivered and streaming is still wanted, an error has been reported since the
  supervisor reported \<open>Connecting\<close> for this session. No end of a session is lost between the library and the window.\<close>

theorem ended_session_is_reported:
  assumes "live_reachable nt wx js s" and "sup (lv_client s) = SupRun" and "lv_pc s = RunDone" and "lv_todo s = []"
    and "m_streaming (client (lv_client s))"
  shows "\<exists>detail. (Error, detail) \<in> set (sessionReports (reports (lv_client s)))"
proof -
  from live_reachable_inv [OF assms(1)] assms(2-4) obtain w where
    w: "lv_socket s = Some w" "session_inv RunDone w" "shown_inv (lv_client s) (ws_events w) []"
    by (auto simp: live_inv_def)
  from run_over_ends [OF w(2)] w(3) assms(5) have "errorShown (lv_client s)" by (auto simp: shown_inv_def)
  then show ?thesis by (simp add: errorShown_def)
qed

text \<open>A system on which every connection is refused.\<close>

definition refusing_net :: "kernel sockets net_api" where
  "refusing_net =
     socket_net ((kernel_os (\<lambda>m. True))\<lparr>os_connect := (\<lambda>fd address e. (- 1, e\<lparr>kn_errno := 111\<rparr>))\<rparr>) ''ixwebsocket''"

lemma refused_connect:
  "\<exists>r t'. connectToUrl refusing_net url hs secs t = Some (r, t') \<and> \<not> in_success r"
proof -
  have "\<exists>err k'. nt_connect refusing_net d host port k = Some ((False, err), k')" for d host port k
    by (simp add: refusing_net_def socketConnect_def tlsConnect_def connectToHost_def connectToAddress_def isWaitNeeded_def
        configureSocket_def errno_defs resolve_def resolveWait.simps getAddrInfo_def)
  then have c: "\<exists>r t'. clientHandshake refusing_net u hs p secs t = Some (r, t') \<and> \<not> in_success r \<and> in_http_status r = 0"
    for u p t by (fastforce simp: clientHandshake_def Let_def initResult_def split: option.split)
  show ?thesis
  proof (cases "parse url")
    case None
    then show ?thesis by (simp add: connectToUrl_def eval_nat_numeral initResult_def)
  next
    case (Some p)
    obtain made k where k: "nt_create refusing_net (up_protocol p = ''wss'') (t_socket t) = (made, k)" by (metis prod.exhaust)
    obtain r t' where "clientHandshake refusing_net url hs p secs (t\<lparr>t_socket := k\<rparr>) = Some (r, t')"
      "\<not> in_success r" "in_http_status r = 0" using c by blast
    with Some k show ?thesis
      by (cases made) (simp_all add: connectToUrl_def eval_nat_numeral initResult_def isRedirect_def)
  qed
qed

theorem ended_session_is_reported_witness:
  "\<exists>s detail. live_run refusing_net demo_wx demo_js live_init
       [LiveStart demo_args, LiveSup (no_socket []), LiveSup (no_socket []), LiveRun, LiveCallback] = Some s \<and>
     (Error, detail) \<in> set (sessionReports (reports (lv_client s)))"
proof -
  define s0 where "s0 = demo_live refusing_net (no_socket [])"
  define w where "w = sessionSocket (nt_sock refusing_net) (no_socket []) (makeSocket [])"
  have inv: "session_inv (RunCheck True) w" by (simp add: w_def session_inv_start)
  obtain r w1 where c: "wsConnect (nt_sock refusing_net) (connectToUrl refusing_net) (ws_handshakeTimeoutSecs w) w = Some (r, w1)"
    "\<not> in_success r"
    using refused_connect [of "ws_urlText w" "subProtocolsHeader w" "ws_handshakeTimeoutSecs w"
        "configure (deflateEnabled w) (ws_enablePong w) (ws_pingIntervalSecs w) (ws_transport w)"]
    by (auto simp: wsConnect_def Let_def)
  note a = url.attempt_fails [OF inv c]
  have new: "newMessages w (say (attemptError r) w1) = [attemptError r]"
    using a(3) inv by (simp add: newMessages_def session_inv_def)
  define s1 where "s1 = s0\<lparr>lv_socket := Some (say (attemptError r) w1), lv_pc := RunDone, lv_todo := [attemptError r]\<rparr>"
  have "live_step refusing_net demo_wx demo_js s0 LiveRun = Some s1"
    using a(2) new by (simp add: liveRun_def s0_def s1_def demo_live_client w_def)
  moreover define s2 where "s2 = s1\<lparr>lv_client := onError demo_wx (in_errorStr r) (lv_client s0), lv_todo := []\<rparr>"
  have "live_step refusing_net demo_wx demo_js s1 LiveCallback = Some s2"
    by (simp add: liveCallback_def s1_def s2_def s0_def ais_step_def demo_live_client messageEvent.simps attemptError_def
        errorMessage_def)
  ultimately have run: "live_run refusing_net demo_wx demo_js live_init
      ([LiveStart demo_args, LiveSup (no_socket []), LiveSup (no_socket [])] @ [LiveRun, LiveCallback]) = Some s2"
    unfolding live_run_append demo_live_run by (simp add: s0_def)
  then have run': "live_run refusing_net demo_wx demo_js live_init
      [LiveStart demo_args, LiveSup (no_socket []), LiveSup (no_socket []), LiveRun, LiveCallback] = Some s2" by simp
  have "sup (lv_client s2) = SupRun" "lv_pc s2 = RunDone" "lv_todo s2 = []" "m_streaming (client (lv_client s2))"
    by (simp_all add: s2_def s1_def s0_def onError_def demo_live_client)
  from ended_session_is_reported [OF live_reachable_run [OF live_start run] this] run' show ?thesis by blast
qed

section \<open>Stopping an open session\<close>

text \<open>\<open>Stop\<close> on an open session, over any socket whose peer is silent.\<close>

lemma stop_ends:
  assumes "live_reachable nt wx js s" and "\<not> terminated (lv_client s)"
    and "caller (lv_client s) = CallerStopLock None" and "sup (lv_client s) = SupRun" and "lv_todo s = []"
    and "lv_pc s = RunPoll \<or> lv_pc s = RunCheck False" and "lv_socket s = Some w" and "isConnected w"
    and "starved (ws_transport w)" and "peer_silent (nt_sock nt) quiet pending" and "quiet (t_socket (ws_transport w))"
  shows "\<exists>es s'. length es \<le> 2 * pending (t_socket (ws_transport w)) + 22 \<and> live_run nt wx js s es = Some s' \<and>
           caller (lv_client s') = CallerIdle \<and> sup (lv_client s') = SupNone \<and> lv_socket s' = None \<and>
           reports (lv_client s') = reports (lv_client s) @ [(Stopped, [])]"
proof -
  define w0 where "w0 = wsClose (nt_sock nt) kNormalClosureCode kNormalClosureMessage w"
  define s0 where "s0 = s\<lparr>lv_client := StopClose None (lv_client s), lv_socket := Some w0\<rparr>"
  have inv: "session_inv (lv_pc s) w"
    using live_reachable_inv [OF assms(1)] assms(4,7) by (simp add: live_inv_def)
  have off: "\<not> m_streaming (client (lv_client s))"
    using live_reachable_sys_inv [OF assms(1)] assms(3) by (simp add: caller_busy_not_streaming)
  have s0: "live_step nt wx js s LiveCaller = Some s0"
    using assms(2,3,7) by (simp add: liveCaller_def ais_step_def s0_def w0_def)
  have "length kNormalClosureMessage < kChunkSize - 2"
    by (simp add: kNormalClosureMessage_def bytes_of_def kChunkSize_def)
  with wsClose_closing [OF assms(10,11,8) _ assms(9), of kNormalClosureMessage kNormalClosureCode] inv
  have w0: "closing quiet w0" "elapsed (nt_sock nt) (ws_transport w0) \<ge> 0"
    "pending (t_socket (ws_transport w0)) \<le> pending (t_socket (ws_transport w)) + 2"
    by (simp_all add: session_inv_def w0_def)
  obtain n w' where "n \<le> 2 * pending (t_socket (ws_transport w0)) + 11"
    and run: "runSteps (nt_sock nt) (connectToUrl nt) n (lv_pc s, w0) = Some (RunDone, w')"
      "ws_events w' = ws_events w0 @ [closeMessage (ws_transport w0)]"
    using closing_runs [OF _ w0(1,2) assms(6), where pending = pending and conn = "connectToUrl nt"] assms(10)
    by (auto simp: peer_silent_def)
  then have n: "n \<le> 2 * pending (t_socket (ws_transport w)) + 15" using w0(3) by linarith
  have new: "newMessages w0 w' = [closeMessage (ws_transport w0)]" using run(2) by (rule newMessages_append)
  have "wm_type (closeMessage (ws_transport w0)) = MtClose" by (simp add: closeMessage_def isClose_def)
  with live_follow [of nt n s0 w0 RunDone w' wx js] run(1) new assms(2,4,5) off obtain es where
    es: "length es = n + 1" "live_run nt wx js s0 es = Some (s0\<lparr>lv_socket := Some w', lv_pc := RunDone, lv_todo := []\<rparr>)"
    by (auto simp: s0_def StopClose_def)
  define s1 where "s1 = s0\<lparr>lv_socket := Some w', lv_pc := RunDone, lv_todo := []\<rparr>"
  define k where "k = t_socket (ws_transport w)"
  obtain s' where s': "live_run nt wx js s1 [LiveReturn, LiveSup k, LiveSup k, LiveSup k, LiveCaller] = Some s'"
      "caller (lv_client s') = CallerIdle" "sup (lv_client s') = SupNone" "lv_socket s' = None"
      "reports (lv_client s') = reports (lv_client s1) @ [(Stopped, [])]"
    using live_return [of s1 nt wx js k] assms(2,4) off by (auto simp: s1_def s0_def StopClose_def)
  have "live_run nt wx js s (LiveCaller # es @ [LiveReturn, LiveSup k, LiveSup k, LiveSup k, LiveCaller]) = Some s'"
    using s0 es(2) s'(1) by (simp add: live_run_append s1_def)
  moreover have "reports (lv_client s1) = reports (lv_client s)" by (simp add: s1_def s0_def StopClose_def)
  ultimately show ?thesis using es(1) n s'(2-5)
    by (intro exI [of _ "LiveCaller # es @ [LiveReturn, LiveSup k, LiveSup k, LiveSup k, LiveCaller]"] exI [of _ s']) simp
qed

text \<open>C4. \<open>Stop\<close> on an open session ends, although the server says nothing more: its \<open>close\<close> lets the run
  loop of the library end within the closing delay. Of the system it takes that its calls return, with the clock
  going on, while nothing arrives.
\<close>

theorem stop_ends_open_session:
  assumes "live_reachable (socket_net os ua) wx js s" and "\<not> terminated (lv_client s)"
    and "caller (lv_client s) = CallerStopLock None" and "sup (lv_client s) = SupRun" and "lv_todo s = []"
    and "lv_pc s = RunPoll \<or> lv_pc s = RunCheck False" and "lv_socket s = Some w" and "isConnected w"
    and "starved (ws_transport w)" and "quiet_system os k Q queue" and "quietSocket k Q queue (t_socket (ws_transport w))"
  shows "\<exists>es s'. length es \<le> 2 * requests queue (t_socket (ws_transport w)) + 22 \<and>
           live_run (socket_net os ua) wx js s es = Some s' \<and>
           caller (lv_client s') = CallerIdle \<and> sup (lv_client s') = SupNone \<and> lv_socket s' = None \<and>
           reports (lv_client s') = reports (lv_client s) @ [(Stopped, [])]"
proof -
  have "peer_silent (nt_sock (socket_net os ua)) (quietSocket k Q queue) (requests queue)"
    using quiet_socket_peer_silent [OF assms(10)] by simp
  from stop_ends [OF assms(1-9) this assms(11)] show ?thesis .
qed

theorem stop_ends_open_session_witness:
  "\<exists>nt s es s'. live_reachable nt demo_wx demo_js s \<and> length es \<le> 23 \<and> live_run nt demo_wx demo_js s (LiveStop # es) = Some s' \<and>
     caller (lv_client s') = CallerIdle \<and> sup (lv_client s') = SupNone \<and> lv_socket s' = (None :: kernel sockets websocket option)"
proof -
  define nt where "nt = kernel_net (\<lambda>m. True)"
  define quiet where "quiet = quietSocket tlsSocket (\<lambda>e :: kernel. kn_unread e = []) kn_queue"
  define up where "up = idleSocket tlsSocket (kernelIdle (\<lambda>m. True))"
  have "serves nt (sessionHeader []) (no_socket serverAnswer) (up (wireRoom (bytes_of ''{}'')))"
    unfolding nt_def up_def by (rule serves_idle) simp
  moreover have "idle_socket (nt_sock nt) up" unfolding nt_def up_def kernel_net_simps by (rule idle_system_socket [OF kernel_idle])
  ultimately obtain s0 w j where s0: "live_reachable nt demo_wx demo_js s0"
    "lv_client s0 = onOpen False (lv_client (demo_live nt (no_socket serverAnswer)))"
    "lv_pc s0 = RunPoll" "lv_todo s0 = []" "lv_socket s0 = Some w" "idle w" "up j (t_socket (ws_transport w))"
    using demo_live_open by metis
  from s0(7) have quiet: "quiet (t_socket (ws_transport w))" "requests kn_queue (t_socket (ws_transport w)) = 0"
    by (cases "t_socket (ws_transport w)"; simp add: up_def quiet_def idleSocket_def kernelIdle_def kernelUp_def kernel_quietSocket requests_def)+
  define s where "s = s0\<lparr>lv_client := StopFlag None (lv_client s0)\<rparr>"
  have c0: "sup (lv_client s0) = SupRun" "\<not> terminated (lv_client s0)" "caller (lv_client s0) = CallerIdle"
    by (simp_all add: s0(2) onOpen_def Let_def demo_live_client split: option.split)
  have stop: "live_step nt demo_wx demo_js s0 LiveStop = Some s"
    using c0 by (simp add: liveCall_def ais_step_def s_def)
  have "live_reachable nt demo_wx demo_js s" using live_next [OF s0(1) stop] .
  moreover have "\<not> terminated (lv_client s)" "caller (lv_client s) = CallerStopLock None" "sup (lv_client s) = SupRun"
    using c0 by (simp_all add: s_def StopFlag_def)
  moreover have "lv_todo s = []" "lv_pc s = RunPoll \<or> lv_pc s = RunCheck False" "lv_socket s = Some w"
    using s0 by (simp_all add: s_def)
  moreover have "isConnected w" "starved (ws_transport w)" using s0(6) by (simp_all add: idle_def)
  ultimately obtain es s' where "length es \<le> 2 * 0 + 22" "live_run nt demo_wx demo_js s es = Some s'"
    "caller (lv_client s') = CallerIdle" "sup (lv_client s') = SupNone" "lv_socket s' = None"
    using stop_ends_open_session [OF _ _ _ _ _ _ _ _ _ kernel_quiet, where ua = "''ixwebsocket''" and s = s and w = w and
        wx = demo_wx and js = demo_js] quiet
    unfolding nt_def kernel_net_def quiet_def by auto
  with s0(1) stop show ?thesis
    by (intro exI [of _ nt] exI [of _ s0] exI [of _ es] exI [of _ s']) simp
qed

section \<open>Stopping before the connection is made\<close>

text \<open>C5. A \<open>Stop\<close> that comes between the publication of the socket and the beginning of \<open>run()\<close> is lost: its
  \<open>close()\<close> finds nothing to close, connecting forgets the request to cancel, and on a service that is
  reached the session opens, \<open>Running\<close> is reported, and everything stands still: \<open>Stop\<close> waits for the
  thread, which waits for the service, and as long as that sends nothing no step of either is possible.\<close>

theorem stop_before_connect_waits:
  assumes "live_reachable nt wx js s" and "sup (lv_client s) = SupPublish" and "m_streaming (client (lv_client s))"
    and "\<not> terminated (lv_client s)" and "so_readFd (fst k) = - 1"
    and "serves nt (sessionHeader (authToken (lv_client s))) k
           (idleSocket sock up (wireRoom (bytes_of (subscribeMsg (lv_client s)))))"
    and "idle_system os sock up" and "nt = socket_net os ua" and "validateUtf8 (bytes_of (subscribeMsg (lv_client s)))"
  shows "\<exists>s' w. live_run nt wx js s [LiveSup k, LiveStop, LiveCaller, LiveRun, LiveCallback] = Some s' \<and>
           caller (lv_client s') = CallerJoin None \<and> (\<forall>e. live_step nt wx js s' e = None) \<and>
           lv_socket s' = Some w \<and> isConnected w \<and> \<not> m_streaming (client (lv_client s')) \<and>
           reports (lv_client s') = reports (lv_client s) @ [(Running, [])]"
proof -
  have idle: "idle_socket (nt_sock nt) (idleSocket sock up)" using idle_system_socket [OF assms(7)] assms(8) by simp
  define msg where "msg = bytes_of (subscribeMsg (lv_client s))"
  obtain s1 w where s1: "live_run nt wx js s [LiveSup k, LiveStop, LiveCaller] = Some s1" "live_inv s1"
    and cl: "sup (lv_client s1) = SupRun" "\<not> terminated (lv_client s1)" "caller (lv_client s1) = CallerJoin None"
      "subscribeMsg (lv_client s1) = subscribeMsg (lv_client s)" "\<not> m_streaming (client (lv_client s1))"
      "reports (lv_client s1) = reports (lv_client s)" "m_socket (lv_client s1) \<noteq> None"
    and pc: "lv_pc s1 = RunCheck True" "lv_todo s1 = []" "lv_socket s1 = Some w" and inv: "session_inv (RunCheck True) w"
    and w: "ws_urlText w = kAisUrl" "ws_handshakeTimeoutSecs w = 60" "ws_pingIntervalSecs w = - 1"
      "subProtocolsHeader w = sessionHeader (authToken (lv_client s))" "t_socket (ws_transport w) = k"
      "t_rxbuf (ws_transport w) = []" "t_txbuf (ws_transport w) = []"
    by (rule lost_stop [OF assms(1-4), of k]) (simp add: assms(5,8) isWakeUpFromPollSupported_def)
  obtain r w1 where conn: "wsConnect (nt_sock nt) (connectToUrl nt) (ws_handshakeTimeoutSecs w) w = Some (r, w1)" "in_success r"
    and w1: "fresh (ws_transport w1)" "idleSocket sock up (wireRoom msg) (t_socket (ws_transport w1))"
    using serves_connects [of nt w "idleSocket sock up (wireRoom msg)"] assms(6) w by (auto simp: msg_def)
  define t where "t = snd (sendData (nt_sock nt) TEXT_FRAME msg False (ws_transport w1))"
  have "isConnected w1" using url.attempt_succeeds(3) [OF inv conn] .
  then have sent: "cs t = cs (ws_transport w1)" and "\<exists>j. idleSocket sock up j (t_socket t)"
    using idle_sendData [OF idle _ w1(2)] w1(1) by (simp_all add: t_def fresh_def isConnected_def)
  then obtain j where j: "idleSocket sock up j (t_socket t)" by blast
  obtain s2 w2 where s2: "live_run nt wx js s1 [LiveRun, LiveCallback] = Some s2" "lv_client s2 = onOpen False (lv_client s1)"
    "lv_pc s2 = RunPoll" "lv_todo s2 = []" "lv_socket s2 = Some w2" "idle w2" "ws_transport w2 = t\<lparr>t_out := []\<rparr>"
    using live_open [OF s1(2) cl(1,2) pc conn w1(1), of wx js] cl(4) assms(9) sent
    by (auto simp: t_def msg_def simp del: live_run.simps)
  have cl2: "sup (lv_client s2) = SupRun" "caller (lv_client s2) = CallerJoin None"
    "\<not> m_streaming (client (lv_client s2))" "reports (lv_client s2) = reports (lv_client s) @ [(Running, [])]"
    using cl by (auto simp: s2(2) onOpen_def Let_def split: option.split)
  from idle_blocks [OF idle s2(6) fresh_sent [OF w1(1) s2(7) [unfolded t_def]], of j "connectToUrl nt"] j s2(7)
  have "live_step nt wx js s2 e = None" for e
    using standstill [OF cl2(1,2) s2(4,3,5)] by simp
  moreover have "live_run nt wx js s ([LiveSup k, LiveStop, LiveCaller] @ [LiveRun, LiveCallback]) = Some s2"
    unfolding live_run_append s1(1) by (simp only: option.case s2(1))
  ultimately show ?thesis
    using cl2 s2(5,6) by (intro exI [of _ s2] exI [of _ w2]) (simp add: idle_def)
qed

theorem stop_before_connect_waits_witness:
  "\<exists>nt s'. live_run nt demo_wx demo_js live_init ([LiveStart demo_args, LiveSup (no_socket serverAnswer)] @
       [LiveSup (no_socket serverAnswer), LiveStop, LiveCaller, LiveRun, LiveCallback]) = Some s' \<and>
     caller (lv_client s') = CallerJoin None \<and> (\<forall>e. live_step nt demo_wx demo_js s' e = (None :: kernel sockets live_sys option))"
proof -
  define nt where "nt = kernel_net (\<lambda>m. True)"
  define k where "k = no_socket serverAnswer"
  have serves: "serves nt hs k (idleSocket tlsSocket (kernelIdle (\<lambda>m. True)) (wireRoom m))" for hs m
    unfolding nt_def k_def by (rule serves_idle) simp
  define s :: "kernel sockets live_sys" where "s = live_init\<lparr>lv_client := demo_run [CallStart demo_args, SupStep]\<rparr>"
  have run: "live_run nt demo_wx demo_js live_init [LiveStart demo_args, LiveSup k] = Some s"
    by (simp add: s_def demo_run_def live_init_def live_defs run_simps)
  have c: "sup (lv_client s) = SupPublish" "m_streaming (client (lv_client s))" "\<not> terminated (lv_client s)"
    by (simp_all add: s_def demo_run_def run_simps)
  have "subscribeMsg (lv_client s) = ''{}''"
    by (simp add: s_def demo_run_def run_simps) (simp add: demo_js_def BuildSubscribeMessage_def, code_simp)
  moreover have "so_readFd (fst k) = - 1" by (simp add: k_def no_socket_def noSocket_def newSocket_def)
  ultimately obtain s' where "live_run nt demo_wx demo_js s [LiveSup k, LiveStop, LiveCaller, LiveRun, LiveCallback] = Some s'"
    "caller (lv_client s') = CallerJoin None" "\<forall>e. live_step nt demo_wx demo_js s' e = None"
    using stop_before_connect_waits [OF live_reachable_run [OF live_start run] c _ serves kernel_idle, of "''ixwebsocket''"] demo_text
    unfolding nt_def kernel_net_def by metis
  then show ?thesis unfolding k_def [symmetric]
    by (intro exI [of _ nt] exI [of _ s']) (simp only: live_run_append [of _ _ _ live_init] run option.case simp_thms)
qed

section \<open>A subscribe message that cannot be sent\<close>

text \<open>C6. If the send in the callback of the opening finds the connection broken, the library closes it and
  calls back at once, inside \<open>send\<close>: \<open>connection lost\<close> is reported first and \<open>Running\<close> after it, so that
  a session that is over is shown as running while the supervisor waits, for two seconds at least,
  and the error is overwritten.\<close>

theorem failed_subscribe_shows_running:
  assumes "live_reachable nt wx js s" and "sup (lv_client s) = SupRun" and "\<not> terminated (lv_client s)"
    and "lv_pc s = RunPoll" and "lv_todo s = [m]" and "wm_type m = MtOpen" and "lv_socket s = Some w" and "isConnected w"
    and "\<not> t_enablePerMessageDeflate (ws_transport w)" and "broken (nt_sock nt) (t_socket (ws_transport w))"
    and "validateUtf8 (bytes_of (subscribeMsg (lv_client s)))"
    and "m_streaming (client (lv_client s))" and "\<not> errorReported (lv_client s)" and "n \<le> 20"
  shows "\<exists>s'. live_run nt wx js s ([LiveCallback, LiveReturn, LiveSup k, LiveSup k] @ replicate n (LiveSup k)) = Some s' \<and>
           sup (lv_client s') = SupSleep n \<and> lv_socket s' = None \<and>
           reports (lv_client s') = reports (lv_client s) @ [(Error, connectionLost), (Running, [])]"
proof -
  obtain w' where send: "sendSubscribe (nt_sock nt) s = (True, s\<lparr>lv_socket := Some w', lv_pc := RunDone\<rparr>)"
    using sendSubscribe_broken [OF assms(10,7,4,8,9,11)] .
  have "m_socket (lv_client s) \<noteq> None" using live_reachable_inv [OF assms(1)] assms(2) by (auto simp: live_inv_def)
  then obtain h where h: "m_socket (lv_client s) = Some h" by blast
  define c where "c = onOpen True (lv_client s)"
  have c: "sup c = SupRun" "\<not> terminated c" "m_streaming (client c)" "reachedRunning c"
    "reports c = reports (lv_client s) @ [(Error, connectionLost), (Running, [])]"
    using assms(2,3,12,13) h by (simp_all add: c_def onOpen_def onClose_def)
  define s1 where "s1 = s\<lparr>lv_client := supAfter (supTeardown (c\<lparr>sup := SupTeardown\<rparr>)), lv_socket := None, lv_pc := RunDone,
    lv_todo := []\<rparr>"
  have s1: "live_run nt wx js s [LiveCallback, LiveReturn, LiveSup k, LiveSup k] = Some s1"
    using assms(2,3,5,6) send c
    by (simp add: live_defs ais_step_def messageEvent.simps c_def [symmetric] s1_def supTeardown_def supAfter_def)
  have b: "backoffSeconds (lv_client s1) \<ge> 2" "sup (lv_client s1) = SupSleep 0"
    "\<not> terminated (lv_client s1)" "m_streaming (client (lv_client s1))" "reports (lv_client s1) = reports c" "lv_socket s1 = None"
    using c by (simp_all add: s1_def supTeardown_def supAfter_def chooseBackoff_def kMaxBackoffSeconds_def kInitialBackoffSeconds_def)
  have rep: "replicate (Suc i) (LiveSup k) = replicate i (LiveSup k) @ [LiveSup k]" for i
    by (metis replicate_Suc replicate_append_same)
  have "live_run nt wx js s1 (replicate n (LiveSup k)) = Some (s1\<lparr>lv_client := (lv_client s1)\<lparr>sup := SupSleep n\<rparr>\<rparr>)"
    using assms(14)
  proof (induction n)
    case 0
    then show ?case using b by simp
  next
    case (Suc n)
    have "live_step nt wx js (s1\<lparr>lv_client := (lv_client s1)\<lparr>sup := SupSleep n\<rparr>\<rparr>) (LiveSup k) =
        Some (s1\<lparr>lv_client := (lv_client s1)\<lparr>sup := SupSleep (Suc n)\<rparr>\<rparr>)"
      using Suc.prems b by (simp add: liveSup_def ais_step_def supSleep_def)
    with Suc show ?case by (simp add: rep live_run_append del: replicate.simps)
  qed
  with s1 have "live_run nt wx js s ([LiveCallback, LiveReturn, LiveSup k, LiveSup k] @ replicate n (LiveSup k)) =
      Some (s1\<lparr>lv_client := (lv_client s1)\<lparr>sup := SupSleep n\<rparr>\<rparr>)" unfolding live_run_append s1 by simp
  then show ?thesis using b c by (intro exI [of _ "s1\<lparr>lv_client := (lv_client s1)\<lparr>sup := SupSleep n\<rparr>\<rparr>"] conjI) simp_all
qed

text \<open>A system that takes the request to upgrade, and not a byte more.\<close>

theorem failed_subscribe_shows_running_witness:
  "\<exists>nt s s'. live_reachable nt demo_wx demo_js s \<and>
     live_run nt demo_wx demo_js s
       ([LiveCallback, LiveReturn, LiveSup (no_socket []), LiveSup (no_socket [])] @ replicate 20 (LiveSup (no_socket []))) = Some s' \<and>
     lv_socket s' = None \<and> (\<exists>rs. reports (lv_client s') = rs @ [(Error, connectionLost), (Running, [])])"
proof -
  define fits where "fits = (\<lambda>m. m \<le> length (aisRequest (sessionHeader [])))"
  define nt where "nt = kernel_net fits"
  define k where "k = no_socket serverAnswer"
  have "serves nt (sessionHeader []) k (broken (nt_sock nt))"
    unfolding nt_def k_def kernel_net_simps
  proof (rule serves_mono [OF serves_kernel [where m = 0]], goal_cases)
    case (2 k')
    then show ?case by (intro kernel_broken) (auto simp: kernelUp_def fits_def bytes_of_def)
  qed (simp add: fits_def)
  moreover define w where "w = sessionSocket (nt_sock nt) k (makeSocket [])"
  ultimately obtain r w1 where
    c: "wsConnect (nt_sock nt) (connectToUrl nt) (ws_handshakeTimeoutSecs w) w = Some (r, w1)" "fresh (ws_transport w1)"
      "broken (nt_sock nt) (t_socket (ws_transport w1))" and r: "in_success r"
    using serves_connects [of nt w "broken (nt_sock nt)"] by (auto simp: w_def)
  define s where "s = (demo_live nt k)\<lparr>lv_socket := Some w1, lv_pc := RunPoll, lv_todo := [openMessage r]\<rparr>"
  note a = live_connect [OF live_reachable_inv [OF demo_live_reachable] demo_live_client(1,2) demo_live_fields(2,3,1)
      c(1) [unfolded w_def] r, folded s_def]
  then have s: "live_reachable nt demo_wx demo_js s" by (blast intro: live_next [OF demo_live_reachable])
  have cl: "lv_client s = lv_client (demo_live nt k)" "lv_pc s = RunPoll" "lv_todo s = [openMessage r]" "lv_socket s = Some w1"
    by (simp_all add: s_def)
  from failed_subscribe_shows_running [OF s, of "openMessage r" w1 20 "no_socket []"] cl a(3) c(2,3) demo_text
  obtain s' where "live_run nt demo_wx demo_js s
       ([LiveCallback, LiveReturn, LiveSup (no_socket []), LiveSup (no_socket [])] @ replicate 20 (LiveSup (no_socket []))) = Some s'"
    "lv_socket s' = None" "\<exists>rs. reports (lv_client s') = rs @ [(Error, connectionLost), (Running, [])]"
    by (auto simp: demo_live_client openMessage_def fresh_def simp del: live_run.simps append_Cons)
  with s show ?thesis by blast
qed

end
