(* ===== verification/AisPlugin.thy ===== *)
theory AisPlugin
  imports AisMainGui
begin

text \<open>
  The plugin object (\<open>src/src/plugin/plugin.cpp\<close>): the calls OpenCPN makes of it, the window
  and the dialogs it opens, and the whole plugin as a transition system driven by OpenCPN, the
  user and the stream's thread.
\<close>

section \<open>State\<close>

text \<open>
  \<open>settings_of\<close> are the global settings and \<open>configSettings\<close> OpenCPN's configuration object.
  \<open>toolbarItemState\<close>, \<open>contextMenuViz\<close> and \<open>nmeaPushed\<close> are what the plugin last told OpenCPN
  about its toolbar button and its menu item, and the sentences it has pushed.
\<close>

record 'c plugin =
  settings_of :: settings
  configSettings :: "'c option"
  myGUI :: "main_gui option"
  toolbarId :: int
  isToolbarActive :: bool
  menuID :: int
  m_cursor_lat :: real
  m_cursor_lon :: real
  m_boat_lat :: real
  m_boat_lon :: real
  windowGeometry :: "(int \<times> int) \<times> (int \<times> int)"
  toolbarItemState :: bool
  contextMenuViz :: bool
  nmeaPushed :: "string list"

section \<open>Capabilities and version\<close>

text \<open>The bits of \<open>Init\<close>'s result are constants of OpenCPN's \<open>ocpn_plugin.h\<close>.\<close>

record ocpn_flags =
  INSTALLS_TOOLBAR_TOOL :: uint32
  WANTS_PREFERENCES :: uint32
  WANTS_CURSOR_LATLON :: uint32
  WANTS_NMEA_EVENTS :: uint32

definition capabilities :: "ocpn_flags \<Rightarrow> uint32" where
  "capabilities fl =
     or (or (or (INSTALLS_TOOLBAR_TOOL fl) (WANTS_PREFERENCES fl)) (WANTS_CURSOR_LATLON fl))
        (WANTS_NMEA_EVENTS fl)"

definition GetAPIVersionMajor :: "string \<Rightarrow> int" where
  "GetAPIVersionMajor api = atoi api"

text \<open>\<open>find\<close> returns \<open>npos\<close> when there is no dot, and \<open>npos + 1\<close> wraps to 0.\<close>

definition GetAPIVersionMinor :: "string \<Rightarrow> int" where
  "GetAPIVersionMinor api =
     atoi (drop (case find_idx (\<lambda>c. c = CHR ''.'') api of None \<Rightarrow> 0 | Some i \<Rightarrow> i + 1) api)"

section \<open>Settings\<close>

definition windowInfo :: "'c plugin \<Rightarrow> window_info option" where
  "windowInfo p =
     map_option (\<lambda>w. \<lparr>wi_width = fst (fst (windowGeometry p)), wi_height = snd (fst (windowGeometry p)),
                      wi_x = fst (snd (windowGeometry p)), wi_y = snd (snd (windowGeometry p)),
                      wi_searchBoxSize = getSearchBoxSize w\<rparr>) (myGUI p)"

definition pluginSave :: "wx_api \<Rightarrow> 'c config_api \<Rightarrow> 'c plugin \<Rightarrow> 'c plugin" where
  "pluginSave wx api p =
     (let (g, c) = SaveSettings wx api (windowInfo p) (settings_of p, configSettings p)
      in p\<lparr>settings_of := g, configSettings := c\<rparr>)"

definition pluginLoad :: "wx_api \<Rightarrow> 'c config_api \<Rightarrow> 'c plugin \<Rightarrow> 'c plugin" where
  "pluginLoad wx api p =
     (let (g, c) = LoadSettings wx api (settings_of p, configSettings p)
      in p\<lparr>settings_of := g, configSettings := c\<rparr>)"

section \<open>Life cycle\<close>

text \<open>
  \<open>Init\<close>, given OpenCPN's configuration object and the ids it assigns to the toolbar button and
  the menu item.
\<close>

definition Init :: "wx_api \<Rightarrow> 'c config_api \<Rightarrow> 'c option \<Rightarrow> int \<Rightarrow> int \<Rightarrow> 'c plugin \<Rightarrow> 'c plugin" where
  "Init wx api config tool menu p =
     (let p = pluginLoad wx api (p\<lparr>configSettings := config, myGUI := None\<rparr>)
      in p\<lparr>toolbarId := tool, menuID := menu, contextMenuViz := False\<rparr>)"

definition OnGuiClosed :: "'c plugin \<Rightarrow> main_gui \<Rightarrow> 'c plugin" where
  "OnGuiClosed p w =
     (let g = settings_of p;
          isDataStreaming = isStreamingData w;
          p = p\<lparr>isToolbarActive := False,
                toolbarItemState := isDataStreaming \<and> g_keepWindowActive g\<rparr>;
          w' = (if \<not> g_keepWindowActive g then StopAisStream w else w);
          p = (if \<not> g_keepWindowActive g then p\<lparr>contextMenuViz := False\<rparr> else p)
      in p\<lparr>myGUI := Some (w'\<lparr>w_shown := False\<rparr>)\<rparr>)"

text \<open>Closing the window tells the plugin, which the window knows since it was made.\<close>

definition OnClose :: "'c plugin \<Rightarrow> main_gui \<Rightarrow> 'c plugin" where
  [simp]: "OnClose p w = OnGuiClosed p w"

text \<open>
  \<open>DeInit\<close>: the window is closed (which runs \<open>OnGuiClosed\<close>) and deleted; its destructor stops
  the stream, and what was posted to it is dropped with it.
\<close>

definition DeInit :: "wx_api \<Rightarrow> 'c config_api \<Rightarrow> 'c plugin \<Rightarrow> 'c plugin" where
  "DeInit wx api p =
     (let p = pluginSave wx api p in
      case myGUI p of
        None \<Rightarrow> p
      | Some w \<Rightarrow>
          (OnClose p w)\<lparr>myGUI := None, isToolbarActive := False, toolbarItemState := False,
             contextMenuViz := False\<rparr>)"

section \<open>Calls of OpenCPN\<close>

definition SetCursorLatLon :: "real \<Rightarrow> real \<Rightarrow> 'c plugin \<Rightarrow> 'c plugin" where
  "SetCursorLatLon lat lon p = p\<lparr>m_cursor_lat := lat, m_cursor_lon := lon\<rparr>"

definition SetPositionFix ::
  "wx_api \<Rightarrow> 'j json_api \<Rightarrow> real \<Rightarrow> real \<Rightarrow> 'c plugin \<Rightarrow> 'c plugin" where
  "SetPositionFix wx js lat lon p =
     (let p = p\<lparr>m_boat_lat := lat, m_boat_lon := lon\<rparr>
      in p\<lparr>myGUI := map_option (updateBoatPosition wx js (settings_of p) lat lon) (myGUI p)\<rparr>)"

text \<open>The modal preferences dialog, with what the user does in it.\<close>

definition ShowPreferencesDialog ::
  "wx_api \<Rightarrow> 'j json_api \<Rightarrow> 'c config_api \<Rightarrow> dialog_action list \<Rightarrow> 'c plugin \<Rightarrow> 'c plugin" where
  "ShowPreferencesDialog wx js api as p =
     (let (g, ok) = ShowModalSettings as (settings_of p);
          p = p\<lparr>settings_of := g\<rparr>
      in if ok then
           (let p = pluginSave wx api p
            in p\<lparr>myGUI := map_option (refreshTokenState wx js (settings_of p)) (myGUI p)\<rparr>)
         else p)"

definition createGui :: "wx_api \<Rightarrow> 'j json_api \<Rightarrow> 'c plugin \<Rightarrow> 'c plugin" where
  "createGui wx js p =
     (case myGUI p of
        Some w \<Rightarrow> p
      | None \<Rightarrow>
          (let g = settings_of p; geo = windowGeometry p
           in p\<lparr>myGUI := Some (newMainGui wx js g),
                windowGeometry :=
                  (if g_restoreWindowSize g then (g_windowWidth g, g_windowHeight g) else fst geo,
                   if g_restoreWindowPos g then (g_windowPosX g, g_windowPosY g) else snd geo)\<rparr>))"

definition showGui :: "main_gui \<Rightarrow> 'c plugin \<Rightarrow> 'c plugin" where
  "showGui w p =
     p\<lparr>toolbarItemState := True, contextMenuViz := True, myGUI := Some (w\<lparr>w_shown := True\<rparr>)\<rparr>"

definition hideGui :: "main_gui \<Rightarrow> 'c plugin \<Rightarrow> 'c plugin" where
  "hideGui w p =
     (let g = settings_of p;
          isDataStreaming = isStreamingData w;
          p = p\<lparr>toolbarItemState := isDataStreaming \<and> g_keepWindowActive g\<rparr>
      in if \<not> g_keepWindowActive g
         then p\<lparr>myGUI := Some (StopAisStream (w\<lparr>w_shown := False\<rparr>)), contextMenuViz := False\<rparr>
         else p\<lparr>myGUI := Some (w\<lparr>w_shown := False\<rparr>)\<rparr>)"

definition OnToolbarToolCallback :: "wx_api \<Rightarrow> 'j json_api \<Rightarrow> int \<Rightarrow> 'c plugin \<Rightarrow> 'c plugin" where
  "OnToolbarToolCallback wx js item p =
     (if item \<noteq> toolbarId p then p
      else
        (let p = createGui wx js p;
             p = p\<lparr>isToolbarActive := \<not> isToolbarActive p\<rparr>
         in case myGUI p of
              None \<Rightarrow> p
            | Some w \<Rightarrow> if isToolbarActive p then showGui w p else hideGui w p))"

datatype DialogAction = NoAction | UpdateToBoat | UpdateToCursor

text \<open>The menu dialog: what the user pressed, or \<open>None\<close> when it was dismissed.\<close>

datatype menu_button = ButtonUpdateSearchPosition | ButtonUpdateSearchPosOnBoat

fun menuDialogAction :: "menu_button option \<Rightarrow> DialogAction \<times> bool" where
  "menuDialogAction None = (NoAction, False)"
| "menuDialogAction (Some ButtonUpdateSearchPosition) = (UpdateToCursor, True)"
| "menuDialogAction (Some ButtonUpdateSearchPosOnBoat) = (UpdateToBoat, True)"

definition OnContextMenuItemCallback ::
  "wx_api \<Rightarrow> 'j json_api \<Rightarrow> int \<Rightarrow> menu_button option \<Rightarrow> 'c plugin \<Rightarrow> 'c plugin" where
  "OnContextMenuItemCallback wx js item pressed p =
     (case myGUI p of
        None \<Rightarrow> p
      | Some w \<Rightarrow>
          if item = menuID p then
            (case menuDialogAction pressed of
               (action, ok) \<Rightarrow>
                 if ok then
                   (case action of
                      UpdateToCursor \<Rightarrow>
                        p\<lparr>myGUI := Some (updateSearchZoneOnCoord wx js (settings_of p)
                                         (m_cursor_lat p) (m_cursor_lon p) w)\<rparr>
                    | UpdateToBoat \<Rightarrow>
                        p\<lparr>myGUI := Some (activateFollowBoatMode wx js (settings_of p) w)\<rparr>
                    | NoAction \<Rightarrow> p)
                 else p)
          else p)"

definition sendNmeaSentence :: "string \<Rightarrow> 'c plugin \<Rightarrow> 'c plugin" where
  "sendNmeaSentence sentence p = p\<lparr>nmeaPushed := nmeaPushed p @ [sentence]\<rparr>"

section \<open>The event loop\<close>

text \<open>The event loop runs the oldest call posted to the window.\<close>

definition dispatchPending :: "wx_api \<Rightarrow> 'c plugin \<Rightarrow> 'c plugin" where
  "dispatchPending wx p =
     (case myGUI p of
        None \<Rightarrow> p
      | Some w \<Rightarrow>
          (case w_pending w of
             [] \<Rightarrow> p
           | PendingState st d # rest \<Rightarrow>
               p\<lparr>myGUI := Some (OnAisStreamStateChanged wx st d (w\<lparr>w_pending := rest\<rparr>))\<rparr>
           | PendingSentence s # rest \<Rightarrow>
               sendNmeaSentence s (p\<lparr>myGUI := Some (w\<lparr>w_pending := rest\<rparr>)\<rparr>)))"

text \<open>The stream's thread posts a call; it exists only while the window does.\<close>

definition postPending :: "pending \<Rightarrow> 'c plugin \<Rightarrow> 'c plugin" where
  "postPending q p =
     p\<lparr>myGUI := map_option (\<lambda>w. w\<lparr>w_pending := w_pending w @ [q]\<rparr>) (myGUI p)\<rparr>"

datatype app_event =
    ToolbarTool int
  | ContextMenuItem int "menu_button option"
  | Preferences "dialog_action list"
  | PositionFix real real
  | CursorLatLon real real
  | CloseWindow
  | WindowEvent gui_event
  | StreamPosts pending
  | RunPending
  | PluginDeInit
  | PluginInit int int

text \<open>
  \<open>None\<close> when the event cannot happen: the user acts on a window that is shown, and within what
  its controls accept; OpenCPN initialises a plugin that has no window. There is no next state
  either when a handler leaves a vector or does not return.
\<close>

fun app_step ::
  "wx_api \<Rightarrow> 'j json_api \<Rightarrow> 'c config_api \<Rightarrow> 'c plugin \<Rightarrow> app_event \<Rightarrow> 'c plugin option" where
  "app_step wx js api p (ToolbarTool item) = Some (OnToolbarToolCallback wx js item p)"
| "app_step wx js api p (ContextMenuItem item b) = Some (OnContextMenuItemCallback wx js item b p)"
| "app_step wx js api p (Preferences as) = Some (ShowPreferencesDialog wx js api as p)"
| "app_step wx js api p (PositionFix lat lon) = Some (SetPositionFix wx js lat lon p)"
| "app_step wx js api p (CursorLatLon lat lon) = Some (SetCursorLatLon lat lon p)"
| "app_step wx js api p CloseWindow =
     (case myGUI p of Some w \<Rightarrow> if w_shown w then Some (OnClose p w) else None | None \<Rightarrow> None)"
| "app_step wx js api p (WindowEvent e) =
     (case myGUI p of
        Some w \<Rightarrow>
          if w_shown w \<and> eventAllowed e w then
            (case guiEvent wx js e (settings_of p) w of
               Some (Inr (g, w')) \<Rightarrow> Some (p\<lparr>settings_of := g, myGUI := Some w'\<rparr>)
             | Some (Inl OutOfVector) \<Rightarrow> None
             | None \<Rightarrow> None)
          else None
      | None \<Rightarrow> None)"
| "app_step wx js api p (StreamPosts q) = Some (postPending q p)"
| "app_step wx js api p RunPending = Some (dispatchPending wx p)"
| "app_step wx js api p PluginDeInit = Some (DeInit wx api p)"
| "app_step wx js api p (PluginInit tool menu) =
     (if myGUI p = None then Some (Init wx api (configSettings p) tool menu p) else None)"

inductive app_reachable ::
  "wx_api \<Rightarrow> 'j json_api \<Rightarrow> 'c config_api \<Rightarrow> 'c plugin \<Rightarrow> 'c plugin \<Rightarrow> bool"
  for wx :: wx_api and js :: "'j json_api" and api :: "'c config_api" and p0 :: "'c plugin" where
  app_start: "app_reachable wx js api p0 p0"
| app_next: "app_reachable wx js api p0 p \<Longrightarrow> app_step wx js api p e = Some p' \<Longrightarrow>
     app_reachable wx js api p0 p'"

fun app_run ::
  "wx_api \<Rightarrow> 'j json_api \<Rightarrow> 'c config_api \<Rightarrow> 'c plugin \<Rightarrow> app_event list \<Rightarrow> 'c plugin option" where
  "app_run wx js api p [] = Some p"
| "app_run wx js api p (e # es) =
     (case app_step wx js api p e of None \<Rightarrow> None | Some p' \<Rightarrow> app_run wx js api p' es)"

text \<open>A plugin just constructed, before \<open>Init\<close>.\<close>

definition plugin_new :: "'c option \<Rightarrow> 'c plugin" where
  "plugin_new config =
     \<lparr>settings_of = settings_init, configSettings = config, myGUI = None, toolbarId = 0,
      isToolbarActive = False, menuID = 0, m_cursor_lat = 0, m_cursor_lon = 0, m_boat_lat = 0,
      m_boat_lon = 0, windowGeometry = ((0, 0), (0, 0)), toolbarItemState = False,
      contextMenuViz = False, nmeaPushed = []\<rparr>"

end
