(* ===== verification/AisMainGuiProofs.thy ===== *)
theory AisMainGuiProofs
  imports AisMainGui
begin

text \<open>
  What every handler of the main window keeps true: the vessel list and its table agree, the
  search box stays within the slider's range, and a running stream has the subscription that
  the window's present state asks for.
\<close>

section \<open>What a call of the client changes\<close>

lemma adoptClient_fields [simp]:
  "m_initialBoatPositionSet (adoptClient r w) = m_initialBoatPositionSet w"
  "m_followBoatMode (adoptClient r w) = m_followBoatMode w"
  "m_boatLatitude (adoptClient r w) = m_boatLatitude w"
  "m_boatLongitude (adoptClient r w) = m_boatLongitude w"
  "m_searchLatitude (adoptClient r w) = m_searchLatitude w"
  "m_searchLongitude (adoptClient r w) = m_searchLongitude w"
  "m_searchBoxSize (adoptClient r w) = m_searchBoxSize w"
  "m_getSnapshot (adoptClient r w) = m_getSnapshot w"
  "w_followBoatMode (adoptClient r w) = w_followBoatMode w"
  "w_activateVesselFollowing (adoptClient r w) = w_activateVesselFollowing w"
  "w_sliderRange (adoptClient r w) = w_sliderRange w"
  "w_sliderValue (adoptClient r w) = w_sliderValue w"
  "w_spinMMSI (adoptClient r w) = w_spinMMSI w"
  "w_mmsiComment (adoptClient r w) = w_mmsiComment w"
  "w_rows (adoptClient r w) = w_rows w"
  "w_searchBoxSize (adoptClient r w) = w_searchBoxSize w"
  "w_searchLatitude (adoptClient r w) = w_searchLatitude w"
  "w_searchLongitude (adoptClient r w) = w_searchLongitude w"
  "w_streamState (adoptClient r w) = w_streamState w"
  "w_shown (adoptClient r w) = w_shown w"
  "m_aisStream (adoptClient r w) = fst r"
  by (simp_all add: adoptClient_def split: prod.splits)

lemma RestartAisStream_fields [simp]:
  "m_initialBoatPositionSet (RestartAisStream js g w) = m_initialBoatPositionSet w"
  "m_followBoatMode (RestartAisStream js g w) = m_followBoatMode w"
  "m_boatLatitude (RestartAisStream js g w) = m_boatLatitude w"
  "m_boatLongitude (RestartAisStream js g w) = m_boatLongitude w"
  "m_searchLatitude (RestartAisStream js g w) = m_searchLatitude w"
  "m_searchLongitude (RestartAisStream js g w) = m_searchLongitude w"
  "m_searchBoxSize (RestartAisStream js g w) = m_searchBoxSize w"
  "m_getSnapshot (RestartAisStream js g w) = m_getSnapshot w"
  "w_followBoatMode (RestartAisStream js g w) = w_followBoatMode w"
  "w_activateVesselFollowing (RestartAisStream js g w) = w_activateVesselFollowing w"
  "w_sliderRange (RestartAisStream js g w) = w_sliderRange w"
  "w_sliderValue (RestartAisStream js g w) = w_sliderValue w"
  "w_spinMMSI (RestartAisStream js g w) = w_spinMMSI w"
  "w_rows (RestartAisStream js g w) = w_rows w"
  "w_searchBoxSize (RestartAisStream js g w) = w_searchBoxSize w"
  "w_searchLatitude (RestartAisStream js g w) = w_searchLatitude w"
  "w_searchLongitude (RestartAisStream js g w) = w_searchLongitude w"
  "w_shown (RestartAisStream js g w) = w_shown w"
  by (simp_all add: RestartAisStream_def)

lemma streamArgs_cong:
  assumes "m_searchLatitude w' = m_searchLatitude w" and "m_searchLongitude w' = m_searchLongitude w"
    and "m_searchBoxSize w' = m_searchBoxSize w" and "m_getSnapshot w' = m_getSnapshot w"
  shows "streamArgs g w' = streamArgs g w"
  using assms by (simp add: streamArgs_def)

section \<open>The running stream\<close>

text \<open>
  A start of the client will not be refused, and, while it streams, the thread started last was
  given what the window and the settings say now.
\<close>

definition client_ok :: "'j json_api \<Rightarrow> settings \<Rightarrow> main_gui \<Rightarrow> bool" where
  "client_ok js g w \<longleftrightarrow>
     tokenReady (m_aisStream w) \<and>
     (m_streaming (m_aisStream w) \<longrightarrow>
        w_sessions w \<noteq> [] \<and> last (w_sessions w) = threadArgs js (streamArgs g w) (m_aisStream w))"

text \<open>The same before a restart: the subscription may be out of date.\<close>

definition client_stale :: "main_gui \<Rightarrow> bool" where
  "client_stale w \<longleftrightarrow> tokenReady (m_aisStream w)"

lemma client_ok_stale: "client_ok js g w \<Longrightarrow> client_stale w"
  by (simp add: client_ok_def client_stale_def)

lemma RestartAisStream_ok:
  assumes "client_stale w"
  shows "client_ok js g (RestartAisStream js g w)"
proof (cases "IsStreaming (m_aisStream w)")
  case True
  with assms ais.restart_fresh [of "m_aisStream w" js "streamArgs g w"]
  obtain cl where cl: "clientRestart js (streamArgs g w) (m_aisStream w) =
      (cl, None, Some (threadArgs js (streamArgs g w) cl))" "IsStreaming cl" "tokenReady cl"
    by (auto simp: client_stale_def)
  then have "streamArgs g (RestartAisStream js g w) = streamArgs g w"
    by (intro streamArgs_cong) simp_all
  with True cl assms show ?thesis
    by (simp add: client_ok_def client_stale_def RestartAisStream_def adoptClient_def)
next
  case False
  with assms show ?thesis
    by (simp add: client_ok_def client_stale_def RestartAisStream_def IsStreaming_def)
qed

lemma RestartAisStream_streaming:
  "client_stale w \<Longrightarrow>
     m_streaming (m_aisStream (RestartAisStream js g w)) = m_streaming (m_aisStream w)"
  using ais.restart_keeps_streaming [of "m_aisStream w" js "streamArgs g w"]
  by (simp add: client_stale_def RestartAisStream_def IsStreaming_def)

definition trim_law :: "wx_api \<Rightarrow> bool" where
  "trim_law wx \<longleftrightarrow> wx_TrimLeft wx (wx_TrimRight wx []) = []"

lemma HasToken_nonempty: "trim_law wx \<Longrightarrow> HasToken wx g \<Longrightarrow> g_openWatersToken g \<noteq> []"
  by (auto simp: HasToken_def trim_law_def)

lemma pushToken_stale:
  "trim_law wx \<Longrightarrow> client_stale w \<Longrightarrow> client_stale (pushToken wx g w)"
  by (auto simp: client_stale_def pushToken_def tokenReady_def SetToken_def SetTokenEnabled_def
      dest: HasToken_nonempty)

lemma pushToken_streaming [simp]:
  "m_streaming (m_aisStream (pushToken wx g w)) = m_streaming (m_aisStream w)"
  by (simp add: pushToken_def SetToken_def SetTokenEnabled_def)

lemma StartAisStream_ok:
  assumes "trim_law wx" and "client_ok js g w"
  shows "client_ok js g (StartAisStream wx js g w) \<and>
         m_streaming (m_aisStream (StartAisStream wx js g w))"
proof (cases "IsStreaming (m_aisStream w)")
  case True
  with assms show ?thesis by (simp add: StartAisStream_def IsStreaming_def)
next
  case False
  define w' where "w' = pushToken wx g w"
  have "client_stale w'" and "\<not> IsStreaming (m_aisStream w')"
    using pushToken_stale [OF assms(1) client_ok_stale [OF assms(2)]] False
    by (simp_all add: w'_def IsStreaming_def)
  with ais.start_ready [of "m_aisStream w'" js "streamArgs g w'"]
  obtain cl where cl: "clientStart js (streamArgs g w') (m_aisStream w') =
      (cl, None, Some (threadArgs js (streamArgs g w') cl))" "IsStreaming cl" "tokenReady cl"
    by (auto simp: client_stale_def)
  define w'' where "w'' = adoptClient (clientStart js (streamArgs g w') (m_aisStream w')) w'"
  have "streamArgs g w'' = streamArgs g w'"
    by (intro streamArgs_cong) (simp_all add: w''_def)
  with cl \<open>client_stale w'\<close> have "client_ok js g w'' \<and> m_streaming (m_aisStream w'')"
    by (simp add: client_ok_def client_stale_def w''_def adoptClient_def IsStreaming_def)
  with False show ?thesis by (simp add: StartAisStream_def w''_def w'_def Let_def)
qed

lemma StopAisStream_ok: "client_ok js g w \<Longrightarrow> client_ok js g (StopAisStream w)"
  by (simp add: client_ok_def StopAisStream_def IsStreaming_def clientStop_def tokenReady_def)

lemma StopAisStream_stops [simp]: "\<not> m_streaming (m_aisStream (StopAisStream w))"
  by (simp add: StopAisStream_def IsStreaming_def clientStop_def)

text \<open>Updates the stream does not depend on.\<close>

lemma client_stale_update [simp]:
  "client_stale (w\<lparr>w_rows := r\<rparr>) = client_stale w"
  "client_stale (w\<lparr>w_mmsiComment := c\<rparr>) = client_stale w"
  "client_stale (w\<lparr>m_followBoatMode := b\<rparr>) = client_stale w"
  "client_stale (w\<lparr>w_followBoatMode := b\<rparr>) = client_stale w"
  "client_stale (w\<lparr>w_activateVesselFollowing := b\<rparr>) = client_stale w"
  "client_stale (w\<lparr>m_initialBoatPositionSet := b\<rparr>) = client_stale w"
  "client_stale (w\<lparr>m_searchLatitude := x\<rparr>) = client_stale w"
  "client_stale (w\<lparr>m_searchLongitude := x\<rparr>) = client_stale w"
  "client_stale (w\<lparr>m_boatLatitude := x\<rparr>) = client_stale w"
  "client_stale (w\<lparr>m_boatLongitude := x\<rparr>) = client_stale w"
  "client_stale (w\<lparr>w_searchLatitude := s\<rparr>) = client_stale w"
  "client_stale (w\<lparr>w_searchLongitude := s\<rparr>) = client_stale w"
  "client_stale (w\<lparr>m_searchBoxSize := x\<rparr>) = client_stale w"
  "client_stale (w\<lparr>w_searchBoxSize := s\<rparr>) = client_stale w"
  "client_stale (w\<lparr>w_sliderRange := rg\<rparr>) = client_stale w"
  "client_stale (w\<lparr>w_sliderValue := v\<rparr>) = client_stale w"
  by (simp_all add: client_stale_def)

lemma client_ok_cong:
  assumes "client_ok js g w" and "m_aisStream w' = m_aisStream w"
    and "w_sessions w' = w_sessions w" and "streamArgs g' w' = streamArgs g w"
  shows "client_ok js g' w'"
  using assms by (simp add: client_ok_def)

section \<open>The search area\<close>

definition box_ok :: "main_gui \<Rightarrow> bool" where
  "box_ok w \<longleftrightarrow>
     fst (w_sliderRange w) = 0 \<and> snd (w_sliderRange w) \<in> {10, 20} \<and>
     0 \<le> w_sliderValue w \<and> w_sliderValue w \<le> snd (w_sliderRange w) \<and>
     0 \<le> m_searchBoxSize w \<and> m_searchBoxSize w \<le> of_int (snd (w_sliderRange w))"

lemma clamp_bounds: "lo \<le> hi \<Longrightarrow> lo \<le> clamp x lo hi \<and> clamp x lo hi \<le> hi"
  by (simp add: clamp_def)

lemma clamp_id: "lo \<le> x \<Longrightarrow> x \<le> hi \<Longrightarrow> clamp x lo hi = x"
  by (simp add: clamp_def)

lemma updateSearchBoxSize_ok:
  assumes "client_stale w"
  shows "client_ok js g (updateSearchBoxSize wx js g x w)" and "box_ok (updateSearchBoxSize wx js g x w)"
proof -
  show "client_ok js g (updateSearchBoxSize wx js g x w)"
    unfolding updateSearchBoxSize_def Let_def by (rule RestartAisStream_ok) (simp add: assms)
  have "0 \<le> clamp x 0 (of_int (maxBoxSize wx g)) \<and>
        clamp x 0 (of_int (maxBoxSize wx g)) \<le> of_int (maxBoxSize wx g)"
    by (rule clamp_bounds) (simp add: maxBoxSize_def)
  moreover from this have "0 \<le> cast_int (clamp x 0 (of_int (maxBoxSize wx g))) \<and>
        cast_int (clamp x 0 (of_int (maxBoxSize wx g))) \<le> maxBoxSize wx g"
    by (simp add: cast_int_def floor_le_iff)
  ultimately show "box_ok (updateSearchBoxSize wx js g x w)"
    by (simp add: box_ok_def updateSearchBoxSize_def Let_def) (simp add: maxBoxSize_def)
qed

lemma updateSearchPosition_ok:
  "client_stale w \<Longrightarrow> client_ok js g (updateSearchPosition wx js g lat lon w)"
  unfolding updateSearchPosition_def Let_def by (rule RestartAisStream_ok) simp

lemma updateSearchPosition_fields [simp]:
  "m_initialBoatPositionSet (updateSearchPosition wx js g lat lon w) = m_initialBoatPositionSet w"
  "m_followBoatMode (updateSearchPosition wx js g lat lon w) = m_followBoatMode w"
  "m_boatLatitude (updateSearchPosition wx js g lat lon w) = m_boatLatitude w"
  "m_boatLongitude (updateSearchPosition wx js g lat lon w) = m_boatLongitude w"
  "m_searchLatitude (updateSearchPosition wx js g lat lon w) = lat"
  "m_searchLongitude (updateSearchPosition wx js g lat lon w) = lon"
  "m_searchBoxSize (updateSearchPosition wx js g lat lon w) = m_searchBoxSize w"
  "w_followBoatMode (updateSearchPosition wx js g lat lon w) = w_followBoatMode w"
  "w_activateVesselFollowing (updateSearchPosition wx js g lat lon w) = w_activateVesselFollowing w"
  "w_sliderRange (updateSearchPosition wx js g lat lon w) = w_sliderRange w"
  "w_sliderValue (updateSearchPosition wx js g lat lon w) = w_sliderValue w"
  "w_rows (updateSearchPosition wx js g lat lon w) = w_rows w"
  "w_spinMMSI (updateSearchPosition wx js g lat lon w) = w_spinMMSI w"
  "w_shown (updateSearchPosition wx js g lat lon w) = w_shown w"
  by (simp_all add: updateSearchPosition_def Let_def)

lemma updateSearchPosition_streaming:
  "client_stale w \<Longrightarrow>
     m_streaming (m_aisStream (updateSearchPosition wx js g lat lon w)) = m_streaming (m_aisStream w)"
  unfolding updateSearchPosition_def Let_def by (subst RestartAisStream_streaming) simp_all

lemma updateSearchBoxSize_fields [simp]:
  "m_followBoatMode (updateSearchBoxSize wx js g x w) = m_followBoatMode w"
  "w_followBoatMode (updateSearchBoxSize wx js g x w) = w_followBoatMode w"
  "w_activateVesselFollowing (updateSearchBoxSize wx js g x w) = w_activateVesselFollowing w"
  "w_rows (updateSearchBoxSize wx js g x w) = w_rows w"
  "w_spinMMSI (updateSearchBoxSize wx js g x w) = w_spinMMSI w"
  "w_shown (updateSearchBoxSize wx js g x w) = w_shown w"
  "m_initialBoatPositionSet (updateSearchBoxSize wx js g x w) = m_initialBoatPositionSet w"
  "m_searchLatitude (updateSearchBoxSize wx js g x w) = m_searchLatitude w"
  "m_boatLatitude (updateSearchBoxSize wx js g x w) = m_boatLatitude w"
  by (simp_all add: updateSearchBoxSize_def Let_def)

lemma updateSearchBoxSize_streaming:
  "client_stale w \<Longrightarrow>
     m_streaming (m_aisStream (updateSearchBoxSize wx js g x w)) = m_streaming (m_aisStream w)"
  unfolding updateSearchBoxSize_def Let_def by (subst RestartAisStream_streaming) simp_all

text \<open>The follow mode.\<close>

lemma firstFix_fields [simp]:
  "m_followBoatMode (firstFix wx js g lat lon w) = m_followBoatMode w"
  "m_boatLatitude (firstFix wx js g lat lon w) = m_boatLatitude w"
  "m_boatLongitude (firstFix wx js g lat lon w) = m_boatLongitude w"
  "m_searchBoxSize (firstFix wx js g lat lon w) = m_searchBoxSize w"
  "w_followBoatMode (firstFix wx js g lat lon w) = w_followBoatMode w"
  "w_activateVesselFollowing (firstFix wx js g lat lon w) = w_activateVesselFollowing w"
  "w_sliderRange (firstFix wx js g lat lon w) = w_sliderRange w"
  "w_sliderValue (firstFix wx js g lat lon w) = w_sliderValue w"
  "w_rows (firstFix wx js g lat lon w) = w_rows w"
  "w_spinMMSI (firstFix wx js g lat lon w) = w_spinMMSI w"
  "w_shown (firstFix wx js g lat lon w) = w_shown w"
  "m_initialBoatPositionSet (firstFix wx js g lat lon w)"
  by (simp_all add: firstFix_def)

lemma followBoat_fields [simp]:
  "m_followBoatMode (followBoat wx js g w) = m_followBoatMode w"
  "m_boatLatitude (followBoat wx js g w) = m_boatLatitude w"
  "m_boatLongitude (followBoat wx js g w) = m_boatLongitude w"
  "m_searchBoxSize (followBoat wx js g w) = m_searchBoxSize w"
  "w_followBoatMode (followBoat wx js g w) = w_followBoatMode w"
  "w_activateVesselFollowing (followBoat wx js g w) = w_activateVesselFollowing w"
  "w_sliderRange (followBoat wx js g w) = w_sliderRange w"
  "w_sliderValue (followBoat wx js g w) = w_sliderValue w"
  "w_rows (followBoat wx js g w) = w_rows w"
  "w_spinMMSI (followBoat wx js g w) = w_spinMMSI w"
  "w_shown (followBoat wx js g w) = w_shown w"
  "m_initialBoatPositionSet (followBoat wx js g w) = m_initialBoatPositionSet w"
  by (simp_all add: followBoat_def Let_def)

lemma firstFix_ok: "client_ok js g w \<Longrightarrow> client_ok js g (firstFix wx js g lat lon w)"
  by (simp add: firstFix_def updateSearchPosition_ok client_ok_stale)

lemma followBoat_ok: "client_ok js g w \<Longrightarrow> client_ok js g (followBoat wx js g w)"
  by (simp add: followBoat_def Let_def updateSearchPosition_ok client_ok_stale)

lemma boat_fix_cong:
  "client_ok js g (w\<lparr>m_boatLatitude := lat, m_boatLongitude := lon\<rparr>) = client_ok js g w"
  by (simp add: client_ok_def streamArgs_def)

lemma updateBoatPosition_ok:
  "client_ok js g w \<Longrightarrow> client_ok js g (updateBoatPosition wx js g lat lon w)"
  unfolding updateBoatPosition_def
  by (intro followBoat_ok firstFix_ok) (simp add: boat_fix_cong)

lemma updateBoatPosition_streaming:
  assumes "client_ok js g w"
  shows "m_streaming (m_aisStream (updateBoatPosition wx js g lat lon w)) = m_streaming (m_aisStream w)"
proof -
  have first: "m_streaming (m_aisStream (firstFix wx js g lat lon w)) = m_streaming (m_aisStream w)"
    if "client_ok js g w" for w
    using client_ok_stale [OF that] by (simp add: firstFix_def updateSearchPosition_streaming)
  have follow: "m_streaming (m_aisStream (followBoat wx js g w)) = m_streaming (m_aisStream w)"
    if "client_ok js g w" for w
    using client_ok_stale [OF that] by (simp add: followBoat_def Let_def updateSearchPosition_streaming)
  from assms show ?thesis
    by (simp add: updateBoatPosition_def follow first firstFix_ok boat_fix_cong)
qed

text \<open>
  After a fix in follow mode the search point is where the boat is, or nearer to it than the
  threshold.
\<close>

lemma followBoat_near:
  assumes "m_followBoatMode w" and "m_searchBoxSize w \<noteq> 0" and "w' = followBoat wx js g w"
  shows "(m_searchLatitude w' = m_boatLatitude w \<and> m_searchLongitude w' = m_boatLongitude w) \<or>
         (w' = w \<and> GreatCircleDistanceNm (m_searchLatitude w) (m_searchLongitude w)
            (m_boatLatitude w) (m_boatLongitude w)
            < ComputeFollowThresholdNm (m_searchBoxSize w) (m_boatLatitude w))"
  using assms by (simp add: followBoat_def Let_def)

lemma near_in_latitude_band:
  assumes "validLatitude a" and "validLatitude b" and "0 \<le> sz"
    and "GreatCircleDistanceNm a lon1 b lon2 < ComputeFollowThresholdNm sz b"
  shows "\<bar>b - a\<bar> \<le> sz / 2"
proof -
  have "kEarthRadiusNm * DegToRad \<bar>b - a\<bar> < 9 * sz * cos (DegToRad b)"
    using distance_ge_latitude [OF assms(1,2), of lon1 lon2] assms(4)
    by (simp add: ComputeFollowThresholdNm_eq assms)
  also have "\<dots> \<le> 9 * sz * 1"
    using assms(3) by (intro mult_left_mono) simp_all
  finally have "kEarthRadiusNm * (\<bar>b - a\<bar> * pi) < 9 * 180 * sz"
    by (simp add: DegToRad_def field_simps)
  moreover have "3440 * (\<bar>b - a\<bar> * 2) \<le> kEarthRadiusNm * (\<bar>b - a\<bar> * pi)"
    using pi_ge_two by (intro mult_mono) (simp_all add: kEarthRadiusNm_def)
  ultimately have "3440 * (\<bar>b - a\<bar> * 2) < 9 * 180 * sz" by (rule order.strict_trans1 [rotated])
  then have "6880 * \<bar>b - a\<bar> \<le> 1620 * sz" by simp
  moreover have "1620 * sz \<le> 3440 * sz" using assms(3) by (intro mult_right_mono) simp_all
  ultimately have "6880 * \<bar>b - a\<bar> \<le> 3440 * sz" by (rule order_trans)
  then show ?thesis by simp
qed

section \<open>The vessel list\<close>

text \<open>
  The two vectors and the table have the same length, each row shows its vessel, and every MMSI
  has nine digits.
\<close>

definition lists_ok :: "wx_api \<Rightarrow> settings \<Rightarrow> main_gui \<Rightarrow> bool" where
  "lists_ok wx g w \<longleftrightarrow>
     length (g_mmsiListNames g) = length (g_mmsiList g) \<and>
     length (w_rows w) = length (g_mmsiList g) \<and>
     (\<forall>i < length (g_mmsiList g).
        wx_ToULong wx (fst (w_rows w ! i)) = Some (unat (g_mmsiList g ! i)) \<and>
        snd (w_rows w ! i) = g_mmsiListNames g ! i) \<and>
     (\<forall>m \<in> set (g_mmsiList g). validMmsi (unat m))"

definition mmsi_text_law :: "wx_api \<Rightarrow> bool" where
  "mmsi_text_law wx \<longleftrightarrow>
     (\<forall>m. validMmsi (unat m) \<longrightarrow> wx_ToULong wx (wx_fmt09u wx m) = Some (unat m))"

lemma mmsi_text: "mmsi_text_law wx \<Longrightarrow> validMmsi (unat m) \<Longrightarrow> wx_ToULong wx (wx_fmt09u wx m) = Some (unat m)"
  by (simp add: mmsi_text_law_def)

lemma spin_mmsi_valid:
  assumes "100000000 \<le> v" and "v \<le> 999999999"
  shows "validMmsi (unat (of_int v :: uint32))"
proof -
  from assms obtain n where v: "v = int n" by (metis nonneg_int_cases order_trans zero_le_numeral)
  with assms have "validMmsi n" by (simp add: validMmsi_def)
  then show ?thesis by (simp add: v unat_of_nat_mmsi)
qed

lemma lists_ok_cong:
  "w_rows w' = w_rows w \<Longrightarrow> g_mmsiList g' = g_mmsiList g \<Longrightarrow> g_mmsiListNames g' = g_mmsiListNames g \<Longrightarrow>
     lists_ok wx g' w' = lists_ok wx g w"
  by (simp add: lists_ok_def)

lemma AddMmsi_lists:
  assumes "mmsi_text_law wx" and "lists_ok wx g w" and "100000000 \<le> w_spinMMSI w" and "w_spinMMSI w \<le> 999999999"
    and "AddMmsiToList wx js g w = (g', w')"
  shows "lists_ok wx g' w'" and "distinct (g_mmsiList g) \<longrightarrow> distinct (g_mmsiList g')"
  using assms spin_mmsi_valid [OF assms(3,4)]
  by (auto simp: AddMmsiToList_def Let_def lists_ok_def nth_append mmsi_text split: if_splits)

lemma Delete_lists:
  assumes "lists_ok wx g w" and "DeleteMmsiFromList js (Some i) g w = Inr (g', w')"
  shows "lists_ok wx g' w'" and "distinct (g_mmsiList g) \<longrightarrow> distinct (g_mmsiList g')"
proof -
  have i: "i < length (g_mmsiList g)" and
    g': "g_mmsiList g' = erase_at i (g_mmsiList g)" "g_mmsiListNames g' = erase_at i (g_mmsiListNames g)"
    "w_rows w' = erase_at i (w_rows w)"
    using assms(2) by (auto simp: DeleteMmsiFromList_def Let_def split: if_splits)
  from i assms(1) show "lists_ok wx g' w'"
    using set_erase_at [of i "g_mmsiList g"]
    by (auto simp: lists_ok_def g' nth_erase_at)
  show "distinct (g_mmsiList g) \<longrightarrow> distinct (g_mmsiList g')"
    by (simp add: g' distinct_erase_at)
qed

lemma Delete_defined:
  "lists_ok wx g w \<Longrightarrow> i < length (w_rows w) \<Longrightarrow> \<exists>r. DeleteMmsiFromList js (Some i) g w = Inr r"
  by (simp add: DeleteMmsiFromList_def Let_def lists_ok_def)

lemma Clear_lists: "ClearMmsiList js g w = (g', w') \<Longrightarrow> lists_ok wx g' w' \<and> distinct (g_mmsiList g')"
  by (auto simp: ClearMmsiList_def Let_def lists_ok_def)

lemma distinct_update_new:
  "distinct xs \<Longrightarrow> \<forall>j < length xs. j \<noteq> i \<longrightarrow> xs ! j \<noteq> x \<Longrightarrow> distinct (xs[i := x])"
  by (cases "i < length xs") (auto simp: distinct_conv_nth nth_list_update)

lemma editName_cell:
  assumes "lists_ok wx g w" and "row < length (w_rows w)"
    and "editName row g (storeCell row 1 text w) = r"
  shows "\<exists>g'. r = Inr (g', storeCell row 1 text w) \<and> lists_ok wx g' (storeCell row 1 text w) \<and>
           g_mmsiList g' = g_mmsiList g"
  using assms
  by (auto simp: editName_def Let_def storeCell_def lists_ok_def nth_list_update)

text \<open>
  The text of a cell that is restored over and over: it does not give a number that the handler
  takes.
\<close>

definition editStuck :: "wx_api \<Rightarrow> nat \<Rightarrow> settings \<Rightarrow> main_gui \<Rightarrow> bool" where
  "editStuck wx row g w \<longleftrightarrow>
     row < length (g_mmsiList g) \<and> fst (w_rows w ! row) = wx_fmt09u wx (g_mmsiList g ! row) \<and>
     parseEditedMmsi wx row g (fst (w_rows w ! row)) = None"

lemma storeCell_same: "fst (w_rows w ! row) = t \<Longrightarrow> storeCell row 0 t w = w"
  by (cases "row < length (w_rows w)") (auto simp: storeCell_def list_update_beyond)

lemma storeCell_twice: "storeCell row 0 t (storeCell row 0 u w) = storeCell row 0 t w"
  by (cases "row < length (w_rows w)") (simp_all add: storeCell_def list_update_beyond)

lemma storeCell_cell: "row < length (w_rows w) \<Longrightarrow> fst (w_rows (storeCell row 0 t w) ! row) = t"
  by (simp add: storeCell_def)

lemma editMmsi_returns_free:
  assumes "editMmsi wx js row g w = Some r"
  shows "\<not> editStuck wx row g w"
proof (rule editMmsi.raw_induct [where P = "\<lambda>wx js row g w r. \<not> editStuck wx row g w", OF _ assms])
  fix f wx js row g w r
  assume IH: "\<And>wx js row g w r. f wx js row g w = Some r \<Longrightarrow> \<not> editStuck wx row g w"
    and eq: "(case parseEditedMmsi wx row g (fst (w_rows w ! row)) of
        None \<Rightarrow>
          if row < length (g_mmsiList g)
          then f wx js row g (storeCell row 0 (wx_fmt09u wx (g_mmsiList g ! row)) w)
          else Some (Inl OutOfVector)
      | Some parsedMmsi \<Rightarrow>
          if row < length (g_mmsiList g) then
            (let g' = g\<lparr>g_mmsiList := (g_mmsiList g)[row := of_nat parsedMmsi]\<rparr>
             in Some (Inr (g', RestartAisStream js g' w)))
          else Some (Inl OutOfVector)) = Some r"
  show "\<not> editStuck wx row g w"
  proof
    assume stuck: "editStuck wx row g w"
    then have row: "row < length (g_mmsiList g)"
      and none: "parseEditedMmsi wx row g (fst (w_rows w ! row)) = None"
      unfolding editStuck_def by blast+
    from eq have "f wx js row g (storeCell row 0 (wx_fmt09u wx (g_mmsiList g ! row)) w) = Some r"
      unfolding none using row by simp
    moreover have "storeCell row 0 (wx_fmt09u wx (g_mmsiList g ! row)) w = w"
      using stuck by (intro storeCell_same) (simp add: editStuck_def)
    ultimately have "f wx js row g w = Some r" by simp
    with IH stuck show False by blast
  qed
qed

text \<open>What comes of an edited MMSI.\<close>

definition alone :: "nat \<Rightarrow> settings \<Rightarrow> bool" where
  "alone row g \<longleftrightarrow> list_all (\<lambda>i. i = row \<or> g_mmsiList g ! i \<noteq> g_mmsiList g ! row) [0..<length (g_mmsiList g)]"

lemma alone_distinct: "distinct (g_mmsiList g) \<Longrightarrow> row < length (g_mmsiList g) \<Longrightarrow> alone row g"
  by (auto simp: alone_def list_all_iff nth_eq_iff_index_eq)

lemma editMmsi_cell:
  assumes "mmsi_text_law wx" and "lists_ok wx g w" and "row < length (w_rows w)"
  shows "editMmsi wx js row g (storeCell row 0 text w) =
           (case parseEditedMmsi wx row g text of
              Some v \<Rightarrow> let g' = g\<lparr>g_mmsiList := (g_mmsiList g)[row := of_nat v]\<rparr> in
                 Some (Inr (g', RestartAisStream js g' (storeCell row 0 text w)))
            | None \<Rightarrow>
                if alone row g
                then Some (Inr (g, RestartAisStream js g (storeCell row 0 (wx_fmt09u wx (g_mmsiList g ! row)) w)))
                else None)"
proof (cases "parseEditedMmsi wx row g text")
  case (Some v)
  with assms(2,3) show ?thesis
    by (subst editMmsi.simps) (simp add: storeCell_cell lists_ok_def Let_def)
next
  case None
  define m where "m = g_mmsiList g ! row"
  define w1 where "w1 = storeCell row 0 (wx_fmt09u wx m) w"
  have row: "row < length (g_mmsiList g)" using assms(2,3) by (simp add: lists_ok_def)
  then have valid: "validMmsi (unat m)" using assms(2) by (simp add: lists_ok_def m_def)
  have cell: "fst (w_rows w1 ! row) = wx_fmt09u wx m" unfolding w1_def by (rule storeCell_cell [OF assms(3)])
  have again: "parseEditedMmsi wx row g (wx_fmt09u wx m) = (if alone row g then Some (unat m) else None)"
    using mmsi_text [OF assms(1) valid] valid
    by (auto simp: parseEditedMmsi_def alone_def list_ex_iff list_all_iff m_def word_unat_eq_iff)
  have first: "editMmsi wx js row g (storeCell row 0 text w) = editMmsi wx js row g w1"
    using row None by (subst editMmsi.simps) (simp add: storeCell_cell [OF assms(3)] storeCell_twice w1_def m_def)
  show ?thesis
  proof (cases "alone row g")
    case True
    have "g\<lparr>g_mmsiList := (g_mmsiList g)[row := of_nat (unat m)]\<rparr> = g" by (simp add: m_def)
    then have "editMmsi wx js row g w1 = Some (Inr (g, RestartAisStream js g w1))"
      using True row by (subst editMmsi.simps) (simp add: cell again Let_def)
    with first None True show ?thesis by (simp add: w1_def m_def)
  next
    case False
    then have "editStuck wx row g w1" using row cell again by (simp add: editStuck_def m_def)
    with editMmsi_returns_free [of wx js row g w1] have "editMmsi wx js row g w1 = None"
      by (cases "editMmsi wx js row g w1") auto
    with first None False show ?thesis by simp
  qed
qed

lemma parseEditedMmsi_Some:
  "parseEditedMmsi wx row g text = Some v \<longleftrightarrow>
     wx_ToULong wx text = Some v \<and> validMmsi v \<and>
     (\<forall>j < length (g_mmsiList g). j \<noteq> row \<longrightarrow> unat (g_mmsiList g ! j) \<noteq> v)"
  by (auto simp: parseEditedMmsi_def list_ex_iff split: option.splits)

lemma editMmsi_lists:
  assumes "mmsi_text_law wx" and "lists_ok wx g w" and "row < length (w_rows w)"
    and "editMmsi wx js row g (storeCell row 0 text w) = Some r"
  shows "\<exists>g' w1. r = Inr (g', RestartAisStream js g' w1) \<and> (\<exists>t. w1 = storeCell row 0 t w) \<and>
           (\<exists>ms. g' = g\<lparr>g_mmsiList := ms\<rparr>) \<and> lists_ok wx g' (RestartAisStream js g' w1) \<and>
           (distinct (g_mmsiList g) \<longrightarrow> distinct (g_mmsiList g'))"
proof -
  have row: "row < length (g_mmsiList g)" using assms(2,3) by (simp add: lists_ok_def)
  show ?thesis
  proof (cases "parseEditedMmsi wx row g text")
    case None
    define w1 where "w1 = storeCell row 0 (wx_fmt09u wx (g_mmsiList g ! row)) w"
    have "validMmsi (unat (g_mmsiList g ! row))" using assms(2) row by (simp add: lists_ok_def)
    then have "lists_ok wx g (RestartAisStream js g w1)"
      using assms(2,3) row mmsi_text [OF assms(1)]
      by (simp add: w1_def storeCell_def lists_ok_def nth_list_update)
    moreover have "g = g\<lparr>g_mmsiList := g_mmsiList g\<rparr>" by simp
    moreover have "r = Inr (g, RestartAisStream js g w1)"
      using editMmsi_cell [OF assms(1-3), of js "text"] assms(4) None by (simp add: w1_def split: if_splits)
    ultimately show ?thesis unfolding w1_def by blast
  next
    case (Some v)
    then have v: "wx_ToULong wx text = Some v" "validMmsi v"
      "\<forall>j < length (g_mmsiList g). j \<noteq> row \<longrightarrow> unat (g_mmsiList g ! j) \<noteq> v"
      by (simp_all add: parseEditedMmsi_Some)
    define w1 where "w1 = storeCell row 0 text w"
    define g' where "g' = g\<lparr>g_mmsiList := (g_mmsiList g)[row := of_nat v]\<rparr>"
    have "r = Inr (g', RestartAisStream js g' w1)"
      using editMmsi_cell [OF assms(1-3), of js "text"] assms(4) Some by (simp add: w1_def g'_def Let_def)
    moreover have "lists_ok wx g' (RestartAisStream js g' w1)"
      using assms(2,3) row v
      by (auto simp: lists_ok_def g'_def w1_def storeCell_def nth_list_update unat_of_nat_mmsi
          dest!: set_update_subset_insert [THEN subsetD])
    moreover have "distinct (g_mmsiList g) \<longrightarrow> distinct (g_mmsiList g')"
      using v unat_of_nat_mmsi [OF v(2)] by (auto simp: g'_def intro!: distinct_update_new)
    ultimately show ?thesis unfolding w1_def g'_def by blast
  qed
qed

section \<open>Every event\<close>

definition widgets_ok :: "settings \<Rightarrow> main_gui \<Rightarrow> bool" where
  "widgets_ok g w \<longleftrightarrow>
     w_followBoatMode w = m_followBoatMode w \<and>
     w_activateVesselFollowing w = g_activateVesselsFollowing g \<and>
     100000000 \<le> w_spinMMSI w \<and> w_spinMMSI w \<le> 999999999"

definition gui_ok :: "wx_api \<Rightarrow> 'j json_api \<Rightarrow> settings \<Rightarrow> main_gui \<Rightarrow> bool" where
  "gui_ok wx js g w \<longleftrightarrow> lists_ok wx g w \<and> box_ok w \<and> client_ok js g w \<and> widgets_ok g w"

lemma gui_okD:
  assumes "gui_ok wx js g w"
  shows "lists_ok wx g w" and "box_ok w" and "client_ok js g w" and "widgets_ok g w"
    and "client_stale w"
  using assms client_ok_stale by (auto simp: gui_ok_def)

text \<open>What an operation guarantees when it starts from a sound state.\<close>

definition gui_kept ::
  "wx_api \<Rightarrow> 'j json_api \<Rightarrow> settings \<Rightarrow> main_gui \<Rightarrow> settings \<Rightarrow> main_gui \<Rightarrow> bool" where
  "gui_kept wx js g w g' w' \<longleftrightarrow>
     gui_ok wx js g' w' \<and> w_shown w' = w_shown w \<and>
     (distinct (g_mmsiList g) \<longrightarrow> distinct (g_mmsiList g'))"

lemma box_ok_cong:
  "w_sliderRange w' = w_sliderRange w \<Longrightarrow> w_sliderValue w' = w_sliderValue w \<Longrightarrow>
     m_searchBoxSize w' = m_searchBoxSize w \<Longrightarrow> box_ok w' = box_ok w"
  by (simp add: box_ok_def)

text \<open>An operation that leaves the lists and the box alone and is sound for the client.\<close>

lemma gui_kept_plain:
  assumes "gui_ok wx js g w" and "client_ok js g w'" and "w_rows w' = w_rows w"
    and "w_sliderRange w' = w_sliderRange w" and "w_sliderValue w' = w_sliderValue w"
    and "m_searchBoxSize w' = m_searchBoxSize w" and "widgets_ok g w'" and "w_shown w' = w_shown w"
  shows "gui_kept wx js g w g w'"
  using assms lists_ok_cong [of w' w g g wx] box_ok_cong [of w' w]
  by (simp add: gui_kept_def gui_ok_def)

lemma StartAisStream_fields [simp]:
  "w_rows (StartAisStream wx js g w) = w_rows w"
  "w_sliderRange (StartAisStream wx js g w) = w_sliderRange w"
  "w_sliderValue (StartAisStream wx js g w) = w_sliderValue w"
  "m_searchBoxSize (StartAisStream wx js g w) = m_searchBoxSize w"
  "w_followBoatMode (StartAisStream wx js g w) = w_followBoatMode w"
  "m_followBoatMode (StartAisStream wx js g w) = m_followBoatMode w"
  "w_activateVesselFollowing (StartAisStream wx js g w) = w_activateVesselFollowing w"
  "w_spinMMSI (StartAisStream wx js g w) = w_spinMMSI w"
  "w_shown (StartAisStream wx js g w) = w_shown w"
  by (simp_all add: StartAisStream_def pushToken_def Let_def)

lemma StopAisStream_fields [simp]:
  "w_rows (StopAisStream w) = w_rows w"
  "w_sliderRange (StopAisStream w) = w_sliderRange w"
  "w_sliderValue (StopAisStream w) = w_sliderValue w"
  "m_searchBoxSize (StopAisStream w) = m_searchBoxSize w"
  "w_followBoatMode (StopAisStream w) = w_followBoatMode w"
  "m_followBoatMode (StopAisStream w) = m_followBoatMode w"
  "w_activateVesselFollowing (StopAisStream w) = w_activateVesselFollowing w"
  "w_spinMMSI (StopAisStream w) = w_spinMMSI w"
  "w_shown (StopAisStream w) = w_shown w"
  by (simp_all add: StopAisStream_def)

lemma Start_kept: "trim_law wx \<Longrightarrow> gui_ok wx js g w \<Longrightarrow> gui_kept wx js g w g (StartAisStream wx js g w)"
  using StartAisStream_ok [of wx js g w] gui_okD [of wx js g w]
  by (intro gui_kept_plain) (simp_all add: widgets_ok_def)

lemma Stop_kept: "gui_ok wx js g w \<Longrightarrow> gui_kept wx js g w g (StopAisStream w)"
  using gui_okD [of wx js g w] by (intro gui_kept_plain) (simp_all add: StopAisStream_ok widgets_ok_def)

lemma updateSearchPosition_kept:
  "gui_ok wx js g w \<Longrightarrow> gui_kept wx js g w g (updateSearchPosition wx js g lat lon w)"
  using gui_okD [of wx js g w]
  by (intro gui_kept_plain) (simp_all add: updateSearchPosition_ok widgets_ok_def)

lemma CheckFollow_kept:
  assumes "gui_ok wx js g w"
  shows "gui_kept wx js g w g (OnCheckBox_FollowBoatMode wx js g b (w\<lparr>w_followBoatMode := b\<rparr>))"
proof (rule gui_kept_plain [OF assms])
  have "client_stale w" using assms by (rule gui_okD)
  moreover have "client_ok js g (w\<lparr>w_followBoatMode := b, m_followBoatMode := b\<rparr>)"
    using assms by (rule client_ok_cong [of js g w, OF gui_okD(3)]) (simp_all add: streamArgs_def)
  ultimately show "client_ok js g (OnCheckBox_FollowBoatMode wx js g b (w\<lparr>w_followBoatMode := b\<rparr>))"
    by (cases b) (simp_all add: OnCheckBox_FollowBoatMode_def updateSearchPosition_ok)
  show "widgets_ok g (OnCheckBox_FollowBoatMode wx js g b (w\<lparr>w_followBoatMode := b\<rparr>))"
    using assms by (simp add: OnCheckBox_FollowBoatMode_def gui_ok_def widgets_ok_def Let_def)
qed (simp_all add: OnCheckBox_FollowBoatMode_def Let_def)

lemma followModes_kept:
  assumes "gui_ok wx js g w"
  shows "gui_kept wx js g w g (activateFollowBoatMode wx js g w)"
    and "gui_kept wx js g w g (updateSearchZoneOnCoord wx js g lat lon w)"
proof -
  have ok: "client_ok js g (updateSearchPosition wx js g lat lon (w\<lparr>m_followBoatMode := b, w_followBoatMode := b\<rparr>))"
    for b lat lon
    using gui_okD(5) [OF assms] by (simp add: updateSearchPosition_ok)
  from gui_okD(4) [OF assms] show "gui_kept wx js g w g (activateFollowBoatMode wx js g w)"
    by (intro gui_kept_plain [OF assms]) (simp_all add: activateFollowBoatMode_def widgets_ok_def ok)
  from gui_okD(4) [OF assms] show "gui_kept wx js g w g (updateSearchZoneOnCoord wx js g lat lon w)"
    by (intro gui_kept_plain [OF assms]) (simp_all add: updateSearchZoneOnCoord_def widgets_ok_def ok)
qed

lemma updateBoatPosition_kept:
  assumes "gui_ok wx js g w"
  shows "gui_kept wx js g w g (updateBoatPosition wx js g lat lon w)"
  using gui_okD(3,4) [OF assms]
  by (intro gui_kept_plain [OF assms] updateBoatPosition_ok)
     (simp_all add: widgets_ok_def updateBoatPosition_def)

lemma updateSearchBoxSize_kept:
  "gui_ok wx js g w \<Longrightarrow> gui_kept wx js g w g (updateSearchBoxSize wx js g x w)"
  using updateSearchBoxSize_ok [where js = js and g = g and wx = wx and x = x and w = w] gui_okD [of wx js g w]
    lists_ok_cong [of "updateSearchBoxSize wx js g x w" w g g wx]
  by (simp add: gui_kept_def gui_ok_def [of wx js g "updateSearchBoxSize wx js g x w"] widgets_ok_def)

lemma slider_moved:
  assumes "gui_ok wx js g w" and "fst (w_sliderRange w) \<le> v" and "v \<le> snd (w_sliderRange w)"
  shows "gui_ok wx js g (w\<lparr>w_sliderValue := v\<rparr>)"
proof -
  have "client_ok js g (w\<lparr>w_sliderValue := v\<rparr>)"
    using assms(1) by (rule client_ok_cong [of js g w, OF gui_okD(3)]) (simp_all add: streamArgs_def)
  with assms show ?thesis
    by (simp add: gui_ok_def widgets_ok_def box_ok_def lists_ok_def)
qed

lemma Release_kept:
  assumes "gui_ok wx js g w" and "fst (w_sliderRange w) \<le> v" and "v \<le> snd (w_sliderRange w)"
  shows "gui_kept wx js g w g (OnScrollThumbRelease wx js g (w\<lparr>w_sliderValue := v\<rparr>))"
  using updateSearchBoxSize_kept [OF slider_moved [OF assms]]
  by (simp add: OnScrollThumbRelease_def gui_kept_def)

lemma Scroll_kept:
  assumes "gui_ok wx js g w" and "fst (w_sliderRange w) \<le> v" and "v \<le> snd (w_sliderRange w)"
  shows "gui_kept wx js g w g (OnScroll wx (w\<lparr>w_sliderValue := v\<rparr>))"
proof -
  have "client_ok js g (OnScroll wx (w\<lparr>w_sliderValue := v\<rparr>))"
    using assms(1) by (rule client_ok_cong [of js g w, OF gui_okD(3)]) (simp_all add: streamArgs_def OnScroll_def)
  with assms show ?thesis
    by (simp add: gui_kept_def gui_ok_def widgets_ok_def box_ok_def lists_ok_def OnScroll_def)
qed

text \<open>The operations on the list end in a restart.\<close>

lemma list_op_kept:
  assumes "gui_ok wx js g w" and "lists_ok wx g' w'" and "w' = RestartAisStream js g' w1"
    and "client_stale w1" and "box_ok w1" and "widgets_ok g' w1" and "w_shown w1 = w_shown w"
    and "distinct (g_mmsiList g) \<longrightarrow> distinct (g_mmsiList g')"
  shows "gui_kept wx js g w g' w'"
  using assms RestartAisStream_ok [OF assms(4)] box_ok_cong [of w' w1]
  by (simp add: gui_kept_def gui_ok_def widgets_ok_def)

lemma Add_kept:
  assumes "mmsi_text_law wx" and "gui_ok wx js g w"
  shows "\<exists>g' w'. AddMmsiToList wx js g w = (g', w') \<and> gui_kept wx js g w g' w'"
proof -
  obtain g' w' where r: "AddMmsiToList wx js g w = (g', w')" by (cases "AddMmsiToList wx js g w")
  note lists = AddMmsi_lists [OF assms(1) gui_okD(1) [OF assms(2)] _ _ r]
  have spin: "100000000 \<le> w_spinMMSI w" "w_spinMMSI w \<le> 999999999"
    using gui_okD(4) [OF assms(2)] by (simp_all add: widgets_ok_def)
  have "gui_kept wx js g w g' w'"
  proof (cases "of_int (w_spinMMSI w) \<in> set (g_mmsiList g)")
    case True
    with r assms(2) show ?thesis by (auto simp: AddMmsiToList_def gui_kept_def)
  next
    case False
    with r lists [OF spin] gui_okD [OF assms(2)] show ?thesis
      by (intro list_op_kept [OF assms(2), of g' w'
            "w\<lparr>w_rows := w_rows w @ [(wx_fmt09u wx (of_int (w_spinMMSI w)), w_mmsiComment w)], w_mmsiComment := []\<rparr>"])
         (auto simp: AddMmsiToList_def Let_def widgets_ok_def box_ok_def)
  qed
  with r show ?thesis by blast
qed

lemma Delete_kept:
  assumes "gui_ok wx js g w" and "eventAllowed (ClickDelete sel) w"
  shows "\<exists>g' w'. DeleteMmsiFromList js sel g w = Inr (g', w') \<and> gui_kept wx js g w g' w'"
proof (cases sel)
  case None
  with assms(1) show ?thesis by (auto simp: DeleteMmsiFromList_def gui_kept_def)
next
  case (Some i)
  with assms Delete_defined [OF gui_okD(1) [OF assms(1)], of i js]
  obtain g' w' where r: "DeleteMmsiFromList js (Some i) g w = Inr (g', w')" by auto
  have "gui_kept wx js g w g' w'"
    using r Delete_lists [OF gui_okD(1) [OF assms(1)] r] gui_okD [OF assms(1)]
    by (intro list_op_kept [OF assms(1), of g' w' "w\<lparr>w_rows := erase_at i (w_rows w)\<rparr>"])
       (auto simp: DeleteMmsiFromList_def Let_def widgets_ok_def box_ok_def split: if_splits)
  with r Some show ?thesis by blast
qed

lemma Clear_kept:
  assumes "gui_ok wx js g w"
  shows "\<exists>g' w'. ClearMmsiList js g w = (g', w') \<and> gui_kept wx js g w g' w'"
proof -
  obtain g' w' where r: "ClearMmsiList js g w = (g', w')" by (cases "ClearMmsiList js g w")
  from r Clear_lists [OF r] gui_okD [OF assms] have "gui_kept wx js g w g' w'"
    by (intro list_op_kept [OF assms, of g' w' "w\<lparr>w_rows := []\<rparr>"])
       (auto simp: ClearMmsiList_def Let_def widgets_ok_def box_ok_def)
  with r show ?thesis by blast
qed

lemma Activate_kept:
  assumes "gui_ok wx js g w"
  shows "\<exists>g' w'. OnCheckBox_Activate js g (w\<lparr>w_activateVesselFollowing := b\<rparr>) = (g', w') \<and>
           gui_kept wx js g w g' w'"
proof -
  define w1 where "w1 = w\<lparr>w_activateVesselFollowing := b\<rparr>"
  define g' where "g' = g\<lparr>g_activateVesselsFollowing := b\<rparr>"
  have "gui_kept wx js g w g' (RestartAisStream js g' w1)"
    using gui_okD [OF assms] lists_ok_cong [of "RestartAisStream js g' w1" w g' g wx]
    by (intro list_op_kept [OF assms, of g' _ w1]) (simp_all add: w1_def g'_def widgets_ok_def box_ok_def)
  then show ?thesis by (simp add: OnCheckBox_Activate_def w1_def g'_def Let_def)
qed

text \<open>A handler that did not return is one of an edited MMSI, in a list that has some MMSI twice.\<close>

definition handled_ok ::
  "wx_api \<Rightarrow> 'j json_api \<Rightarrow> gui_event \<Rightarrow> settings \<Rightarrow> main_gui \<Rightarrow> handled option \<Rightarrow> bool" where
  "handled_ok wx js e g w h =
     (case h of
        None \<Rightarrow> \<not> distinct (g_mmsiList g) \<and> (\<exists>row text. e = EditCell row 0 text)
      | Some r \<Rightarrow> \<exists>g' w'. r = Inr (g', w') \<and> gui_kept wx js g w g' w')"

lemma handled_okI: "gui_kept wx js g w g' w' \<Longrightarrow> handled_ok wx js e g w (Some (Inr (g', w')))"
  by (simp add: handled_ok_def)

lemma editMmsi_kept:
  assumes "mmsi_text_law wx" and "gui_ok wx js g w" and "row < length (w_rows w)"
  shows "handled_ok wx js (EditCell row 0 text) g w (editMmsi wx js row g (storeCell row 0 text w))"
proof (cases "editMmsi wx js row g (storeCell row 0 text w)")
  case None
  have lists: "lists_ok wx g w" using assms(2) by (rule gui_okD)
  with assms(3) have "row < length (g_mmsiList g)" by (simp add: lists_ok_def)
  with None editMmsi_cell [OF assms(1) lists assms(3), of js "text"] alone_distinct [of g row]
  show ?thesis by (auto simp: handled_ok_def Let_def split: option.splits if_splits)
next
  case (Some r)
  from editMmsi_lists [OF assms(1) gui_okD(1) [OF assms(2)] assms(3) Some] obtain g' w1 t ms where
    r: "r = Inr (g', RestartAisStream js g' w1)" "w1 = storeCell row 0 t w" "g' = g\<lparr>g_mmsiList := ms\<rparr>"
      "lists_ok wx g' (RestartAisStream js g' w1)" "distinct (g_mmsiList g) \<longrightarrow> distinct (g_mmsiList g')"
    by blast
  have "client_stale w1" "box_ok w1" "widgets_ok g' w1" "w_shown w1 = w_shown w"
    using gui_okD [OF assms(2)] by (simp_all add: r(2,3) storeCell_def box_ok_def widgets_ok_def)
  with list_op_kept [OF assms(2) r(4) refl] r(5) have "gui_kept wx js g w g' (RestartAisStream js g' w1)" by blast
  with Some r(1) show ?thesis by (simp add: handled_okI)
qed

lemma editName_kept:
  assumes "gui_ok wx js g w" and row: "row < length (w_rows w)"
  shows "\<exists>g' w'. editName row g (storeCell row 1 text w) = Inr (g', w') \<and> gui_kept wx js g w g' w'"
proof -
  define w1 where "w1 = storeCell row 1 text w"
  from editName_cell [OF gui_okD(1) [OF assms(1)] row, of "text"] obtain g'
    where r: "editName row g w1 = Inr (g', w1)" "lists_ok wx g' w1" "g_mmsiList g' = g_mmsiList g"
    by (auto simp: w1_def)
  then have "g_activateVesselsFollowing g' = g_activateVesselsFollowing g"
    by (auto simp: editName_def Let_def split: if_splits)
  moreover have "client_ok js g' w1"
    by (rule client_ok_cong [OF gui_okD(3) [OF assms(1)]])
       (simp_all add: w1_def storeCell_def streamArgs_def r(3) calculation)
  ultimately have "gui_kept wx js g w g' w1"
    using r gui_okD [OF assms(1)]
    by (simp add: gui_kept_def gui_ok_def) (simp add: box_ok_def widgets_ok_def w1_def storeCell_def)
  with r(1) show ?thesis by (auto simp: w1_def)
qed

lemma Edit_kept:
  assumes "mmsi_text_law wx" and "gui_ok wx js g w" and "eventAllowed (EditCell row column text) w"
  shows "handled_ok wx js (EditCell row column text) g w (guiEvent wx js (EditCell row column text) g w)"
proof -
  from assms(3) have row: "row < length (w_rows w)" and "column = 0 \<or> column = 1" by auto
  from this(2) show ?thesis
  proof
    assume "column = 0"
    with editMmsi_kept [OF assms(1,2) row] show ?thesis by (simp add: updateMmsiList_def)
  next
    assume "column = 1"
    with editName_kept [OF assms(2) row, of "text"] show ?thesis by (auto simp: updateMmsiList_def handled_ok_def)
  qed
qed

lemma Type_kept:
  assumes "gui_ok wx js g w"
  shows "100000000 \<le> v \<Longrightarrow> v \<le> 999999999 \<Longrightarrow> gui_kept wx js g w g (w\<lparr>w_spinMMSI := v\<rparr>)"
    and "gui_kept wx js g w g (w\<lparr>w_mmsiComment := t\<rparr>)"
  using gui_okD [OF assms]
  by (auto simp: client_ok_def streamArgs_def widgets_ok_def intro!: gui_kept_plain [OF assms])

theorem guiEvent_kept:
  assumes "trim_law wx" and "mmsi_text_law wx" and "gui_ok wx js g w" and "eventAllowed e w"
  shows "handled_ok wx js e g w (guiEvent wx js e g w)"
proof (cases e)
  case ClickStart
  with Start_kept [OF assms(1,3)] show ?thesis by (auto simp: handled_ok_def)
next
  case ClickStop
  with Stop_kept [OF assms(3)] show ?thesis by (auto simp: handled_ok_def)
next
  case (CheckFollowBoat b)
  with CheckFollow_kept [OF assms(3)] show ?thesis by (auto simp: handled_ok_def)
next
  case (ScrollSlider v)
  with Scroll_kept [OF assms(3)] assms(4) show ?thesis by (auto simp: handled_ok_def)
next
  case (ReleaseSlider v)
  with Release_kept [OF assms(3)] assms(4) show ?thesis by (auto simp: handled_ok_def)
next
  case (TypeMmsi v)
  with Type_kept(1) [OF assms(3)] assms(4) show ?thesis by (auto simp: handled_ok_def)
next
  case (TypeComment t)
  with Type_kept(2) [OF assms(3)] show ?thesis by (auto simp: handled_ok_def)
next
  case ClickAdd
  with Add_kept [OF assms(2,3)] show ?thesis by (auto simp: handled_ok_def)
next
  case (CheckActivate b)
  with Activate_kept [OF assms(3)] show ?thesis by (auto simp: handled_ok_def)
next
  case (EditCell r c t)
  with Edit_kept [OF assms(2,3)] assms(4) show ?thesis by simp
next
  case (ClickDelete sel)
  with Delete_kept [OF assms(3)] assms(4) show ?thesis by (auto simp: handled_ok_def)
next
  case ClickClear
  with Clear_kept [OF assms(3)] show ?thesis by (auto simp: handled_ok_def)
qed

end
