(* ===== verification/AisPluginProofs.thy ===== *)
theory AisPluginProofs
  imports AisPlugin AisMainGuiProofs
begin

text \<open>
  The invariant of the whole plugin, kept by every event: the window is sound in the sense of
  \<open>AisMainGuiProofs\<close>, the toolbar button is highlighted exactly while the window is shown or a
  stream runs, and the menu item is offered as long as either holds.
\<close>

section \<open>The invariant\<close>

definition settings_ok :: "settings \<Rightarrow> bool" where
  "settings_ok g \<longleftrightarrow>
     length (g_mmsiListNames g) = length (g_mmsiList g) \<and> (\<forall>m \<in> set (g_mmsiList g). validMmsi (unat m))"

definition window_ok :: "wx_api \<Rightarrow> 'j json_api \<Rightarrow> 'c plugin \<Rightarrow> main_gui \<Rightarrow> bool" where
  "window_ok wx js p w \<longleftrightarrow>
     gui_ok wx js (settings_of p) w \<and> w_shown w = isToolbarActive p \<and>
     toolbarItemState p = (isToolbarActive p \<or> m_streaming (m_aisStream w)) \<and>
     (isToolbarActive p \<or> m_streaming (m_aisStream w) \<longrightarrow> contextMenuViz p)"

definition app_inv :: "wx_api \<Rightarrow> 'j json_api \<Rightarrow> 'c plugin \<Rightarrow> bool" where
  "app_inv wx js p \<longleftrightarrow>
     settings_ok (settings_of p) \<and>
     (case myGUI p of
        None \<Rightarrow> \<not> isToolbarActive p \<and> \<not> toolbarItemState p \<and> \<not> contextMenuViz p
      | Some w \<Rightarrow> window_ok wx js p w)"

lemma app_inv_Some: "app_inv wx js p \<Longrightarrow> myGUI p = Some w \<Longrightarrow> window_ok wx js p w"
  by (simp add: app_inv_def)

lemma lists_settings_ok: "lists_ok wx g w \<Longrightarrow> settings_ok g"
  by (simp add: lists_ok_def settings_ok_def)

text \<open>An event that keeps the window sound and changes nothing OpenCPN is told.\<close>

lemma app_inv_window:
  assumes "window_ok wx js p w" and "gui_ok wx js (settings_of p') w'"
    and "m_streaming (m_aisStream w') = m_streaming (m_aisStream w) \<or> isToolbarActive p"
    and "myGUI p' = Some w'" and "w_shown w' = w_shown w" and "isToolbarActive p' = isToolbarActive p"
    and "toolbarItemState p' = toolbarItemState p" and "contextMenuViz p' = contextMenuViz p"
  shows "app_inv wx js p'"
  using assms lists_settings_ok [OF gui_okD(1) [OF assms(2)]]
  by (auto simp: app_inv_def window_ok_def)

lemma window_moved:
  assumes "window_ok wx js p w" and "gui_ok wx js (settings_of p) w'"
    and "m_streaming (m_aisStream w') = m_streaming (m_aisStream w)" and "w_shown w' = w_shown w"
  shows "app_inv wx js (p\<lparr>myGUI := Some w'\<rparr>)"
  by (rule app_inv_window [OF assms(1), of _ w']) (simp_all add: assms)

section \<open>Settings\<close>

lemma gui_ok_settings:
  assumes "gui_ok wx js g w" and "g_mmsiList g' = g_mmsiList g" and "g_mmsiListNames g' = g_mmsiListNames g"
    and "g_activateVesselsFollowing g' = g_activateVesselsFollowing g"
  shows "gui_ok wx js g' w"
proof -
  have "client_ok js g' w"
    by (rule client_ok_cong [OF gui_okD(3) [OF assms(1)]]) (simp_all add: streamArgs_def assms)
  with assms show ?thesis by (simp add: gui_ok_def lists_ok_def widgets_ok_def)
qed

lemma settings_ok_cong:
  "g_mmsiList g' = g_mmsiList g \<Longrightarrow> g_mmsiListNames g' = g_mmsiListNames g \<Longrightarrow> settings_ok g' = settings_ok g"
  by (simp add: settings_ok_def)

lemma pluginSave_fields [simp]:
  "myGUI (pluginSave wx api p) = myGUI p"
  "isToolbarActive (pluginSave wx api p) = isToolbarActive p"
  "toolbarItemState (pluginSave wx api p) = toolbarItemState p"
  "contextMenuViz (pluginSave wx api p) = contextMenuViz p"
  "g_mmsiList (settings_of (pluginSave wx api p)) = g_mmsiList (settings_of p)"
  "g_mmsiListNames (settings_of (pluginSave wx api p)) = g_mmsiListNames (settings_of p)"
  "g_activateVesselsFollowing (settings_of (pluginSave wx api p)) = g_activateVesselsFollowing (settings_of p)"
  "g_openWatersToken (settings_of (pluginSave wx api p)) = g_openWatersToken (settings_of p)"
  "g_keepWindowActive (settings_of (pluginSave wx api p)) = g_keepWindowActive (settings_of p)"
  by (simp_all add: pluginSave_def SaveSettings_def captureWindow_def Let_def split: option.split)

lemma readAll_ok: "settings_ok (readAll wx api c)"
proof -
  obtain ms ns where e: "loadEntries wx (wx_Tokenize wx (readString api c ''MMSI_List'' []))
      (wx_Tokenize wx (readString api c ''MMSI_ListNames'' [])) = (ms, ns)" by fastforce
  with loadEntries_valid [OF e] show ?thesis by (simp add: readAll_def settings_ok_def)
qed

lemma pluginLoad_ok: "settings_ok (settings_of p) \<Longrightarrow> settings_ok (settings_of (pluginLoad wx api p))"
  by (simp add: pluginLoad_def LoadSettings_def readAll_ok Let_def split: option.split)

section \<open>The window\<close>

lemma newMainGui_ok:
  assumes "mmsi_text_law wx" and "settings_ok g"
  shows "gui_ok wx js g (newMainGui wx js g)" and "\<not> m_streaming (m_aisStream (newMainGui wx js g))"
    and "w_shown (newMainGui wx js g) = False"
proof -
  define w where "w = updateSearchBoxSize wx js g (g_lastSearchBoxSize g) (main_gui_base wx)"
  have stale: "client_stale (main_gui_base wx)"
    by (simp add: client_stale_def main_gui_base_def tokenReady_def ais_client_init_def)
  have "box_ok w" unfolding w_def by (rule updateSearchBoxSize_ok [OF stale])
  have "m_streaming (m_aisStream w) = False" and client: "client_ok js g w"
    using updateSearchBoxSize_streaming [OF stale] updateSearchBoxSize_ok(1) [OF stale]
    by (simp_all add: w_def) (simp add: main_gui_base_def ais_client_init_def)
  then show "\<not> m_streaming (m_aisStream (newMainGui wx js g))"
    by (simp add: newMainGui_def Let_def SetStateCallback_def w_def)
  from assms have "lists_ok wx g (newMainGui wx js g)"
    by (auto simp: newMainGui_def Let_def lists_ok_def vesselRow_def settings_ok_def intro!: mmsi_text)
  moreover have "client_ok js g (newMainGui wx js g)"
    using client \<open>m_streaming (m_aisStream w) = False\<close>
    by (simp add: newMainGui_def Let_def client_ok_def SetStateCallback_def w_def [symmetric] tokenReady_def)
  moreover have "box_ok (newMainGui wx js g)"
    using \<open>box_ok w\<close> by (simp add: newMainGui_def Let_def w_def box_ok_def)
  ultimately show "gui_ok wx js g (newMainGui wx js g)"
    by (simp add: gui_ok_def newMainGui_def Let_def widgets_ok_def main_gui_base_def)
  show "w_shown (newMainGui wx js g) = False"
    by (simp add: newMainGui_def Let_def main_gui_base_def)
qed

lemma refreshTokenState_ok:
  assumes "trim_law wx" and "gui_ok wx js g w"
  shows "gui_ok wx js g (refreshTokenState wx js g w)"
    and "m_streaming (m_aisStream (refreshTokenState wx js g w)) = m_streaming (m_aisStream w)"
    and "w_shown (refreshTokenState wx js g w) = w_shown w"
proof -
  have stale: "client_stale (pushToken wx g w)"
    by (rule pushToken_stale [OF assms(1) gui_okD(5) [OF assms(2)]])
  show "m_streaming (m_aisStream (refreshTokenState wx js g w)) = m_streaming (m_aisStream w)"
    by (simp add: refreshTokenState_def updateSearchBoxSize_streaming [OF stale])
  have rows: "w_rows (refreshTokenState wx js g w) = w_rows w"
    by (simp add: refreshTokenState_def pushToken_def)
  have "widgets_ok g (refreshTokenState wx js g w)"
    using gui_okD(4) [OF assms(2)] by (simp add: refreshTokenState_def pushToken_def widgets_ok_def)
  with lists_ok_cong [OF rows refl refl] updateSearchBoxSize_ok [OF stale, where js = js] gui_okD(1) [OF assms(2)]
  show "gui_ok wx js g (refreshTokenState wx js g w)"
    by (simp add: gui_ok_def refreshTokenState_def)
  show "w_shown (refreshTokenState wx js g w) = w_shown w"
    by (simp add: refreshTokenState_def pushToken_def)
qed

lemma gui_ok_shown: "gui_ok wx js g (w\<lparr>w_shown := b\<rparr>) = gui_ok wx js g w"
  by (simp add: gui_ok_def lists_ok_def box_ok_def client_ok_def widgets_ok_def streamArgs_def)

lemma gui_ok_stop: "gui_ok wx js g w \<Longrightarrow> gui_ok wx js g (StopAisStream w)"
  using Stop_kept by (simp add: gui_kept_def)

section \<open>Every event keeps the invariant\<close>

lemma OnGuiClosed_inv:
  assumes "window_ok wx js p w"
  shows "app_inv wx js (OnGuiClosed p w)"
  using assms lists_settings_ok [OF gui_okD(1), of wx js "settings_of p" w]
  by (auto simp: OnGuiClosed_def Let_def app_inv_def window_ok_def gui_ok_shown gui_ok_stop)

lemma hideGui_inv:
  assumes "gui_ok wx js (settings_of p) w" and "\<not> isToolbarActive p" and "contextMenuViz p"
  shows "app_inv wx js (hideGui w p)"
proof -
  have "m_streaming (m_aisStream (StopAisStream (w\<lparr>w_shown := False\<rparr>))) = False" by simp
  then show ?thesis
    using assms lists_settings_ok [OF gui_okD(1) [OF assms(1)]]
    by (auto simp: hideGui_def Let_def app_inv_def window_ok_def gui_ok_shown gui_ok_stop)
qed

lemma showGui_inv:
  assumes "gui_ok wx js (settings_of p) w" and "isToolbarActive p"
  shows "app_inv wx js (showGui w p)"
  using assms lists_settings_ok [OF gui_okD(1) [OF assms(1)]]
  by (simp add: showGui_def app_inv_def window_ok_def gui_ok_shown)

lemma createGui_inv:
  assumes "mmsi_text_law wx" and "app_inv wx js p"
  shows "\<exists>w. myGUI (createGui wx js p) = Some w \<and> gui_ok wx js (settings_of (createGui wx js p)) w"
    and "isToolbarActive (createGui wx js p) = isToolbarActive p"
    and "contextMenuViz (createGui wx js p) = contextMenuViz p"
  using assms newMainGui_ok [OF assms(1), of "settings_of p" js]
  by (auto simp: createGui_def Let_def app_inv_def window_ok_def split: option.splits)

lemma toolbar_inv:
  assumes "mmsi_text_law wx" and "app_inv wx js p"
  shows "app_inv wx js (OnToolbarToolCallback wx js t p)"
proof (cases "t = toolbarId p")
  case True
  define p1 where "p1 = createGui wx js p"
  obtain w where w: "myGUI p1 = Some w" "gui_ok wx js (settings_of p1) w"
    using createGui_inv(1) [OF assms] by (auto simp: p1_def)
  note keep = createGui_inv(2,3) [OF assms, folded p1_def]
  show ?thesis
  proof (cases "isToolbarActive p")
    case False
    have "app_inv wx js (showGui w (p1\<lparr>isToolbarActive := True\<rparr>))"
      by (rule showGui_inv) (simp_all add: w)
    with False True w keep show ?thesis by (simp add: OnToolbarToolCallback_def p1_def [symmetric] Let_def)
  next
    case True
    then have "contextMenuViz p" using assms(2) by (auto simp: app_inv_def window_ok_def split: option.splits)
    then have "app_inv wx js (hideGui w (p1\<lparr>isToolbarActive := False\<rparr>))"
      by (intro hideGui_inv) (simp_all add: w keep)
    with True \<open>t = toolbarId p\<close> w keep show ?thesis
      by (simp add: OnToolbarToolCallback_def p1_def [symmetric] Let_def)
  qed
qed (simp add: OnToolbarToolCallback_def assms)

lemma positionFix_inv:
  assumes "app_inv wx js p"
  shows "app_inv wx js (SetPositionFix wx js lat lon p)"
proof (cases "myGUI p")
  case None
  with assms show ?thesis by (simp add: SetPositionFix_def app_inv_def Let_def)
next
  case (Some w)
  with assms have w: "window_ok wx js p w" by (rule app_inv_Some)
  then have gui: "gui_ok wx js (settings_of p) w" by (simp add: window_ok_def)
  show ?thesis
    using updateBoatPosition_kept [OF gui, of lat lon] updateBoatPosition_streaming [OF gui_okD(3) [OF gui], of wx lat lon]
    by (intro app_inv_window [OF w, of _ "updateBoatPosition wx js (settings_of p) lat lon w"])
       (simp_all add: SetPositionFix_def Let_def Some gui_kept_def)
qed

lemma menu_inv:
  assumes "app_inv wx js p"
  shows "app_inv wx js (OnContextMenuItemCallback wx js t b p)"
proof (cases "myGUI p")
  case None
  with assms show ?thesis by (simp add: OnContextMenuItemCallback_def)
next
  case (Some w)
  with assms have w: "window_ok wx js p w" by (rule app_inv_Some)
  then have gui: "gui_ok wx js (settings_of p) w" by (simp add: window_ok_def)
  have "m_streaming (m_aisStream (activateFollowBoatMode wx js (settings_of p) w)) = m_streaming (m_aisStream w)"
    and "m_streaming (m_aisStream (updateSearchZoneOnCoord wx js (settings_of p) lat lon w)) =
         m_streaming (m_aisStream w)" for lat lon
    using gui_okD(5) [OF gui]
    by (simp_all add: activateFollowBoatMode_def updateSearchZoneOnCoord_def updateSearchPosition_streaming)
  with followModes_kept [OF gui]
  have moved: "app_inv wx js (p\<lparr>myGUI := Some (activateFollowBoatMode wx js (settings_of p) w)\<rparr>)"
    "app_inv wx js (p\<lparr>myGUI := Some (updateSearchZoneOnCoord wx js (settings_of p) lat lon w)\<rparr>)" for lat lon
    by (simp_all add: gui_kept_def window_moved [OF w])
  with assms moved show ?thesis
    by (auto simp: OnContextMenuItemCallback_def Some split: DialogAction.split prod.split)
qed

lemma preferences_inv:
  assumes "trim_law wx" and "app_inv wx js p"
  shows "app_inv wx js (ShowPreferencesDialog wx js api as p)"
proof -
  obtain g ok where dlg: "ShowModalSettings as (settings_of p) = (g, ok)" by fastforce
  from runDialog_keeps [OF dlg [unfolded ShowModalSettings_def]]
  have g: "g_mmsiList g = g_mmsiList (settings_of p)" "g_mmsiListNames g = g_mmsiListNames (settings_of p)"
    "g_activateVesselsFollowing g = g_activateVesselsFollowing (settings_of p)" by auto
  define p1 where "p1 = p\<lparr>settings_of := g\<rparr>"
  have saved: "gui_ok wx js (settings_of (pluginSave wx api p1)) w" "gui_ok wx js g w"
    if "gui_ok wx js (settings_of p) w" for w
    by (rule gui_ok_settings [OF that]; simp add: p1_def g)+
  show ?thesis
  proof (cases "myGUI p")
    case None
    with assms(2) g show ?thesis
      by (auto simp: ShowPreferencesDialog_def dlg Let_def p1_def [symmetric] app_inv_def settings_ok_def)
         (auto simp: p1_def)
  next
    case (Some w)
    with assms(2) have w: "window_ok wx js p w" by (rule app_inv_Some)
    then have gui: "gui_ok wx js (settings_of p) w" by (simp add: window_ok_def)
    define p2 where "p2 = pluginSave wx api p1"
    have run: "ShowPreferencesDialog wx js api as p =
        (if ok then p2\<lparr>myGUI := Some (refreshTokenState wx js (settings_of p2) w)\<rparr> else p1)"
      by (simp add: ShowPreferencesDialog_def dlg Let_def p1_def p2_def Some)
    note fresh = refreshTokenState_ok [OF assms(1) saved(1) [OF gui], folded p2_def]
    have "app_inv wx js (p2\<lparr>myGUI := Some (refreshTokenState wx js (settings_of p2) w)\<rparr>)"
      by (rule app_inv_window [OF w, of _ "refreshTokenState wx js (settings_of p2) w"])
         (simp_all add: fresh, simp_all add: p2_def p1_def)
    moreover have "app_inv wx js p1"
      by (rule app_inv_window [OF w, of _ w]) (simp_all add: p1_def saved(2) [OF gui] Some)
    ultimately show ?thesis by (simp add: run)
  qed
qed

lemma windowEvent_inv:
  assumes "trim_law wx" and "mmsi_text_law wx" and "app_inv wx js p"
    and "app_step wx js api p (WindowEvent e) = Some p'"
  shows "app_inv wx js p'"
proof -
  from assms(4) obtain w g w' where w: "myGUI p = Some w" "w_shown w" "eventAllowed e w"
    and r: "guiEvent wx js e (settings_of p) w = Some (Inr (g, w'))" "p' = p\<lparr>settings_of := g, myGUI := Some w'\<rparr>"
    by (auto split: option.splits if_splits sum.splits vector_error.splits)
  from assms(3) w(1) have ok: "window_ok wx js p w" by (rule app_inv_Some)
  then have gui: "gui_ok wx js (settings_of p) w" by (simp add: window_ok_def)
  from guiEvent_kept [OF assms(1,2) gui w(3)] r(1) have "gui_kept wx js (settings_of p) w g w'"
    by (simp add: handled_ok_def)
  moreover have "isToolbarActive p" using ok w(2) by (simp add: window_ok_def)
  ultimately show ?thesis
    unfolding r(2) by (intro app_inv_window [OF ok, of _ w']) (simp_all add: gui_kept_def)
qed

lemma gui_ok_pending: "gui_ok wx js g (w\<lparr>w_pending := q\<rparr>) = gui_ok wx js g w"
  by (simp add: gui_ok_def lists_ok_def box_ok_def client_ok_def widgets_ok_def streamArgs_def)

lemma gui_ok_streamState: "gui_ok wx js g (OnAisStreamStateChanged wx st d w) = gui_ok wx js g w"
  by (simp add: OnAisStreamStateChanged_def gui_ok_def lists_ok_def box_ok_def client_ok_def widgets_ok_def streamArgs_def)

lemma OnAisStreamStateChanged_fields [simp]:
  "m_aisStream (OnAisStreamStateChanged wx st d w) = m_aisStream w"
  "w_shown (OnAisStreamStateChanged wx st d w) = w_shown w"
  by (simp_all add: OnAisStreamStateChanged_def)

lemma pending_inv:
  assumes "app_inv wx js p"
  shows "app_inv wx js (dispatchPending wx p)" and "app_inv wx js (postPending q p)"
  using assms
  by (auto simp: dispatchPending_def postPending_def sendNmeaSentence_def app_inv_def window_ok_def
      gui_ok_pending gui_ok_streamState split: option.splits list.splits pending.splits)

lemma init_inv:
  assumes "app_inv wx js p" and "myGUI p = None"
  shows "app_inv wx js (Init wx api c tool menu p)"
proof -
  have "settings_ok (settings_of (pluginLoad wx api (p\<lparr>configSettings := c, myGUI := None\<rparr>)))"
    using assms by (intro pluginLoad_ok) (simp add: app_inv_def)
  then show ?thesis
    using assms by (simp add: Init_def Let_def app_inv_def) (simp add: pluginLoad_def split: prod.split)
qed

lemma deinit_inv:
  assumes "app_inv wx js p"
  shows "app_inv wx js (DeInit wx api p)"
proof -
  have "settings_ok (settings_of (pluginSave wx api p))"
    using assms by (simp add: app_inv_def settings_ok_def)
  then show ?thesis
    using assms
    by (auto simp: DeInit_def Let_def app_inv_def OnGuiClosed_def split: option.splits)
qed

lemma app_step_inv:
  assumes "trim_law wx" and "mmsi_text_law wx" and "app_inv wx js p"
    and "app_step wx js api p e = Some p'"
  shows "app_inv wx js p'"
proof (cases e)
  case (WindowEvent ev)
  with windowEvent_inv [OF assms(1-3)] assms(4) show ?thesis by simp
next
  case CloseWindow
  with assms(3,4) show ?thesis by (auto simp: OnGuiClosed_inv app_inv_Some split: option.splits if_splits)
next
  case (CursorLatLon lat lon)
  with assms(3,4) show ?thesis
    by (auto simp: SetCursorLatLon_def app_inv_def window_ok_def split: option.splits)
qed (use assms in \<open>auto simp: toolbar_inv menu_inv preferences_inv positionFix_inv pending_inv
        init_inv deinit_inv split: if_splits\<close>)

theorem app_reachable_inv:
  assumes "app_reachable wx js api p0 p" and "trim_law wx" and "mmsi_text_law wx" and "app_inv wx js p0"
  shows "app_inv wx js p"
  using assms(1) by induction (auto intro: app_step_inv assms)

lemma plugin_new_inv: "app_inv wx js (plugin_new c)"
  by (simp add: app_inv_def plugin_new_def settings_ok_def settings_init_def)

section \<open>The token\<close>

text \<open>While a stream runs, its client holds the token of the settings.\<close>

definition token_now :: "wx_api \<Rightarrow> settings \<Rightarrow> main_gui \<Rightarrow> bool" where
  "token_now wx g w \<longleftrightarrow>
     (m_streaming (m_aisStream w) \<longrightarrow>
        m_token (m_aisStream w) = g_openWatersToken g \<and> m_useToken (m_aisStream w) = HasToken wx g)"

text \<open>An operation that neither touches the client's token nor starts a stream.\<close>

definition token_kept :: "main_gui \<Rightarrow> main_gui \<Rightarrow> bool" where
  "token_kept w w' \<longleftrightarrow>
     m_token (m_aisStream w') = m_token (m_aisStream w) \<and>
     m_useToken (m_aisStream w') = m_useToken (m_aisStream w) \<and>
     (m_streaming (m_aisStream w') \<longrightarrow> m_streaming (m_aisStream w))"

lemma token_kept_refl: "m_aisStream w' = m_aisStream w \<Longrightarrow> token_kept w w'"
  by (simp add: token_kept_def)

lemma token_kept_trans: "token_kept w v \<Longrightarrow> token_kept v u \<Longrightarrow> token_kept w u"
  by (auto simp: token_kept_def)

lemma token_kept_now:
  "token_now wx g w \<Longrightarrow> token_kept w w' \<Longrightarrow> g_openWatersToken g' = g_openWatersToken g \<Longrightarrow> token_now wx g' w'"
  by (auto simp: token_now_def token_kept_def HasToken_def)

lemma Restart_token: "token_kept w1 w2 \<Longrightarrow> token_kept w1 (RestartAisStream js g w2)"
  by (auto simp: token_kept_def RestartAisStream_def IsStreaming_def clientRestart_def clientStart_def clientStop_def)

lemma Stop_token: "token_kept w (StopAisStream w)"
  by (simp add: token_kept_def StopAisStream_def clientStop_def)

lemma search_token:
  "token_kept w w1 \<Longrightarrow> token_kept w (updateSearchPosition wx js g lat lon w1)"
  "token_kept w w1 \<Longrightarrow> token_kept w (updateSearchBoxSize wx js g x w1)"
  unfolding updateSearchPosition_def updateSearchBoxSize_def Let_def
  by (rule Restart_token, simp add: token_kept_def)+

lemma boat_token: "token_kept w (updateBoatPosition wx js g lat lon w)"
proof -
  have first: "token_kept w (firstFix wx js g lat lon w)" for w
    by (simp add: firstFix_def search_token token_kept_refl)
  have follow: "token_kept w (followBoat wx js g w)" for w
    by (simp add: followBoat_def Let_def search_token token_kept_refl)
  show ?thesis
    unfolding updateBoatPosition_def
    by (rule token_kept_trans [OF token_kept_trans [OF token_kept_refl first] follow]) simp
qed

lemma Start_token:
  "token_now wx g w \<Longrightarrow> token_now wx g (StartAisStream wx js g w)"
  by (simp add: token_now_def StartAisStream_def clientStart_def pushToken_def SetToken_def SetTokenEnabled_def Let_def)

lemma refresh_token: "token_now wx g (refreshTokenState wx js g w)"
proof (rule token_kept_now [where w = "pushToken wx g w"])
  show "token_now wx g (pushToken wx g w)"
    by (simp add: token_now_def pushToken_def SetToken_def SetTokenEnabled_def)
  show "token_kept (pushToken wx g w) (refreshTokenState wx js g w)"
    unfolding refreshTokenState_def by (rule search_token) (simp add: token_kept_def)
qed simp

text \<open>The window's events leave the token of the settings alone.\<close>

lemma guiEvent_token:
  assumes "mmsi_text_law wx" and "gui_ok wx js g w" and "eventAllowed e w"
    and "guiEvent wx js e g w = Some (Inr (g', w'))" and "token_now wx g w"
  shows "token_now wx g' w'"
proof (cases "e = ClickStart")
  case True
  with assms(4) Start_token [OF assms(5), of js] show ?thesis by auto
next
  case False
  have "token_kept w w' \<and> g_openWatersToken g' = g_openWatersToken g"
  proof (cases e)
    case (EditCell row column cell)
    show ?thesis
    proof (cases "column = 0")
      case True
      with assms(3,4) EditCell editMmsi_lists [OF assms(1) gui_okD(1) [OF assms(2)], of row js cell]
      obtain w1 ms where "w' = RestartAisStream js g' w1" "\<exists>t. w1 = storeCell row 0 t w" "g' = g\<lparr>g_mmsiList := ms\<rparr>"
        by (fastforce simp: updateMmsiList_def)
      moreover from this(2) have "token_kept w w1" by (auto simp: storeCell_def intro: token_kept_refl)
      ultimately show ?thesis by (simp add: Restart_token)
    next
      case False
      with assms(3,4) EditCell show ?thesis
        by (auto simp: updateMmsiList_def editName_def storeCell_def Let_def token_kept_refl split: if_splits)
    qed
  qed (use assms(4) False Stop_token in \<open>auto simp: OnScroll_def OnScrollThumbRelease_def OnCheckBox_FollowBoatMode_def
      OnCheckBox_Activate_def AddMmsiToList_def DeleteMmsiFromList_def ClearMmsiList_def Let_def
      intro!: Restart_token search_token intro: token_kept_refl split: if_splits option.splits\<close>)
  then show ?thesis using token_kept_now [OF assms(5)] by blast
qed

text \<open>
  Preferences that were confirmed with OK, or in which Apply was not pressed. (Whether the dialog
  ends with OK does not depend on the settings.)
\<close>

fun settled :: "app_event \<Rightarrow> bool" where
  "settled (Preferences as) \<longleftrightarrow> snd (ShowModalSettings as settings_init) \<or> PressApply \<notin> set as"
| "settled _ \<longleftrightarrow> True"

lemma runDialog_confirmed: "snd (runDialog as d g) = snd (runDialog as d' g')"
  by (induction as d g arbitrary: d' g' rule: runDialog.induct) auto

lemma runDialog_dismissed:
  "PressApply \<notin> set as \<Longrightarrow> \<not> snd (runDialog as d g) \<Longrightarrow> fst (runDialog as d g) = g"
  by (induction as d g rule: runDialog.induct) auto

definition token_inv :: "wx_api \<Rightarrow> 'c plugin \<Rightarrow> bool" where
  "token_inv wx p \<longleftrightarrow> (\<forall>w. myGUI p = Some w \<longrightarrow> token_now wx (settings_of p) w)"

lemma token_inv_window:
  assumes "token_inv wx p" and "g_openWatersToken (settings_of p') = g_openWatersToken (settings_of p)"
    and "\<And>w'. myGUI p' = Some w' \<Longrightarrow> \<exists>w. myGUI p = Some w \<and> token_kept w w'"
  shows "token_inv wx p'"
  using assms token_kept_now unfolding token_inv_def by blast

lemma preferences_token:
  assumes "token_inv wx p" and "settled (Preferences as)"
  shows "token_inv wx (ShowPreferencesDialog wx js api as p)"
proof -
  obtain g ok where dlg: "ShowModalSettings as (settings_of p) = (g, ok)" by fastforce
  have ok: "ok = snd (ShowModalSettings as settings_init)"
    using dlg runDialog_confirmed [of as _ _ _ "settings_of p"] unfolding ShowModalSettings_def by (metis snd_conv)
  show ?thesis
  proof (cases ok)
    case True
    then show ?thesis
      by (auto simp: ShowPreferencesDialog_def dlg Let_def token_inv_def refresh_token)
  next
    case False
    with assms(2) ok have "PressApply \<notin> set as" by simp
    with False dlg have "g = settings_of p"
      using runDialog_dismissed [of as "OnInit (settings_of p) settings_dialog_init" "settings_of p"]
      unfolding ShowModalSettings_def by simp
    with False assms(1) show ?thesis by (simp add: ShowPreferencesDialog_def dlg)
  qed
qed

lemma token_kept_update [simp]:
  "token_kept w (w'\<lparr>w_shown := b\<rparr>) = token_kept w w'"
  "token_kept w (w'\<lparr>w_pending := q\<rparr>) = token_kept w w'"
  "token_kept (w\<lparr>w_shown := b\<rparr>) w' = token_kept w w'"
  "token_kept (w\<lparr>w_pending := q\<rparr>) w' = token_kept w w'"
  "token_kept w w"
  by (simp_all add: token_kept_def)

lemma createGui_token: "token_inv wx p \<Longrightarrow> mmsi_text_law wx \<Longrightarrow> settings_ok (settings_of p) \<Longrightarrow> token_inv wx (createGui wx js p)"
  using newMainGui_ok(2) [of wx "settings_of p" js]
  by (simp add: createGui_def token_inv_def token_now_def Let_def split: option.split)

lemma toolbar_token:
  assumes "token_inv wx p" and "mmsi_text_law wx" and "settings_ok (settings_of p)"
  shows "token_inv wx (OnToolbarToolCallback wx js item p)"
proof -
  define q where "q = createGui wx js p"
  have q: "token_inv wx q" unfolding q_def by (rule createGui_token [OF assms])
  have "token_kept w (StopAisStream (w\<lparr>w_shown := False\<rparr>))" for w
    using Stop_token [of "w\<lparr>w_shown := False\<rparr>"] by simp
  then show ?thesis
    using assms(1) q
    by (auto simp: OnToolbarToolCallback_def q_def [symmetric] Let_def showGui_def hideGui_def
        intro!: token_inv_window [OF q] split: option.split)
qed

lemma app_step_token:
  assumes "trim_law wx" and "mmsi_text_law wx" and "app_inv wx js p" and "token_inv wx p"
    and "app_step wx js api p e = Some p'" and "settled e"
  shows "token_inv wx p'"
proof (cases e)
  case (ToolbarTool item)
  with assms show ?thesis by (auto simp: app_inv_def intro: toolbar_token)
next
  case (ContextMenuItem item b)
  have "token_kept w (updateSearchZoneOnCoord wx js g lat lon w)" "token_kept w (activateFollowBoatMode wx js g w)" for w g lat lon
    unfolding updateSearchZoneOnCoord_def activateFollowBoatMode_def by (rule search_token, simp add: token_kept_def)+
  with ContextMenuItem assms(4,5) show ?thesis
    by (auto simp: OnContextMenuItemCallback_def intro!: token_inv_window [OF assms(4)] split: option.splits prod.splits DialogAction.splits if_splits)
next
  case (Preferences as)
  with assms preferences_token [OF assms(4), of as js api] show ?thesis by auto
next
  case (PositionFix lat lon)
  with assms(4,5) boat_token show ?thesis
    by (auto simp: SetPositionFix_def Let_def intro!: token_inv_window [OF assms(4)])
next
  case (CursorLatLon lat lon)
  with assms(4,5) show ?thesis by (auto simp: SetCursorLatLon_def token_inv_def)
next
  case CloseWindow
  with assms(4,5) Stop_token show ?thesis
    by (auto simp: OnGuiClosed_def Let_def intro!: token_inv_window [OF assms(4)] split: option.splits if_splits)
next
  case (WindowEvent ev)
  from assms(5) WindowEvent obtain w g w' where w: "myGUI p = Some w" "eventAllowed ev w"
    and r: "guiEvent wx js ev (settings_of p) w = Some (Inr (g, w'))" "p' = p\<lparr>settings_of := g, myGUI := Some w'\<rparr>"
    by (auto split: option.splits if_splits sum.splits vector_error.splits)
  from app_inv_Some [OF assms(3) w(1)] have "gui_ok wx js (settings_of p) w" by (simp add: window_ok_def)
  from guiEvent_token [OF assms(2) this w(2) r(1)] assms(4) w(1) show ?thesis
    by (simp add: token_inv_def r(2))
next
  case (StreamPosts q)
  with assms(4,5) show ?thesis by (auto simp: postPending_def intro!: token_inv_window [OF assms(4)])
next
  case RunPending
  with assms(4,5) show ?thesis
    by (auto simp: dispatchPending_def sendNmeaSentence_def intro!: token_inv_window [OF assms(4)] token_kept_refl
        split: option.splits list.splits pending.splits)
next
  case PluginDeInit
  with assms(5) show ?thesis by (auto simp: DeInit_def token_inv_def Let_def split: option.splits)
next
  case (PluginInit tool menu)
  with assms(5) show ?thesis
    by (auto simp: Init_def token_inv_def Let_def pluginLoad_def split: prod.splits if_splits)
qed

lemma app_run_inv:
  assumes "trim_law wx" and "mmsi_text_law wx" and "app_inv wx js p" and "app_run wx js api p es = Some p'"
  shows "app_inv wx js p'"
  using assms(3,4)
  by (induction es arbitrary: p) (auto intro: app_step_inv [OF assms(1,2)] split: option.splits)

lemma app_run_token:
  assumes "trim_law wx" and "mmsi_text_law wx" and "app_inv wx js p" and "token_inv wx p"
    and "list_all settled es" and "app_run wx js api p es = Some p'"
  shows "token_inv wx p'"
  using assms(3-6)
proof (induction es arbitrary: p)
  case (Cons e es)
  then obtain q where q: "app_step wx js api p e = Some q" "app_run wx js api q es = Some p'"
    by (auto split: option.splits)
  from Cons.prems(3) have "settled e" by simp
  with Cons.IH [OF app_step_inv [OF assms(1,2) Cons.prems(1) q(1)] _ _ q(2)]
    app_step_token [OF assms(1,2) Cons.prems(1,2) q(1)] Cons.prems(3) show ?case by simp
qed simp

text \<open>
  What settled preferences exclude: Apply pressed and the dialog dismissed. The settings have the
  new token then, but the window, its client and the configuration object are as before.
\<close>

lemma applied_and_dismissed:
  "ShowPreferencesDialog wx js api [EditDialog d, PressApply, Dismiss] p =
     p\<lparr>settings_of := updateSettings d (settings_of p)\<rparr>"
  by (simp add: ShowPreferencesDialog_def ShowModalSettings_def)

end
