(* ===== verification/AisPluginDemo.thy ===== *)
theory AisPluginDemo
  imports AisDemo AisPluginProofs
begin

text \<open>
  Instances for the witnesses of the plugin's properties: a configuration object that is an
  association list, the proof that the functions of \<open>AisDemo\<close> satisfy what is relied on of
  wxWidgets, and a plugin with its window open. Nothing of the program is modelled here.
\<close>

section \<open>A configuration object\<close>

type_synonym demo_cfg = "string \<times> ((string \<times> string) \<times> cfg_value) list"

definition demo_config :: "demo_cfg config_api" where
  "demo_config =
     \<lparr>cfg_SetPath = (\<lambda>p c. (p, snd c)), cfg_GetPath = fst,
      cfg_Write = (\<lambda>k v c. (fst c, ((fst c, k), v) # snd c)),
      cfg_Read = (\<lambda>c k d. case map_of (snd c) (fst c, k) of
                            None \<Rightarrow> d | Some v \<Rightarrow> if same_kind v d then v else d)\<rparr>"

lemma demo_config_laws: "config_laws demo_config"
  by (auto simp: config_laws_def demo_config_def)

section \<open>Text functions\<close>

lemma digits_value_append:
  "digits_value acc (xs @ ys) = (case digits_value acc xs of None \<Rightarrow> None | Some a \<Rightarrow> digits_value a ys)"
  by (induction acc xs rule: digits_value.induct) (auto simp: Let_def)

lemma decimal_digit:
  assumes "d < 10"
  shows "of_char (''0123456789'' ! d) = 48 + d" and "''0123456789'' ! d \<noteq> CHR '',''"
proof -
  from assms have "d = 0 \<or> d = 1 \<or> d = 2 \<or> d = 3 \<or> d = 4 \<or> d = 5 \<or> d = 6 \<or> d = 7 \<or> d = 8 \<or> d = 9"
    by presburger
  then show "of_char (''0123456789'' ! d) = 48 + d" and "''0123456789'' ! d \<noteq> CHR '',''"
    by (elim disjE; simp)+
qed

lemma digits_value_decimal:
  "digits_value acc (decimal_digits k n) = Some (acc * 10 ^ k + n mod 10 ^ k)"
proof (induction k arbitrary: acc n)
  case (Suc k)
  have "(10 :: nat) ^ k * 10 * 0 + n mod (10 * 10 ^ k) = 10 * (n div 10 mod 10 ^ k) + n mod 10"
    using mod_mult2_eq [of n 10 "10 ^ k"] by simp
  then show ?case
    by (simp add: digits_value_append Suc decimal_digit(1) algebra_simps Let_def)
qed simp

lemma decimal_digits_isdigit: "list_all isdigit (decimal_digits k n)"
proof (induction k arbitrary: n)
  case (Suc k)
  then show ?case using decimal_digit(1) [of "n mod 10"] by (simp add: isdigit_def charCode_def)
qed simp

lemma demo_mmsi_text:
  assumes "validMmsi n"
  shows "decimal_digits 9 n \<noteq> []" and "digits_value 0 (decimal_digits 9 n) = Some n"
proof -
  have "decimal_digits (Suc 8) n \<noteq> []" by (simp only: decimal_digits.simps) simp
  then show "decimal_digits 9 n \<noteq> []" by simp
  show "digits_value 0 (decimal_digits 9 n) = Some n"
    using assms by (simp add: digits_value_decimal validMmsi_def)
qed

lemma demo_text_laws: "text_laws demo_wx"
  using decimal_digits_isdigit by (simp add: text_laws_def demo_wx_def demo_mmsi_text)

lemma demo_mmsi_text_law: "mmsi_text_law demo_wx"
  by (simp add: mmsi_text_law_def demo_wx_def demo_mmsi_text)

lemma demo_trim_law: "trim_law demo_wx"
  by (simp add: trim_law_def demo_wx_def)

section \<open>A plugin with its window open\<close>

definition demo_plugin :: "demo_cfg plugin" where
  "demo_plugin = Init demo_wx demo_config None 7 9 (plugin_new None)"

definition demo_open :: "demo_cfg plugin" where
  "demo_open = OnToolbarToolCallback demo_wx demo_js 7 demo_plugin"

definition demo_window :: main_gui where
  "demo_window = (newMainGui demo_wx demo_js settings_init)\<lparr>w_shown := True\<rparr>"

lemma demo_plugin_facts:
  "myGUI demo_plugin = None" "toolbarId demo_plugin = 7" "isToolbarActive demo_plugin = False"
  "settings_of demo_plugin = settings_init"
  by (simp_all add: demo_plugin_def Init_def Let_def pluginLoad_def LoadSettings_def plugin_new_def)

lemma demo_open_facts:
  "myGUI demo_open = Some demo_window" "isToolbarActive demo_open" "settings_of demo_open = settings_init"
  by (simp_all add: demo_open_def OnToolbarToolCallback_def demo_plugin_facts createGui_def showGui_def
      demo_window_def Let_def)

lemma demo_open_reachable: "app_reachable demo_wx demo_js demo_config (plugin_new None) demo_open"
proof -
  have "app_step demo_wx demo_js demo_config (plugin_new None) (PluginInit 7 9) = Some demo_plugin"
    by (simp add: demo_plugin_def plugin_new_def)
  from app_next [OF app_start this] have "app_reachable demo_wx demo_js demo_config (plugin_new None) demo_plugin" .
  moreover have "app_step demo_wx demo_js demo_config demo_plugin (ToolbarTool 7) = Some demo_open"
    by (simp add: demo_open_def)
  ultimately show ?thesis by (rule app_next)
qed

lemma demo_open_ok: "gui_ok demo_wx demo_js settings_init demo_window"
  using app_reachable_inv [OF demo_open_reachable demo_trim_law demo_mmsi_text_law plugin_new_inv] demo_open_facts
  by (simp add: app_inv_def window_ok_def)

text \<open>The same after Start was pressed.\<close>

definition demo_streaming_window :: main_gui where
  "demo_streaming_window = StartAisStream demo_wx demo_js settings_init demo_window"

definition demo_streaming :: "demo_cfg plugin" where
  "demo_streaming = demo_open\<lparr>myGUI := Some demo_streaming_window\<rparr>"

lemma demo_streaming_reachable:
  "app_reachable demo_wx demo_js demo_config (plugin_new None) demo_streaming"
proof -
  have "app_step demo_wx demo_js demo_config demo_open (WindowEvent ClickStart) = Some demo_streaming"
    using demo_open_facts by (simp add: demo_streaming_def demo_streaming_window_def demo_window_def)
  with demo_open_reachable show ?thesis by (rule app_next)
qed

lemma demo_streaming_run:
  "app_run demo_wx demo_js demo_config (plugin_new None)
     [PluginInit 7 9, ToolbarTool 7, WindowEvent ClickStart] = Some demo_streaming"
proof -
  have "app_step demo_wx demo_js demo_config (plugin_new None) (PluginInit 7 9) = Some demo_plugin"
    by (simp add: demo_plugin_def plugin_new_def)
  moreover have "app_step demo_wx demo_js demo_config demo_plugin (ToolbarTool 7) = Some demo_open"
    by (simp add: demo_open_def)
  moreover have "app_step demo_wx demo_js demo_config demo_open (WindowEvent ClickStart) = Some demo_streaming"
    using demo_open_facts by (simp add: demo_streaming_def demo_streaming_window_def demo_window_def)
  ultimately show ?thesis by simp
qed

lemma demo_streaming_on: "m_streaming (m_aisStream demo_streaming_window)"
  using StartAisStream_ok [OF demo_trim_law gui_okD(3) [OF demo_open_ok]]
  by (simp add: demo_streaming_window_def)

lemma demo_streaming_facts [simp]:
  "myGUI demo_streaming = Some demo_streaming_window" "settings_of demo_streaming = settings_init"
  by (simp_all add: demo_streaming_def demo_open_facts)

end
