(* ===== verification/AisPluginProperties.thy ===== *)
theory AisPluginProperties
  imports AisPluginDemo
begin

text \<open>
  The properties of the plugin around the stream client: the subscription follows the window,
  the list of followed vessels, the search area, the settings, and what OpenCPN is told. Each
  property that has hypotheses is followed by its application to a concrete case.
\<close>

section \<open>The stream and the window\<close>

text \<open>C18. Whatever the user, OpenCPN and the stream's thread do, a running stream was started with
  the position, box and vessels that the window and the settings hold now and with the token its
  client holds now: every handler that changes one of them restarts the stream. That token is the
  one of the settings, in use exactly when it is more than blanks, as long as no preferences
  dialog was left by other means than OK after Apply was pressed; such a dialog leaves a new
  token in the settings and the stream with the old one.\<close>

theorem subscription_is_current:
  assumes "app_run wx js api (plugin_new c) es = Some p" and "trim_law wx" and "mmsi_text_law wx"
    and "myGUI p = Some w" and "m_streaming (m_aisStream w)"
  shows "w_sessions w \<noteq> [] \<and>
         last (w_sessions w) = threadArgs js (streamArgs (settings_of p) w) (m_aisStream w) \<and>
         (list_all settled es \<longrightarrow>
            m_token (m_aisStream w) = g_openWatersToken (settings_of p) \<and>
            m_useToken (m_aisStream w) = HasToken wx (settings_of p))"
proof -
  from app_run_inv [OF assms(2,3) plugin_new_inv assms(1)] assms(4)
  have "client_ok js (settings_of p) w" by (auto simp: app_inv_def window_ok_def gui_ok_def)
  moreover have "token_inv wx (plugin_new c)" by (simp add: token_inv_def plugin_new_def)
  with app_run_token [OF assms(2,3) plugin_new_inv _ _ assms(1)] assms(4)
  have "list_all settled es \<Longrightarrow> token_now wx (settings_of p) w" by (simp add: token_inv_def)
  ultimately show ?thesis using assms(5) by (auto simp: client_ok_def token_now_def)
qed

theorem subscription_is_current_witness:
  "last (w_sessions demo_streaming_window) =
     threadArgs demo_js (streamArgs settings_init demo_streaming_window) (m_aisStream demo_streaming_window) \<and>
   m_token (m_aisStream demo_streaming_window) = []"
  using subscription_is_current [OF demo_streaming_run demo_trim_law demo_mmsi_text_law
      demo_streaming_facts(1) demo_streaming_on]
  by (simp add: settings_init_def)

text \<open>C19. In every reachable state with a window, pressing Start leaves the stream running: the
  window never asks the client for a start that it refuses because the token is missing.\<close>

theorem start_is_never_refused:
  assumes "app_reachable wx js api (plugin_new c) p" and "trim_law wx" and "mmsi_text_law wx"
    and "myGUI p = Some w"
  shows "m_streaming (m_aisStream (StartAisStream wx js (settings_of p) w))"
proof -
  from app_reachable_inv [OF assms(1-3) plugin_new_inv] assms(4)
  have "client_ok js (settings_of p) w" by (auto simp: app_inv_def window_ok_def gui_ok_def)
  from StartAisStream_ok [OF assms(2) this] show ?thesis by simp
qed

theorem start_is_never_refused_witness:
  "m_streaming (m_aisStream (StartAisStream demo_wx demo_js settings_init demo_window))"
  using start_is_never_refused [OF demo_open_reachable demo_trim_law demo_mmsi_text_law demo_open_facts(1)]
    demo_open_facts(3) by simp

text \<open>C20. In every reachable state the toolbar button is highlighted exactly when the window is
  shown or its stream runs, and then the menu item is offered too; without a window neither is.\<close>

theorem toolbar_tells_streaming:
  assumes "app_reachable wx js api (plugin_new c) p" and "trim_law wx" and "mmsi_text_law wx"
  shows "case myGUI p of
           None \<Rightarrow> toolbarItemState p = False \<and> contextMenuViz p = False
         | Some w \<Rightarrow> toolbarItemState p = (w_shown w \<or> m_streaming (m_aisStream w)) \<and>
                     (toolbarItemState p \<le> contextMenuViz p)"
  using app_reachable_inv [OF assms plugin_new_inv]
  by (auto simp: app_inv_def window_ok_def split: option.splits)

theorem toolbar_tells_streaming_witness:
  "toolbarItemState demo_streaming = (w_shown demo_streaming_window \<or> True) \<and> contextMenuViz demo_streaming"
  using toolbar_tells_streaming [OF demo_streaming_reachable demo_trim_law demo_mmsi_text_law]
    demo_streaming_on by simp

text \<open>Closing the window and hiding it with the toolbar button do the same to the stream: it is
  stopped unless the user keeps the window active, and then goes on as it was; the button stays
  highlighted only in that case.\<close>

theorem closing_stops_unless_kept:
  assumes "isToolbarActive p" and "myGUI p = Some w"
  shows "let closed = OnGuiClosed p w; hidden = OnToolbarToolCallback wx js (toolbarId p) p;
             kept = (m_streaming (m_aisStream w) \<and> g_keepWindowActive (settings_of p)) in
         map_option (\<lambda>v. m_streaming (m_aisStream v)) (myGUI closed) = Some kept \<and>
         toolbarItemState closed = kept \<and> \<not> isToolbarActive closed \<and>
         myGUI hidden = myGUI closed \<and> toolbarItemState hidden = kept \<and>
         contextMenuViz hidden = contextMenuViz closed \<and> \<not> isToolbarActive hidden"
proof -
  have shown: "StopAisStream (w\<lparr>w_shown := False\<rparr>) = (StopAisStream w)\<lparr>w_shown := False\<rparr>"
    by (simp add: StopAisStream_def)
  show ?thesis
    using assms
    by (simp add: OnGuiClosed_def OnToolbarToolCallback_def createGui_def hideGui_def Let_def shown)
qed

theorem closing_stops_unless_kept_witness:
  "map_option (\<lambda>v. m_streaming (m_aisStream v)) (myGUI (OnGuiClosed demo_streaming demo_streaming_window)) =
     Some True"
proof -
  have "isToolbarActive demo_streaming" by (simp add: demo_streaming_def demo_open_facts)
  from closing_stops_unless_kept [OF this demo_streaming_facts(1), of demo_wx demo_js] demo_streaming_on
  show ?thesis by (simp add: Let_def settings_init_def)
qed

text \<open>The calls posted to the window run in the order in which they were posted: after as many
  turns of the event loop as there were calls, OpenCPN has been given exactly the sentences
  among them, in order, and nothing is left.\<close>

theorem sentences_pushed_in_order:
  assumes "myGUI p = Some w"
  shows "nmeaPushed ((dispatchPending wx ^^ length (w_pending w)) p) =
           nmeaPushed p @ List.map_filter (\<lambda>q. case q of PendingSentence s \<Rightarrow> Some s | _ \<Rightarrow> None) (w_pending w) \<and>
         map_option w_pending (myGUI ((dispatchPending wx ^^ length (w_pending w)) p)) = Some []"
  using assms
proof (induction "w_pending w" arbitrary: p w)
  case Nil
  then show ?case by (simp add: map_filter_simps)
next
  case (Cons q qs)
  from Cons.hyps(2) have pending: "w_pending w = q # qs" by simp
  obtain v where v: "myGUI (dispatchPending wx p) = Some v" "w_pending v = qs"
    "nmeaPushed (dispatchPending wx p) = nmeaPushed p @ (case q of PendingSentence s \<Rightarrow> [s] | _ \<Rightarrow> [])"
    using pending Cons.prems
    by (cases q) (simp_all add: dispatchPending_def OnAisStreamStateChanged_def sendNmeaSentence_def)
  from Cons.hyps(1) [OF v(2) [symmetric] v(1)] v show ?case
    by (cases q) (simp_all add: pending funpow_swap1 map_filter_simps del: funpow.simps add: funpow_Suc_right)
qed

theorem sentences_pushed_in_order_witness:
  "nmeaPushed ((dispatchPending demo_wx ^^ 3) (demo_open\<lparr>myGUI := Some (demo_window
     \<lparr>w_pending := [PendingSentence ''a'', PendingState Running [], PendingSentence ''b'']\<rparr>)\<rparr>)) = [''a'', ''b'']"
proof -
  have "nmeaPushed demo_open = []"
    by (simp add: demo_open_def OnToolbarToolCallback_def demo_plugin_facts createGui_def showGui_def Let_def)
       (simp add: demo_plugin_def Init_def Let_def pluginLoad_def LoadSettings_def plugin_new_def)
  with sentences_pushed_in_order [of "demo_open\<lparr>myGUI := Some (demo_window
      \<lparr>w_pending := [PendingSentence ''a'', PendingState Running [], PendingSentence ''b'']\<rparr>)\<rparr>" _ demo_wx]
  show ?thesis by (simp add: map_filter_simps eval_nat_numeral)
qed

section \<open>The followed vessels\<close>

text \<open>C21. No action the window allows indexes outside the two vectors, and after it every row still
  shows its vessel: the vectors and the table have the same length, the first cell reads as the
  MMSI, the second is the name, every MMSI has nine digits, and there is no duplicate if there
  was none. Every action ends, except that the edit of an MMSI need not in a list that already
  has some MMSI twice.\<close>

theorem vessel_list_stays_consistent:
  assumes "app_reachable wx js api (plugin_new c) p" and "trim_law wx" and "mmsi_text_law wx"
    and "myGUI p = Some w" and "eventAllowed e w"
  shows "case guiEvent wx js e (settings_of p) w of
           None \<Rightarrow> \<not> distinct (g_mmsiList (settings_of p)) \<and> (\<exists>row text. e = EditCell row 0 text)
         | Some r \<Rightarrow> \<exists>g' w'. r = Inr (g', w') \<and>
             length (g_mmsiListNames g') = length (g_mmsiList g') \<and>
             map (\<lambda>row. (wx_ToULong wx (fst row), snd row)) (w_rows w') =
               zip (map (\<lambda>m. Some (unat m)) (g_mmsiList g')) (g_mmsiListNames g') \<and>
             list_all (\<lambda>m. 100000000 \<le> unat m \<and> unat m \<le> 999999999) (g_mmsiList g') \<and>
             distinct (g_mmsiList (settings_of p)) \<le> distinct (g_mmsiList g')"
proof -
  from app_reachable_inv [OF assms(1-3) plugin_new_inv] assms(4)
  have "gui_ok wx js (settings_of p) w" by (auto simp: app_inv_def window_ok_def)
  note kept = guiEvent_kept [OF assms(2,3) this assms(5)]
  show ?thesis
  proof (cases "guiEvent wx js e (settings_of p) w")
    case None
    with kept show ?thesis by (simp add: handled_ok_def)
  next
    case (Some r)
    with kept obtain g' w' where
      r: "r = Inr (g', w')" "lists_ok wx g' w'" "distinct (g_mmsiList (settings_of p)) \<le> distinct (g_mmsiList g')"
      by (auto simp: handled_ok_def gui_kept_def gui_ok_def)
    moreover have "map (\<lambda>row. (wx_ToULong wx (fst row), snd row)) (w_rows w') =
        zip (map (\<lambda>m. Some (unat m)) (g_mmsiList g')) (g_mmsiListNames g')"
      using r(2) by (intro nth_equalityI) (simp_all add: lists_ok_def)
    ultimately show ?thesis
      using Some by (auto simp: lists_ok_def list_all_iff validMmsi_def not_less)
  qed
qed

theorem vessel_list_stays_consistent_witness:
  "\<exists>g' w'. guiEvent demo_wx demo_js ClickAdd settings_init demo_window = Some (Inr (g', w')) \<and>
     list_all (\<lambda>m. 100000000 \<le> unat m \<and> unat m \<le> 999999999) (g_mmsiList g') \<and> distinct (g_mmsiList g')"
proof -
  have "eventAllowed ClickAdd demo_window" "distinct (g_mmsiList settings_init)"
    by (simp_all add: settings_init_def)
  with vessel_list_stays_consistent [OF demo_open_reachable demo_trim_law demo_mmsi_text_law
      demo_open_facts(1), of ClickAdd] demo_open_facts(3)
  show ?thesis by auto
qed

text \<open>C22. In a list that agrees with its table (as it does in every reachable state), an edited MMSI is
  taken, and a running stream restarted with it, when the text is a nine-digit number that no other
  row has. Otherwise the cell is set back to the number it had; the control
  announces that change like an edit, so the handler runs again: it takes the number set back,
  which leaves the list as it was but restarts a running stream too. If another row has that
  number as well, the handler sets the cell back again and again and never returns.\<close>

theorem edited_mmsi_taken_or_restored:
  assumes "mmsi_text_law wx" and "lists_ok wx g w" and "row < length (w_rows w)"
  shows "guiEvent wx js (EditCell row 0 cell) g w =
           (let old = g_mmsiList g ! row;
                free = (\<lambda>v. list_all (\<lambda>i. i = row \<or> unat (g_mmsiList g ! i) \<noteq> v) [0..<length (g_mmsiList g)]);
                setBack = (if free (unat old)
                           then Some (Inr (g, RestartAisStream js g (storeCell row 0 (wx_fmt09u wx old) w)))
                           else None)
            in case wx_ToULong wx cell of
                 Some v \<Rightarrow>
                   if 100000000 \<le> v \<and> v \<le> 999999999 \<and> free v
                   then let g' = g\<lparr>g_mmsiList := (g_mmsiList g)[row := of_nat v]\<rparr> in
                        Some (Inr (g', RestartAisStream js g' (storeCell row 0 cell w)))
                   else setBack
               | None \<Rightarrow> setBack)"
proof -
  define free where "free v \<longleftrightarrow> list_all (\<lambda>i. i = row \<or> unat (g_mmsiList g ! i) \<noteq> v) [0..<length (g_mmsiList g)]" for v
  have "alone row g = free (unat (g_mmsiList g ! row))"
    by (simp add: alone_def free_def list_all_iff word_unat_eq_iff)
  moreover have "parseEditedMmsi wx row g cell =
      (case wx_ToULong wx cell of Some v \<Rightarrow> if 100000000 \<le> v \<and> v \<le> 999999999 \<and> free v then Some v else None | None \<Rightarrow> None)"
    by (auto simp: parseEditedMmsi_def free_def list_ex_iff list_all_iff validMmsi_def split: option.split)
  ultimately show ?thesis
    unfolding free_def [symmetric]
    using editMmsi_cell [OF assms, of js cell]
    by (simp add: updateMmsiList_def Let_def free_def [abs_def, symmetric] split: option.split)
qed

text \<open>A text that is no MMSI: with one such vessel the number comes back; with two, the handler hangs.\<close>

theorem edited_mmsi_taken_or_restored_witness:
  "let g = settings_init\<lparr>g_mmsiList := [227000000], g_mmsiListNames := [''x'']\<rparr>;
       w = demo_window\<lparr>w_rows := [(''227000000'', ''x'')]\<rparr>;
       g2 = settings_init\<lparr>g_mmsiList := [227000000, 227000000], g_mmsiListNames := [''x'', ''y'']\<rparr>;
       w2 = demo_window\<lparr>w_rows := [(''227000000'', ''x''), (''227000000'', ''y'')]\<rparr>
   in guiEvent demo_wx demo_js (EditCell 0 0 ''12'') g w = Some (Inr (g, RestartAisStream demo_js g w)) \<and>
      guiEvent demo_wx demo_js (EditCell 0 0 ''12'') g2 w2 = None"
proof -
  define g w g2 w2 where
    "g = settings_init\<lparr>g_mmsiList := [227000000], g_mmsiListNames := [''x'']\<rparr>"
    and "w = demo_window\<lparr>w_rows := [(''227000000'', ''x'')]\<rparr>"
    and "g2 = settings_init\<lparr>g_mmsiList := [227000000, 227000000], g_mmsiListNames := [''x'', ''y'']\<rparr>"
    and "w2 = demo_window\<lparr>w_rows := [(''227000000'', ''x''), (''227000000'', ''y'')]\<rparr>"
  have lists: "lists_ok demo_wx g w" "lists_ok demo_wx g2 w2"
    by (simp_all add: g_def w_def g2_def w2_def lists_ok_def demo_wx_def validMmsi_def All_less_Suc)
  have texts: "wx_fmt09u demo_wx 227000000 = ''227000000''" "wx_ToULong demo_wx ''12'' = Some 12"
    by (simp_all add: demo_wx_def decimal_digits_numeral decimal_digits_one)
  have "guiEvent demo_wx demo_js (EditCell 0 0 ''12'') g w = Some (Inr (g, RestartAisStream demo_js g w))"
    using edited_mmsi_taken_or_restored [OF demo_mmsi_text_law lists(1), of 0 demo_js "''12''"]
    by (simp add: g_def w_def texts storeCell_def Let_def)
  moreover have "guiEvent demo_wx demo_js (EditCell 0 0 ''12'') g2 w2 = None"
    using edited_mmsi_taken_or_restored [OF demo_mmsi_text_law lists(2), of 0 demo_js "''12''"]
    by (simp add: g2_def w2_def texts Let_def upt_rec)
  ultimately show ?thesis by (simp add: g_def w_def g2_def w2_def Let_def)
qed

section \<open>The settings\<close>

text \<open>C23. What \<open>SaveSettings\<close> writes, \<open>LoadSettings\<close> reads back: all settings, among them the window's
  geometry and the list of vessels with their names, for names without a comma, names and a token
  in which the configuration object finds no environment variable to expand (no dollar, no per
  cent), and a box size that the configuration's text form keeps.\<close>

theorem settings_roundtrip:
  assumes "config_laws api" and "text_laws wx" and "SaveSettings wx api gui (g, Some c) = (g', Some c')"
    and "list_all (\<lambda>m. 100000000 \<le> unat m \<and> unat m \<le> 999999999) (g_mmsiList g)"
    and "length (g_mmsiListNames g) = length (g_mmsiList g)"
    and "list_all (\<lambda>n. CHR '','' \<notin> set n \<and> CHR ''$'' \<notin> set n \<and> CHR ''%'' \<notin> set n) (g_mmsiListNames g)"
    and "CHR ''$'' \<notin> set (g_openWatersToken g)" and "CHR ''%'' \<notin> set (g_openWatersToken g)"
    and "kept_exactly (CfgDouble (g_lastSearchBoxSize g'))"
  shows "fst (LoadSettings wx api (g0, Some c')) = g'"
proof -
  from assms(3) have g': "g' = captureWindow gui g"
    and c': "c' = fold (\<lambda>(key, v) c. cfg_Write api key v c) (writeAll wx g') (cfg_SetPath api configPath c)"
    by (auto simp: SaveSettings_def Let_def)
  have "cfg_GetPath api c' = configPath"
    using assms(1) by (simp add: c' writes_keep_path writeAll_keys list.set_map [symmetric] del: list.set_map) (simp add: config_laws_def)
  moreover have "cfg_SetPath api (cfg_GetPath api c') c' = c'" using assms(1) by (simp add: config_laws_def)
  ultimately have "cfg_SetPath api configPath c' = c'" by simp
  moreover have "readAll wx api c' = g'"
    using assms(4-9)
    by (intro readAll_after_save [OF assms(1,2) _ _ _ _ _ c'])
       (auto simp: g' captureWindow_def list_all_iff validMmsi_def plainText_def split: option.splits)
  ultimately show ?thesis by (simp add: LoadSettings_def)
qed

theorem settings_roundtrip_witness:
  "\<exists>c'. SaveSettings demo_wx demo_config None
       (settings_init\<lparr>g_mmsiList := [227000000], g_mmsiListNames := [''x'']\<rparr>, Some ([], [])) =
       (settings_init\<lparr>g_mmsiList := [227000000], g_mmsiListNames := [''x'']\<rparr>, Some c') \<and>
     fst (LoadSettings demo_wx demo_config (settings_init, Some c')) =
       settings_init\<lparr>g_mmsiList := [227000000], g_mmsiListNames := [''x'']\<rparr>"
proof -
  define g where "g = settings_init\<lparr>g_mmsiList := [227000000], g_mmsiListNames := [''x'']\<rparr>"
  obtain c' where save: "SaveSettings demo_wx demo_config None (g, Some ([], [])) = (g, Some c')"
    by (simp add: SaveSettings_def captureWindow_def Let_def)
  have "fst (LoadSettings demo_wx demo_config (settings_init, Some c')) = g"
    by (rule settings_roundtrip [OF demo_config_laws demo_text_laws save])
       (simp_all add: g_def settings_init_def)
  with save show ?thesis unfolding g_def by blast
qed

text \<open>C24. A comma in a vessel's name is not protected: of two vessels, the first comes back with what
  precedes the comma and the second with what follows it, so its own name is lost.\<close>

theorem comma_in_name_shifts_names:
  assumes "text_laws wx" and "validMmsi (unat a)" and "validMmsi (unat b)"
    and "CHR '','' \<notin> set before" and "CHR '','' \<notin> set after"
  shows "loadEntries wx (wx_Tokenize wx (mmsiStringLoop wx [] [a, b]))
           (wx_Tokenize wx (namesStringLoop [before @ '','' @ after, name] 2)) = ([a, b], [before, after])"
proof -
  have toks: "wx_Tokenize wx (mmsiStringLoop wx [] [a, b]) = [wx_fmtu wx a, wx_fmtu wx b]"
    using assms(2,3) by (subst tokens_of_mmsis [OF assms(1)]) simp_all
  have "namesStringLoop [before @ '','' @ after, name] 2 = before @ CHR '','' # after @ CHR '','' # name"
    by (simp add: namesStringLoop_def numeral_2_eq_2)
  moreover have "split_on (CHR '','') (before @ CHR '','' # after @ CHR '','' # name) =
      before # after # split_on (CHR '','') name"
    using assms(4,5) by (simp add: split_on_append)
  ultimately have names: "\<exists>rest. wx_Tokenize wx (namesStringLoop [before @ '','' @ after, name] 2) = before # after # rest"
    using assms(1) by (simp add: text_laws_def)
  have valid: "wx_ToULong wx (wx_fmtu wx a) = Some (unat a)" "wx_ToULong wx (wx_fmtu wx b) = Some (unat b)"
    using assms(1-3) by (simp_all add: text_laws_def)
  from names obtain rest where rest: "wx_Tokenize wx (namesStringLoop [before @ '','' @ after, name] 2) = before # after # rest" ..
  from valid assms(2,3) show ?thesis
    unfolding toks rest by (simp add: loadEntries_def loadEntry_def)
qed

theorem comma_in_name_shifts_names_witness:
  "loadEntries demo_wx (wx_Tokenize demo_wx (mmsiStringLoop demo_wx [] [227000000, 227000001]))
     (wx_Tokenize demo_wx (namesStringLoop [''A,B'', ''C''] 2)) = ([227000000, 227000001], [''A'', ''B''])"
  using comma_in_name_shifts_names [OF demo_text_laws, of 227000000 227000001 "''A''" "''B''" "''C''"]
  by (simp add: validMmsi_def)

section \<open>The search area\<close>

text \<open>C25. In every reachable state the search box is between nothing and the largest size the slider
  allows, which is 20 degrees at most.\<close>

theorem box_size_bounded:
  assumes "app_reachable wx js api (plugin_new c) p" and "trim_law wx" and "mmsi_text_law wx"
    and "myGUI p = Some w"
  shows "0 \<le> m_searchBoxSize w \<and> m_searchBoxSize w \<le> of_int (snd (w_sliderRange w)) \<and>
         fst (w_sliderRange w) = 0 \<and> snd (w_sliderRange w) \<in> {10, 20} \<and>
         0 \<le> w_sliderValue w \<and> w_sliderValue w \<le> snd (w_sliderRange w)"
proof -
  from app_reachable_inv [OF assms(1-3) plugin_new_inv] assms(4)
  have "box_ok w" by (auto simp: app_inv_def window_ok_def gui_ok_def)
  then show ?thesis by (simp add: box_ok_def)
qed

theorem box_size_bounded_witness:
  "0 \<le> m_searchBoxSize demo_window \<and> m_searchBoxSize demo_window \<le> 20"
  using box_size_bounded [OF demo_open_reachable demo_trim_law demo_mmsi_text_law demo_open_facts(1)]
  by auto

text \<open>The slider sets the box: after a release at \<open>v\<close> the box is \<open>v\<close> degrees and the label says so. But
  a move by keys or by a click beside the thumb only changes the label: the box searched and the
  running stream stay what they were, so label and box disagree.\<close>

theorem slider_release_and_scroll:
  assumes "box_ok w" and "0 \<le> v" and "v \<le> (if HasToken wx g then 20 else 10)"
  shows "(let w' = OnScrollThumbRelease wx js g (w\<lparr>w_sliderValue := v\<rparr>) in
            m_searchBoxSize w' = of_int v \<and> w_sliderValue w' = v \<and>
            w_searchBoxSize w' = boxSizeLabel wx (of_int v)) \<and>
         (let w' = OnScroll wx (w\<lparr>w_sliderValue := v\<rparr>) in
            m_searchBoxSize w' = m_searchBoxSize w \<and> w_sessions w' = w_sessions w \<and>
            m_aisStream w' = m_aisStream w \<and> w_searchBoxSize w' = boxSizeLabel wx (of_int v))"
proof -
  have "clamp (of_int v) 0 (of_int (maxBoxSize wx g)) = of_int v"
    using assms(2,3) by (intro clamp_id) (simp_all add: maxBoxSize_def split: if_splits)
  then show ?thesis
    using assms(2)
    by (simp add: OnScrollThumbRelease_def updateSearchBoxSize_def OnScroll_def Let_def cast_int_def)
qed

theorem slider_release_and_scroll_witness:
  "m_searchBoxSize (OnScrollThumbRelease demo_wx demo_js settings_init (demo_window\<lparr>w_sliderValue := 5\<rparr>)) = 5 \<and>
   m_searchBoxSize (OnScroll demo_wx (demo_window\<lparr>w_sliderValue := 5\<rparr>)) = m_searchBoxSize demo_window"
  using slider_release_and_scroll [OF gui_okD(2) [OF demo_open_ok], of 5 demo_wx settings_init demo_js]
  by (simp add: Let_def split: if_splits)

text \<open>C26. In follow mode every fix leaves the boat inside the latitudes of the search box, wherever it
  was before, at every latitude and box size: the search point is moved as soon as the boat is
  a threshold away, and the threshold never exceeds half the box.\<close>

theorem boat_stays_in_box_latitudes:
  assumes "m_followBoatMode w" and "m_searchBoxSize w > 0"
    and "validLatitude lat" and "validLatitude (m_searchLatitude w)"
  shows "let w' = updateBoatPosition wx js g lat lon w in
           m_boatLatitude w' = lat \<and> \<bar>lat - m_searchLatitude w'\<bar> \<le> m_searchBoxSize w' / 2"
proof -
  define w1 where "w1 = firstFix wx js g lat lon (w\<lparr>m_boatLatitude := lat, m_boatLongitude := lon\<rparr>)"
  define w2 where "w2 = followBoat wx js g w1"
  have run: "updateBoatPosition wx js g lat lon w = w2"
    by (simp add: updateBoatPosition_def w2_def w1_def)
  have w1: "m_followBoatMode w1" "m_searchBoxSize w1 = m_searchBoxSize w" "m_boatLatitude w1 = lat"
    "validLatitude (m_searchLatitude w1)"
    using assms by (simp_all add: w1_def) (simp add: firstFix_def)
  have w2: "m_searchBoxSize w2 = m_searchBoxSize w" "m_boatLatitude w2 = lat"
    by (simp_all add: w2_def w1)
  have "\<bar>lat - m_searchLatitude w2\<bar> \<le> m_searchBoxSize w / 2"
    using followBoat_near [OF w1(1) _ w2_def] assms(2,3) w1
      near_in_latitude_band [of "m_searchLatitude w1" lat "m_searchBoxSize w" "m_searchLongitude w1" "m_boatLongitude w1"]
    by auto
  then show ?thesis by (simp add: run w2)
qed

theorem boat_stays_in_box_latitudes_witness:
  "let w' = updateBoatPosition demo_wx demo_js settings_init 48 (-4) (main_gui_base demo_wx) in
     m_boatLatitude w' = 48 \<and> \<bar>48 - m_searchLatitude w'\<bar> \<le> m_searchBoxSize w' / 2"
  by (rule boat_stays_in_box_latitudes) (simp_all add: main_gui_base_def validLatitude_def)

text \<open>The distance does not depend on the order of the points nor on the turn in which a longitude
  is given, so following works across the date line; and it is never less than the distance
  between the two parallels.\<close>

theorem distance_across_date_line:
  "GreatCircleDistanceNm lat1 lon1 lat2 lon2 = GreatCircleDistanceNm lat2 lon2 lat1 lon1 \<and>
   GreatCircleDistanceNm lat1 lon1 lat2 (lon2 + 360) = GreatCircleDistanceNm lat1 lon1 lat2 lon2 \<and>
   (if validLatitude lat1 \<and> validLatitude lat2
    then kEarthRadiusNm * DegToRad \<bar>lat2 - lat1\<bar> \<le> GreatCircleDistanceNm lat1 lon1 lat2 lon2 else True)"
  using distance_ge_latitude [of lat1 lat2 lon1 lon2]
  by (simp add: GreatCircleDistanceNm_def haversine_sym [of lat2] haversine_turn Let_def)

end
