(* ===== verification/AisDelivery.thy ===== *)
theory AisDelivery
  imports AisSessionProperties AisPluginProperties IxDemo
begin

text \<open>
  Both directions from end to end. From the service to OpenCPN: what the server of the library sends
  in one text message is put together by the transport, reaches the message callback, passes the
  filter of the client, is posted to the window and pushed on by the event loop. To the service: a
  start opens the connection, and the server reads the subscribe message.
\<close>

section \<open>Posting\<close>

text \<open>
  The two callbacks that the window gives to the client: each posts a call to the window, which the
  event loop runs. They are called on the thread of the stream.
\<close>

fun postEffect :: "ais_effect \<Rightarrow> 'c plugin \<Rightarrow> 'c plugin" where
  "postEffect (StateReport st detail) p = postPending (PendingState st detail) p"
| "postEffect (SentenceOut sentence) p = postPending (PendingSentence sentence) p"

lemma postEffect_window:
  assumes "myGUI p = Some v"
  shows "\<exists>v'. myGUI (postEffect e p) = Some v' \<and> nmeaPushed (postEffect e p) = nmeaPushed p \<and>
           w_pending v' = w_pending v @ [case e of StateReport st d \<Rightarrow> PendingState st d | SentenceOut s \<Rightarrow> PendingSentence s]"
  using assms by (cases e) (simp_all add: postPending_def)

lemma post_sentences:
  assumes "myGUI p = Some v"
  shows "\<exists>v'. myGUI (fold postEffect (map SentenceOut ss) p) = Some v' \<and>
           nmeaPushed (fold postEffect (map SentenceOut ss) p) = nmeaPushed p \<and>
           w_pending v' = w_pending v @ map PendingSentence ss"
  using assms
proof (induction ss arbitrary: p v)
  case (Cons s ss)
  from postEffect_window [OF Cons.prems, of "SentenceOut s"] obtain v1 where
    "myGUI (postEffect (SentenceOut s) p) = Some v1" "nmeaPushed (postEffect (SentenceOut s) p) = nmeaPushed p"
    "w_pending v1 = w_pending v @ [PendingSentence s]" by auto
  with Cons.IH [of "postEffect (SentenceOut s) p" v1] show ?case by simp
qed simp

lemma push_posted:
  assumes "myGUI p = Some v" and "w_pending v = []"
  shows "nmeaPushed ((dispatchPending wx ^^ length ss) (fold postEffect (map SentenceOut ss) p)) = nmeaPushed p @ ss"
proof -
  from post_sentences [OF assms(1), of ss] obtain v' where
    v': "myGUI (fold postEffect (map SentenceOut ss) p) = Some v'"
      "nmeaPushed (fold postEffect (map SentenceOut ss) p) = nmeaPushed p" "w_pending v' = map PendingSentence ss"
    using assms(2) by auto
  have "List.map_filter (\<lambda>q. case q of PendingSentence s \<Rightarrow> Some s | _ \<Rightarrow> None) (map PendingSentence ss) = ss"
    by (induction ss) (simp_all add: map_filter_simps)
  with sentences_pushed_in_order [OF v'(1), of wx] v' show ?thesis by simp
qed

section \<open>Delivering\<close>

text \<open>The frames of a message but the last are announced as fragments, on which the callback does nothing.\<close>

lemma fragments_ignored:
  assumes "lv_todo s = map toMessage (replicate k (OutMessage [] 0 False FRAGMENT)) @ ms"
    and "sup (lv_client s) = SupRun" and "\<not> terminated (lv_client s)"
  shows "live_run nt wx js s (replicate k LiveCallback) = Some (s\<lparr>lv_todo := ms\<rparr>)"
  using assms
proof (induction k arbitrary: s)
  case 0
  then show ?case by simp
next
  case (Suc k)
  define rest where "rest = map toMessage (replicate k (OutMessage [] 0 False FRAGMENT)) @ ms"
  from Suc.prems have "live_step nt wx js s LiveCallback = Some (s\<lparr>lv_todo := rest\<rparr>)"
    by (simp add: liveCallback_def ais_step_def messageEvent.simps rest_def)
  with Suc.IH [of "s\<lparr>lv_todo := rest\<rparr>"] Suc.prems show ?case by (simp add: rest_def)
qed

lemma handle_event:
  assumes "\<And>x. js_isString js x \<Longrightarrow> \<exists>str. js_asString js x = Inr str"
    and "js_parse js payload = Some ev" and "hasType js ev ''error'' = Inr False"
    and "hasType js ev ''event'' = Inr True" and "nmeaArray js ev = Inr (Some arr)" and "m_onSentence cl"
  shows "HandleMessage wx js cl payload = (map SentenceOut (sentencesOf wx js (js_elems js arr)), Inr False)"
  using assms by (simp add: HandleMessage_def ProcessAisEvent_def sendSentences_reference)

text \<open>C3. The AIVDM sentences of an event reach OpenCPN: when the server's send of a text message succeeded and
  a poll of the client brings in what was sent, then one turn of the run loop and one callback for
  every frame make the client pass on exactly the AIVDM sentences of the event, each with its line
  end; and when the window posts these and the event loop has run as many calls, OpenCPN has been
  given them all, in order, once. Nothing is reported meanwhile.\<close>

theorem sentences_reach_opencpn:
  assumes "send_law sv wire" and "si_success (fst (sendData sv TEXT_FRAME msg False t))" and "handed wire t = []"
    and "length msg < 2 ^ 63" and "validateUtf8 msg"
    and "sup (lv_client s) = SupRun" and "\<not> terminated (lv_client s)" and "lv_pc s = RunPoll" and "lv_todo s = []"
    and "lv_socket s = Some w" and "poll (nt_sock nt) (ws_transport w) = Some (Succeeded, r)"
    and "t_rxbuf r = handed wire (snd (sendData sv TEXT_FRAME msg False t))"
    and "t_chunks r = []" and "\<not> t_enablePerMessageDeflate r" and "t_out r = []"
    and "\<And>x. js_isString js x \<Longrightarrow> \<exists>str. js_asString js x = Inr str"
    and "js_parse js (chars_of msg) = Some ev" and "hasType js ev ''error'' = Inr False"
    and "hasType js ev ''event'' = Inr True" and "nmeaArray js ev = Inr (Some arr)" and "m_onSentence (client (lv_client s))"
    and "myGUI p = Some v" and "w_pending v = []"
  shows "\<exists>s' effs. live_run nt wx js s (LiveRun # replicate (max 1 (length msg div kChunkSize)) LiveCallback) = Some s' \<and>
           lv_todo s' = [] \<and> log (lv_client s') = log (lv_client s) @ effs \<and> reports (lv_client s') = reports (lv_client s) \<and>
           nmeaPushed ((dispatchPending wx ^^ length effs) (fold postEffect effs p)) =
             nmeaPushed p @ sentencesOf wx js (js_elems js arr)"
proof -
  define ss where "ss = sentencesOf wx js (js_elems js arr)"
  define k where "k = max 1 (length msg div kChunkSize) - 1"
  have k: "max 1 (length msg div kChunkSize) = Suc k" by (simp add: k_def)
  define whole where "whole = toMessage (OutMessage msg (length msg) False MSG_TEXT)"
  define frags where "frags = map toMessage (replicate k (OutMessage [] 0 False FRAGMENT))"
  define w1 where "w1 = deliver (dispatch (nt_sock nt) Succeeded r) w"
  have "t_out (dispatch (nt_sock nt) Succeeded r) =
      replicate k (OutMessage [] 0 False FRAGMENT) @ [OutMessage msg (length msg) False MSG_TEXT]"
    using dispatch_sent [OF assms(1-4) _ _ assms(13,14,12), of "nt_sock nt"] assms(5,15)
    by (simp add: messageOutput_def kindOf_def k_def)
  then have new: "newMessages w w1 = frags @ [whole]"
    by (simp add: newMessages_def w1_def deliver_events frags_def whole_def)
  define s1 where "s1 = s\<lparr>lv_socket := Some w1, lv_pc := RunCheck False, lv_todo := frags @ [whole]\<rparr>"
  have s1: "live_step nt wx js s LiveRun = Some s1"
    using assms(6-11) new by (simp add: liveRun_def s1_def w1_def)
  define s2 where "s2 = s1\<lparr>lv_todo := [whole]\<rparr>"
  have s2: "live_run nt wx js s1 (replicate k LiveCallback) = Some s2"
    using fragments_ignored [of s1 k "[whole]" nt wx js] assms(6,7) by (simp add: s1_def s2_def frags_def)
  define c where "c = (lv_client s)\<lparr>log := log (lv_client s) @ map SentenceOut ss\<rparr>"
  have handle: "HandleMessage wx js cl (chars_of msg) = (map SentenceOut ss, Inr False)" if "m_onSentence cl" for cl
    using handle_event [OF assms(16-20) that] by (simp add: ss_def)
  have "onMessage wx js (chars_of msg) (lv_client s) = c"
    using handle [OF assms(21)] handle [of "SetStateCallback True (client (lv_client s))"] assms(21)
    by (simp add: onMessage_def c_def SetStateCallback_def)
  then have s3: "live_step nt wx js s2 LiveCallback = Some (s2\<lparr>lv_client := c, lv_todo := []\<rparr>)"
    using assms(6,7) by (simp add: liveCallback_def s2_def s1_def ais_step_def messageEvent.simps whole_def)
  have "live_run nt wx js s (LiveRun # replicate k LiveCallback @ [LiveCallback]) = Some (s2\<lparr>lv_client := c, lv_todo := []\<rparr>)"
    using s1 s2 s3 by (simp add: live_run_append)
  moreover have "LiveRun # replicate k LiveCallback @ [LiveCallback] = LiveRun # replicate (Suc k) LiveCallback"
    by (simp add: replicate_append_same)
  ultimately have "live_run nt wx js s (LiveRun # replicate (Suc k) LiveCallback) = Some (s2\<lparr>lv_client := c, lv_todo := []\<rparr>)"
    by metis
  moreover have "nmeaPushed ((dispatchPending wx ^^ length (map SentenceOut ss)) (fold postEffect (map SentenceOut ss) p)) =
      nmeaPushed p @ ss" using push_posted [OF assms(22,23), where ss = ss and wx = wx] by simp
  ultimately show ?thesis
    unfolding k ss_def [symmetric]
    by (intro exI [of _ "s2\<lparr>lv_client := c, lv_todo := []\<rparr>"] exI [of _ "map SentenceOut ss"]) (simp add: c_def)
qed

definition delivered :: "byte list" where
  "delivered = handed (\<lambda>k. k) (snd (sendData demo_socket TEXT_FRAME (bytes_of demo_event_frame) False
                  (demo_connection\<lparr>t_useMask := False\<rparr>)))"

lemma delivered_frame: "delivered = [0x81, 1, 0x56]"
proof -
  have "length (bytes_of demo_event_frame) < kChunkSize" by (simp add: demo_event_frame_def bytes_of_def kChunkSize_def)
  with handed_sendData_small [OF demo_send_law, of "demo_connection\<lparr>t_useMask := False\<rparr>" "bytes_of demo_event_frame" TEXT_FRAME]
  have "delivered = frameBytes False (maskingKey 0x01020304) TEXT_FRAME True False (bytes_of demo_event_frame)"
    by (simp add: delivered_def handed_def)
  also have "\<dots> = [0x81, 1, 0x56]" by code_simp
  finally show ?thesis .
qed

text \<open>They are what the demo system has received for a client that is connected; no message is posted to its window.\<close>

definition demo_receiver :: "kernel sockets websocket" where
  "demo_receiver = (let w = websocket_init (nt_sock (kernel_net (\<lambda>m. True))) (tlsSocket, kernel_init delivered)
     in w\<lparr>ws_transport := setReadyState (nt_sock (kernel_net (\<lambda>m. True))) OPEN (ws_transport w)\<rparr>)"

definition demo_read :: "kernel sockets" where
  "demo_read = (tlsSocket, (kernel_init [])\<lparr>kn_errno := EWOULDBLOCK\<rparr>)"

lemma demo_receiver_poll:
  "poll (nt_sock (kernel_net (\<lambda>m. True))) (ws_transport demo_receiver) =
     Some (Succeeded, (ws_transport demo_receiver)\<lparr>t_socket := demo_read, t_rxbuf := delivered\<rparr>)"
proof -
  define sk where "sk = nt_sock (kernel_net (\<lambda>m. True))"
  define t where "t = ws_transport demo_receiver"
  have t: "t_readyState t = OPEN" "t_rxbuf t = []" "t_rxbufWanted t = 0" "t_socket t = (tlsSocket, kernel_init delivered)"
    "t_pingIntervalSecs t = - 1"
    by (simp_all add: t_def demo_receiver_def Let_def websocket_init_def transport_init_def setReadyState_def)
  have sk: "sk_recv sk kChunkSize (tlsSocket, kernel_init delivered) = (Inr delivered, (tlsSocket, kernel_init []))"
    "sk_recv sk kChunkSize (tlsSocket, kernel_init []) = (Inl (- 1), demo_read)" "sk_isWaitNeeded sk demo_read"
    "sk_isReadyToRead sk ms (tlsSocket, kernel_init delivered) = Some (PollReadyForRead, (tlsSocket, kernel_init delivered))" for ms
    by (simp_all add: sk_def kernel_recv kernel_poll demo_read_def delivered_frame kChunkSize_def isWaitNeeded_def kernel_init_def)
  have same: "t\<lparr>t_socket := (tlsSocket, kernel_init delivered)\<rparr> = t" using t(4) by simp
  have "receiveFromSocket sk t = receiveFromSocket sk (t\<lparr>t_socket := (tlsSocket, kernel_init []), t_rxbuf := delivered\<rparr>)"
    using t sk by (subst receiveFromSocket.simps) (simp add: delivered_frame kChunkSize_def)
  also have "\<dots> = Some (True, t\<lparr>t_socket := demo_read, t_rxbuf := delivered\<rparr>)"
    using t sk by (subst receiveFromSocket.simps) (simp add: delivered_frame kChunkSize_def)
  finally show ?thesis unfolding sk_def [symmetric] t_def [symmetric]
    using t sk by (simp add: poll_def heartBeatStep_def pingIntervalExceeded_def same closingStep_def)
qed

theorem sentences_reach_opencpn_witness:
  "\<exists>s' effs. live_run (kernel_net (\<lambda>m. True)) demo_wx demo_js
       \<lparr>lv_client = demo_run demo_reporting, lv_socket = Some demo_receiver, lv_pc = RunPoll, lv_todo = []\<rparr>
       [LiveRun, LiveCallback] = Some s' \<and> log (lv_client s') = log (demo_run demo_reporting) @ effs \<and>
     nmeaPushed ((dispatchPending demo_wx ^^ length effs) (fold postEffect effs
       (demo_open\<lparr>myGUI := Some (demo_window\<lparr>w_pending := []\<rparr>)\<rparr>))) = nmeaPushed demo_open @ [''!AIVDM,1'' @ crlf]"
proof -
  let ?s = "\<lparr>lv_client = demo_run demo_reporting, lv_socket = Some demo_receiver, lv_pc = RunPoll, lv_todo = []\<rparr>"
  let ?ev = "the (jv_parse demo_event_frame)"
  let ?arr = "JArr [JStr ''!AIVDM,1'', JNull, JStr ''$GPGGA'']"
  let ?t = "demo_connection\<lparr>t_useMask := False\<rparr>"
  let ?r = "(ws_transport demo_receiver)\<lparr>t_socket := demo_read, t_rxbuf := delivered\<rparr>"
  have len: "length (bytes_of demo_event_frame) = 1" by (simp add: demo_event_frame_def bytes_of_def)
  have sent: "si_success (fst (sendData demo_socket TEXT_FRAME (bytes_of demo_event_frame) False ?t))"
    by (rule sendData_demo) (simp_all add: len kChunkSize_def)
  have none: "handed (\<lambda>k. k) ?t = []" by (simp add: handed_def)
  have utf8: "validateUtf8 (bytes_of demo_event_frame)" by code_simp
  have r: "t_rxbuf ?r = delivered" "t_chunks ?r = []" "\<not> t_enablePerMessageDeflate ?r" "t_out ?r = []"
    by (simp_all add: demo_receiver_def Let_def websocket_init_def transport_init_def setReadyState_def)
  have str: "js_isString demo_js v \<Longrightarrow> \<exists>s. js_asString demo_js v = Inr s" for v
    by (cases v) (simp_all add: demo_js_def)
  have chars: "chars_of (bytes_of demo_event_frame) = demo_event_frame" by code_simp
  have js: "js_parse demo_js demo_event_frame = Some ?ev" "hasType demo_js ?ev ''error'' = Inr False"
    "hasType demo_js ?ev ''event'' = Inr True" "nmeaArray demo_js ?ev = Inr (Some ?arr)"
    by (simp_all add: message_defs demo_defs)
  have kept: "sentencesOf demo_wx demo_js (js_elems demo_js ?arr) = [''!AIVDM,1'' @ crlf]"
    by (simp add: sentencesOf_def message_defs demo_js_def demo_wx_def map_filter_simps crlf_def suffix_def)
  note c = demo_reporting_run
  from sentences_reach_opencpn [OF demo_send_law sent none _ utf8, of ?s demo_receiver "kernel_net (\<lambda>m. True)" ?r demo_js ?ev ?arr
      "demo_open\<lparr>myGUI := Some (demo_window\<lparr>w_pending := []\<rparr>)\<rparr>" "demo_window\<lparr>w_pending := []\<rparr>" demo_wx]
    demo_receiver_poll r str js c len kept delivered_def [symmetric]
  show ?thesis by (simp add: chars kChunkSize_def del: live_run.simps) blast
qed

section \<open>Subscribing\<close>

text \<open>From a start to the beginning of \<open>run()\<close>: the socket is set up and \<open>Connecting\<close> reported.\<close>

lemma start_run:
  assumes "live_reachable nt wx js s" and "\<not> terminated (lv_client s)" and "caller (lv_client s) = CallerIdle"
    and "\<not> m_streaming (client (lv_client s))" and "tokenReady (client (lv_client s))"
  shows "\<exists>s1. live_run nt wx js s [LiveStart a, LiveSup k, LiveSup k] = Some s1 \<and> sup (lv_client s1) = SupRun \<and>
           \<not> terminated (lv_client s1) \<and> lv_pc s1 = RunCheck True \<and> lv_todo s1 = [] \<and>
           lv_socket s1 = Some (sessionSocket (nt_sock nt) k (makeSocket (authToken (lv_client s1)))) \<and>
           subscribeMsg (lv_client s1) = fst (threadArgs js a (client (lv_client s))) \<and>
           authToken (lv_client s1) = snd (threadArgs js a (client (lv_client s))) \<and>
           reports (lv_client s1) = reports (lv_client s) @ [(Connecting, [])]"
proof -
  have none: "sup (lv_client s) = SupNone"
    using live_reachable_sys_inv [OF assms(1)] assms(3,4) by (simp add: sys_inv_def threads_inv_def)
  define c where "c = (lv_client s)\<lparr>client := (client (lv_client s))\<lparr>m_onSentence := sa_onSentence a, m_streaming := True\<rparr>,
    sup := SupLoop, backoffSeconds := kInitialBackoffSeconds, subscribeMsg := fst (threadArgs js a (client (lv_client s))),
    authToken := snd (threadArgs js a (client (lv_client s)))\<rparr>"
  have "Start js a (lv_client s) = Some c"
    using assms(4,5) none by (auto simp: Start_def clientStart_def tokenReady_def c_def split: prod.split)
  then have "live_step nt wx js s (LiveStart a) = Some (s\<lparr>lv_client := c\<rparr>)"
    using assms(2,3) by (simp add: liveCall_def ais_step_def)
  moreover have "sup c = SupLoop" "m_streaming (client c)" "\<not> terminated c"
    "subscribeMsg c = fst (threadArgs js a (client (lv_client s)))"
    "authToken c = snd (threadArgs js a (client (lv_client s)))" "reports c = reports (lv_client s)"
    using assms(2) by (simp_all add: c_def)
  ultimately show ?thesis by (simp add: liveSup_def ais_step_def supLoop_def supPublish_def)
qed

text \<open>From there to the open connection, on a connection that stays up: the subscribe message is sent.\<close>

lemma run_subscribes:
  assumes "live_inv s" and "sup (lv_client s) = SupRun" and "\<not> terminated (lv_client s)" and "lv_pc s = RunCheck True"
    and "lv_todo s = []" and "lv_socket s = Some (sessionSocket (nt_sock nt) k (makeSocket (authToken (lv_client s))))"
    and "serves nt (sessionHeader (authToken (lv_client s))) k up" and "healthy (nt_sock nt) up"
    and "bytes_of (subscribeMsg (lv_client s)) = msg" and "validateUtf8 msg"
  obtains s1 w1 w' where "live_step nt wx js s LiveRun = Some s1" and "lv_socket s1 = Some w1" and "lv_client s1 = lv_client s"
    and "live_step nt wx js s1 LiveCallback =
           Some (s1\<lparr>lv_client := onOpen False (lv_client s), lv_socket := Some w', lv_todo := []\<rparr>)"
    and "isConnected w'" and "si_success (fst (sendData (nt_sock nt) TEXT_FRAME msg False (ws_transport w1)))"
    and "ws_transport w' = (snd (sendData (nt_sock nt) TEXT_FRAME msg False (ws_transport w1)))\<lparr>t_out := []\<rparr>"
proof -
  define w where "w = sessionSocket (nt_sock nt) k (makeSocket (authToken (lv_client s)))"
  obtain r w1 where conn: "wsConnect (nt_sock nt) (connectToUrl nt) (ws_handshakeTimeoutSecs w) w = Some (r, w1)" "in_success r"
    and w1: "fresh (ws_transport w1)" "up (t_socket (ws_transport w1))"
    using serves_connects [of nt w up] assms(7) by (auto simp: w_def)
  then have alive: "alive (nt_sock nt) up (ws_transport w1)" using assms(8) by (simp add: alive_def)
  define s1 where "s1 = s\<lparr>lv_socket := Some w1, lv_pc := RunPoll, lv_todo := [openMessage r]\<rparr>"
  note c = live_connect [OF assms(1-6) [folded w_def] conn, folded s1_def]
  have s1: "sup (lv_client s1) = SupRun" "\<not> terminated (lv_client s1)" "lv_pc s1 = RunPoll" "lv_todo s1 = [openMessage r]"
    "wm_type (openMessage r) = MtOpen" "lv_socket s1 = Some w1" "validateUtf8 (bytes_of (subscribeMsg (lv_client s1)))"
    using assms(2,3,9,10) by (simp_all add: s1_def openMessage_def)
  have "cs (snd (sendData (nt_sock nt) TEXT_FRAME m False (ws_transport w1))) = cs (ws_transport w1)" for m
    using alive by (intro cs_sendData(1) [where up = up]) simp
  from live_subscribe [OF s1(1-6) c(2,3) w1(1) s1(7) this, of wx js] obtain w' where
    "live_step nt wx js s1 LiveCallback = Some (s1\<lparr>lv_client := onOpen False (lv_client s), lv_socket := Some w', lv_todo := []\<rparr>)"
      "idle w'" "ws_transport w' = (snd (sendData (nt_sock nt) TEXT_FRAME msg False (ws_transport w1)))\<lparr>t_out := []\<rparr>"
    using assms(9) by (auto simp: s1_def)
  moreover have "si_success (fst (sendData (nt_sock nt) TEXT_FRAME msg False (ws_transport w1)))"
    using c(3) by (intro alive_sendData [OF alive]) (simp add: isConnected_def)
  ultimately show ?thesis using c(1) s1(6) by (intro that [of s1 w1 w']) (simp_all add: s1_def idle_def)
qed

text \<open>C2. A start subscribes: from any state in which no stream runs and the token is not missing, on a network
  on which the service is reached and the connection stays up, the start, two steps of the supervisor, one turn of
  the run loop and the callback of the opening leave the connection open, with \<open>Connecting\<close> and then \<open>Running\<close>
  reported; and what the system was given to send after the handshake is, for the server that receives it, one
  text message: the subscribe message for the arguments of the start.\<close>

theorem start_subscribes:
  assumes "live_reachable nt wx js s" and "\<not> terminated (lv_client s)" and "caller (lv_client s) = CallerIdle"
    and "\<not> m_streaming (client (lv_client s))" and "tokenReady (client (lv_client s))"
    and "serves nt (sessionHeader (snd (threadArgs js a (client (lv_client s))))) k (quietSocket sock Q queue)"
    and "quiet_system os sock Q queue" and "takes_reported os taken" and "nt = socket_net os ua"
    and "msg = bytes_of (BuildSubscribeMessage js (client (lv_client s)) (sa_latitude a) (sa_longitude a) (sa_boxSizeDegrees a)
           (sa_activateVesselsFollowing a) (sa_mmsiList a) (sa_snapshot a))"
    and "validateUtf8 msg" and "length msg < 2 ^ 63"
  shows "\<exists>s1 w1 s' w' sent. live_run nt wx js s [LiveStart a, LiveSup k, LiveSup k, LiveRun] = Some s1 \<and>
           lv_socket s1 = Some w1 \<and> live_step nt wx js s1 LiveCallback = Some s' \<and> lv_socket s' = Some w' \<and> isConnected w' \<and>
           reports (lv_client s') = reports (lv_client s) @ [(Connecting, []), (Running, [])] \<and>
           handed (\<lambda>k. taken (snd k)) (ws_transport w') = handed (\<lambda>k. taken (snd k)) (ws_transport w1) @ sent \<and>
           (\<forall>sv (r :: 'm transport). t_chunks r = [] \<longrightarrow> \<not> t_enablePerMessageDeflate r \<longrightarrow> t_rxbuf r = sent \<longrightarrow>
              t_out (dispatch sv Succeeded r) =
                t_out r @ replicate (max 1 (length msg div kChunkSize) - 1) (OutMessage [] 0 False FRAGMENT) @
                [OutMessage msg (length msg) False MSG_TEXT])"
proof -
  define up where "up = quietSocket sock Q queue"
  define wire where "wire = (\<lambda>k :: 'a sockets. taken (snd k))"
  have up: "healthy (nt_sock nt) up" and law: "send_law (nt_sock nt) wire"
    using quiet_socket_peer_silent [OF assms(7)] socket_send_law [OF assms(8)] assms(9)
    by (simp_all add: peer_silent_def up_def wire_def)
  obtain s0 where run: "live_run nt wx js s [LiveStart a, LiveSup k, LiveSup k] = Some s0"
    and s0: "sup (lv_client s0) = SupRun" "\<not> terminated (lv_client s0)" "lv_pc s0 = RunCheck True" "lv_todo s0 = []"
      "lv_socket s0 = Some (sessionSocket (nt_sock nt) k (makeSocket (authToken (lv_client s0))))"
    and c0: "bytes_of (subscribeMsg (lv_client s0)) = msg"
      "authToken (lv_client s0) = snd (threadArgs js a (client (lv_client s)))" "reports (lv_client s0) = reports (lv_client s) @ [(Connecting, [])]"
    using start_run [OF assms(1-5), of a k] assms(10) by (auto simp: threadArgs_def simp del: live_run.simps)
  have inv: "live_inv s0" by (rule live_reachable_inv [OF live_reachable_run [OF assms(1) run]])
  have serves: "serves nt (sessionHeader (authToken (lv_client s0))) k up" using assms(6) c0(2) by (simp add: up_def)
  obtain s1 w1 w' where s1: "live_step nt wx js s0 LiveRun = Some s1" "lv_socket s1 = Some w1" "lv_client s1 = lv_client s0"
    and s': "live_step nt wx js s1 LiveCallback = Some (s1\<lparr>lv_client := onOpen False (lv_client s0), lv_socket := Some w', lv_todo := []\<rparr>)"
      "isConnected w'" and ok: "si_success (fst (sendData (nt_sock nt) TEXT_FRAME msg False (ws_transport w1)))"
    and t: "ws_transport w' = (snd (sendData (nt_sock nt) TEXT_FRAME msg False (ws_transport w1)))\<lparr>t_out := []\<rparr>"
    by (rule run_subscribes [OF inv s0 serves up c0(1) assms(11)])
  obtain sent where sent: "handed wire (snd (sendData (nt_sock nt) TEXT_FRAME msg False (ws_transport w1))) =
      handed wire (ws_transport w1) @ sent"
    and arrives: "\<And>sv (r :: 'm transport). t_chunks r = [] \<Longrightarrow> \<not> t_enablePerMessageDeflate r \<Longrightarrow> t_rxbuf r = sent \<Longrightarrow>
      t_rxbuf (dispatch sv Succeeded r) = [] \<and> t_readyState (dispatch sv Succeeded r) = t_readyState r \<and>
      t_out (dispatch sv Succeeded r) = t_out r @ messageOutput (max 1 (length msg div kChunkSize)) msg (kindOf TEXT_FRAME)"
    using dispatch_handed [OF law ok assms(12), where ?'m = 'm] assms(11) by blast
  have "reports (onOpen False (lv_client s0)) = reports (lv_client s) @ [(Connecting, []), (Running, [])]"
    using c0(3) by (simp add: onOpen_def Let_def split: option.split)
  moreover have "live_run nt wx js s ([LiveStart a, LiveSup k, LiveSup k] @ [LiveRun]) = Some s1"
    unfolding live_run_append run using s1(1) by simp
  ultimately show ?thesis unfolding wire_def [symmetric]
    using s1(2) s' t sent arrives
    by (intro exI [of _ s1] exI [of _ w1] exI [of _ w'] exI [of _ sent]
        exI [of _ "s1\<lparr>lv_client := onOpen False (lv_client s0), lv_socket := Some w', lv_todo := []\<rparr>"])
       (simp_all add: handed_def messageOutput_def kindOf_def)
qed

lemma demo_subscribe: "BuildSubscribeMessage demo_js cl lat lon sz following mmsis snapshot = ''{}''"
  by (simp add: demo_js_def BuildSubscribeMessage_def) code_simp

theorem start_subscribes_witness:
  "\<exists>s1 s' sent. live_run (kernel_net (\<lambda>m. True)) demo_wx demo_js live_init
       [LiveStart demo_args, LiveSup (no_socket serverAnswer), LiveSup (no_socket serverAnswer), LiveRun] = Some s1 \<and>
     live_step (kernel_net (\<lambda>m. True)) demo_wx demo_js s1 LiveCallback = Some s' \<and>
     reports (lv_client s') = [(Connecting, []), (Running, [])] \<and>
     t_out (dispatch demo_socket Succeeded (demo_connection\<lparr>t_rxbuf := sent\<rparr>)) = [OutMessage (bytes_of ''{}'') 2 False MSG_TEXT]"
proof -
  define nt where "nt = kernel_net (\<lambda>m. True)"
  have serves: "serves nt hs (no_socket serverAnswer) (quietSocket tlsSocket (\<lambda>e. kn_unread e = []) kn_queue)" for hs
    unfolding nt_def by (rule serves_quiet)
  have c: "\<not> terminated (lv_client (live_init :: kernel sockets live_sys))" "caller (lv_client (live_init :: kernel sockets live_sys)) = CallerIdle"
    "\<not> m_streaming (client (lv_client (live_init :: kernel sockets live_sys)))"
    "tokenReady (client (lv_client (live_init :: kernel sockets live_sys)))" "reports (lv_client (live_init :: kernel sockets live_sys)) = []"
    by (simp_all add: live_init_def ais_sys_init_def ais_client_init_def tokenReady_def)
  define msg where "msg = bytes_of ''{}''"
  have msg: "msg = bytes_of (BuildSubscribeMessage demo_js cl lat lon sz following mmsis snapshot)" "validateUtf8 msg"
    "length msg = 2" for cl lat lon sz following mmsis snapshot
    using demo_text by (simp_all add: msg_def demo_subscribe) (simp add: bytes_of_def)
  have "length msg < 2 ^ 63" using msg(3) by simp
  note laws = kernel_quiet kernel_takes_reported nt_def [unfolded kernel_net_def]
  obtain s1 s' sent where s: "live_run nt demo_wx demo_js live_init
       [LiveStart demo_args, LiveSup (no_socket serverAnswer), LiveSup (no_socket serverAnswer), LiveRun] = Some s1"
    "live_step nt demo_wx demo_js s1 LiveCallback = Some s'" "reports (lv_client s') = [(Connecting, []), (Running, [])]"
    and arrives: "\<forall>sv (r :: byte list transport). t_chunks r = [] \<longrightarrow> \<not> t_enablePerMessageDeflate r \<longrightarrow> t_rxbuf r = sent \<longrightarrow>
      t_out (dispatch sv Succeeded r) = t_out r @ replicate (max 1 (length msg div kChunkSize) - 1) (OutMessage [] 0 False FRAGMENT) @
        [OutMessage msg (length msg) False MSG_TEXT]"
    using start_subscribes [OF live_start c(1-4) serves laws msg(1,2) \<open>length msg < 2 ^ 63\<close>, where ?'m = "byte list"] unfolding c(5) by fastforce
  have "t_out (dispatch demo_socket Succeeded (demo_connection\<lparr>t_rxbuf := sent\<rparr>)) = [OutMessage (bytes_of ''{}'') 2 False MSG_TEXT]"
    using arrives [rule_format, of "demo_connection\<lparr>t_rxbuf := sent\<rparr>" demo_socket] msg(3)
    unfolding msg_def [symmetric] by (simp add: kChunkSize_def)
  with s show ?thesis unfolding nt_def by blast
qed

end
