(* ===== verification/Spec2Isabelle.thy ===== *)
theory Spec2Isabelle
  imports AisFormsProperties IxTransportProperties IxSessionProperties AisDelivery
begin

text \<open>
  AisLive is a plugin of OpenCPN that streams AIS targets around the boat from a WebSocket service
  and hands their NMEA sentences to OpenCPN. This development models the plugin and the part of the
  WebSocket library IXWebSocket, vendored in the repository, on which a session of it runs.

  \<^bold>\<open>How the program works.\<close> OpenCPN loads the plugin and calls it (toolbar button, menu item,
  preferences, position fixes, closing of the window). The plugin owns one main window, in which the
  user chooses a search area, a list of vessels to follow, and starts and stops the stream. The
  window owns one \<open>AisStreamClient\<close>. Its supervisor thread opens a session on the service, sends the
  subscribe request once the session is open, forwards the sentences of each frame, and pauses and
  tries again when the session ends, until it is stopped. What that thread reports reaches the window
  as calls posted to the event loop. The session itself is \<open>ix::WebSocket::run\<close>, which connects,
  polls the socket, takes frames apart and calls back on the same thread, while \<open>Stop\<close> may call
  \<open>close\<close> from another one.

  \<^bold>\<open>The plugin\<close> (\<open>src/src\<close>):

  \<^item> \<open>AisMessages\<close>, from \<open>ais-stream/ais_stream_client.h\<close> and \<open>.cpp\<close>: the states that are reported, the
    client's fields (record \<open>ais_client\<close>), \<open>BuildSubscribeMessage\<close>, \<open>ProcessAisEvent\<close>,
    \<open>HandleMessage\<close>.
  \<^item> \<open>AisSupervisor\<close>, same files: \<open>Start\<close>, \<open>Stop\<close>, \<open>Restart\<close> and \<open>SupervisorFunc\<close>. The record
    \<open>ais_sys\<close> is the shared state with the program counters of the two threads; \<open>ais_step\<close> is one
    step of either (an access to an atomic flag, or a section under \<open>m_socketMutex\<close>). The functions
    \<open>clientStart\<close>, \<open>clientStop\<close>, \<open>clientRestart\<close> are the same operations as their caller sees them;
    \<open>AisInterfaces\<close> states as a locale what the window relies on of them, interpreted here.
    \<open>AisSupervisorProofs\<close> has the invariant of the two threads, the order of the reports and the
    pacing of reconnections; \<open>AisClientProperties\<close> the resulting properties.
  \<^item> \<open>AisSettings\<close>, from \<open>settings/global_settings.cpp\<close>, \<open>settings/settings_ui_derived.cpp\<close> and
    \<open>SaveSettings\<close>, \<open>LoadSettings\<close> of \<open>plugin/plugin.cpp\<close>: the globals, their storage in OpenCPN's
    configuration object, the preferences dialog.
  \<^item> \<open>AisGeo\<close>, from \<open>utils/utils.cpp\<close>: great circle distances and the threshold of the follow mode.
  \<^item> \<open>AisMainGui\<close>, from \<open>main-ui/main_ui_derived.cpp\<close>: the window (record \<open>main_gui\<close>), one function per
    method, and \<open>guiEvent\<close>, the table of events. A handler that leaves a vector or does not return
    is a value of its result; \<open>editMmsi\<close> is run again by the cell that it sets back.
    \<open>AisMainGuiProofs\<close>: what every handler keeps true.
  \<^item> \<open>AisForms\<close>, from \<open>main-ui/main_ui_base.cpp\<close>, \<open>settings/settings_ui_base.cpp\<close> and
    \<open>menu-entry/menuDialog_ui_base.cpp\<close>: the generated constructors as lists of statements, with a
    function \<open>build\<close> that runs them by the rules of C++ and the toolkit. \<open>AisFormsProperties\<close>: they
    build what the handlers rely on, and connect each widget to the handler that \<open>guiEvent\<close> gives it.
  \<^item> \<open>AisPlugin\<close>, from \<open>plugin/plugin.cpp\<close> and \<open>menu-entry/menuDialog_ui_derived.cpp\<close>: the plugin
    object (record \<open>plugin\<close>, which holds settings, window and what OpenCPN was told) and \<open>app_step\<close>,
    the whole plugin driven by OpenCPN, the user and the stream's thread. \<open>AisPluginProofs\<close>: its
    invariant, and when the stream's token is that of the settings; \<open>AisPluginProperties\<close>: the
    properties.

  \<^bold>\<open>The WebSocket library\<close> (\<open>src/third-party/IXWebSocket/ixwebsocket\<close>):

  \<^item> \<open>IxUtf8\<close> (\<open>IXUtf8Validator.h\<close>): the table-driven check of text, proved to accept the grammar of
    RFC 3629.
  \<^item> \<open>IxFrame\<close>, \<open>IxTransport\<close> (\<open>IXWebSocketTransport.cpp\<close>): writing and reading of frames; the
    connection (record \<open>transport\<close>), its \<open>poll\<close>, \<open>dispatch\<close>, \<open>sendData\<close> and \<open>close\<close>, all integers at
    their width. \<open>IxTransportProofs\<close>: bytes are neither lost nor reordered, a message cut into frames
    is put together again, control frames are answered; \<open>IxTransportProperties\<close>: the properties.
  \<^item> \<open>IxUrlParser\<close> (\<open>IXUrlParser.cpp\<close>), with \<open>IxUrlProofs\<close>; \<open>IxHttp\<close> (\<open>IXHttp.cpp\<close>,
    \<open>IXStrCaseCompare.cpp\<close>, \<open>IXWebSocketHttpHeaders.cpp\<close>).
  \<^item> \<open>IxKeyGen\<close> (\<open>IXWebSocketHandshakeKeyGen.h\<close>, \<open>IXBase64.h\<close>): SHA-1 unrolled by templates and computed in
    place; \<open>IxKeyGenProofs\<close> has the function of FIPS 180-4 and the proof that they agree.
  \<^item> \<open>IxHandshake\<close> (\<open>IXWebSocketHandshake.cpp\<close>, the blocking reads and writes of \<open>IXSocket.cpp\<close>, and
    \<open>WebSocketTransport::connectToUrl\<close> with its redirections).
  \<^item> \<open>IxWebSocket\<close> (\<open>IXWebSocket.cpp\<close>, \<open>IXExponentialBackoff.cpp\<close>): configuration, \<open>checkConnection\<close>,
    the loop of \<open>run\<close> one turn at a time (\<open>runStep\<close>), sending and closing; \<open>ws_session\<close> interleaves the
    loop with the calls of other threads. \<open>IxSessionProofs\<close>: the locale \<open>connecting\<close> says what the run
    loop relies on of connecting, and is interpreted on \<open>connectToUrl\<close>; the messages of a whole run.
    \<open>IxClosing\<close>: runs whose peer has fallen silent. \<open>IxSessionProperties\<close>: the properties.
  \<^item> \<open>IxServer\<close> (\<open>serverHandshake\<close>, \<open>sendErrorResponse\<close>, \<open>Http::parseRequestLine\<close>,
    \<open>WebSocketTransport::connectToSocket\<close>): the other end of the upgrade. AisLive never serves; this is the
    peer against which its own handshake is proved to succeed. \<open>IxServerProofs\<close>: a request is parsed
    back into its headers, and so is an answer; \<open>IxServerProperties\<close>: client and server agree, hence a
    URL behind which such a server is can be connected to.

  \<^item> \<open>IxSocket\<close> (\<open>IXSocket.cpp\<close>, \<open>IXSelectInterruptPipe.cpp\<close>, \<open>IXSocketConnect.cpp\<close>, \<open>IXDNSLookup.cpp\<close>,
    \<open>IXSocketFactory.cpp\<close>, and of \<open>IXSocketOpenSSL.cpp\<close> connecting, closing, sending and receiving): the
    sockets below all that, as they are built on Linux with OpenSSL. The connection and the handshake are
    modelled over a socket as a parameter; \<open>socket_api\<close> and \<open>socket_net\<close> are these sockets as its value.
    \<open>IxSocketProofs\<close> derives what the properties above ask of a socket (that closing is for good, which bytes
    were sent, that a poll ends while the peer is silent) from the behaviour of the system calls, and that
    connecting returns by its deadline.

  \<^bold>\<open>The two together\<close>:

  \<^item> \<open>AisSession\<close>: the supervisor thread on the socket that it sets up. The record \<open>live_sys\<close> is the
    client, the socket that \<open>m_socket\<close> owns, where its run loop is and the messages for which the
    callback is still to be called; \<open>live_step\<close> is one step of the calling thread, of the supervisor,
    of the run loop, or one callback. The subscribe message goes out through \<open>send\<close> and \<open>Stop\<close> calls
    \<open>close\<close>. \<open>AisSessionProofs\<close>: every step is a step of \<open>ais_step\<close> or invisible to it
    (\<open>live_step_simulated\<close>), so that the properties of the client carry over; the invariant of the two,
    and how the system follows a run of the library. \<open>AisSessionOpen\<close>: how a session is opened, and what a
    \<open>Stop\<close> does that comes before. \<open>AisSessionProperties\<close>: no end of a session goes
    unreported, \<open>Stop\<close> ends an open session in a bounded number of steps, and two races in which the
    code does not do what it means to.
  \<^item> \<open>AisDelivery\<close>: both directions from end to end. A start leads to an open connection over which the
    service is sent the subscribe message for its arguments; what a server sends reaches OpenCPN as
    sentences, through the transport, the callback, the filter, the calls posted to the window and the
    event loop.

  \<open>AisPrelude\<close> holds the types, results and string operations shared by all; \<open>AisDemo\<close>,
  \<open>AisPluginDemo\<close>, \<open>IxDemo\<close>, \<open>IxSocketDemo\<close> and \<open>AisSessionDemo\<close> are concrete instances of the parameters, on
  which the properties with hypotheses are exercised; in the last two the sockets of the library run on a small
  system of their own.

  \<^bold>\<open>Parameters.\<close> jsoncpp (\<open>json_api\<close>), the functions of wxWidgets that look inside a string
  (\<open>wx_api\<close>), OpenCPN's configuration object (\<open>config_api\<close>), and of the library the system calls and
  the functions of OpenSSL (\<open>os_api\<close>). Its upper layers are modelled for any socket with its clocks and codec
  (\<open>sock_api\<close>), and any making and connecting of sockets, random bytes and cancellation (\<open>net_api\<close>). What a property relies on of them is a hypothesis of it. A configuration object expands environment
  variables in the strings it returns, so that only strings without one are claimed to come back.
  Two facts of wxWidgets are in the model itself: \<open>wxDataViewListCtrl::SetValue\<close> announces the changed
  value like an edit by the user, and of two handlers of an event the one connected last runs.

  \<^bold>\<open>Loops and bounds.\<close> \<open>dispatch\<close> is run with the length of the receive buffer as its fuel, and
  \<open>dispatchFrames_enough\<close> shows that more changes nothing, because each turn that goes on consumes
  bytes. Decimal printing has the number of digits as fuel. Redirections are at most ten, as in the
  code. \<open>stop_ends_open_session\<close> counts its steps: at most two for each request
  that other threads have left, and 22 more: the closing delay of 300 ms in waits of 100 ms, and the return.
  Loops that wait for the network (\<open>flushLoop\<close>, \<open>receiveFromSocket\<close>, the blocking reads and
  writes, \<open>checkConnection\<close>), and the handler \<open>editMmsi\<close>, are partial functions into \<open>option\<close>:
  \<open>None\<close> is a loop that does not end. \<open>vessel_list_stays_consistent\<close> says when \<open>editMmsi\<close> ends.
  That a closing run ends is therefore proved as such (\<open>closing_ends\<close>), on a system on which nothing
  arrives any more, with an explicit number of steps; and so is that connecting returns
  (\<open>plain_connect_returns\<close>), as long as the clock goes on.

  \<^bold>\<open>Simplifications.\<close> A \<open>double\<close> is a real number, so rounding, infinities and NaN are left out (a NaN
  in the configuration would pass \<open>std::clamp\<close> in \<open>updateSearchBoxSize\<close> unchanged); a
  \<open>wxString\<close> is its UTF-8 text. \<open>atoi\<close> of a number that no \<open>int\<close> holds, undefined in C, keeps the low
  32 bits, as glibc does; the property of URLs leaves such ports out. In \<open>AisSupervisor\<close> a session may produce any messages and end at
  any time; which ones it produces is what \<open>IxWebSocket\<close> and \<open>AisSession\<close> add. Between threads the
  library's calls are atomic: its mutexes are not modelled, and the lock-free fields
  are read and written in the order of the code.

  \<^bold>\<open>Not modelled.\<close> Positions, sizes, fonts, colours and identifiers of widgets, translations and icons
  have no behaviour that a handler depends on. The system calls, OpenSSL and zlib are outside the
  repository; setting the options of TLS and looking into certificates are mere calls into OpenSSL. The other TLS
  libraries and the code for Windows are not built on Linux. The servers themselves, the HTTP client,
  \<open>WebSocket::start\<close> and \<open>stop\<close> with their thread, and the traffic tracker are not
  reached by the plugin, which is a client that calls \<open>run\<close> itself. Build files, tests and manuals have
  no behaviour at run time.
\<close>

end
